theory Spec2Isabelle
  imports Main "HOL-Library.Word"
begin

unbundle bit_operations_syntax

section \<open>mdf2wav: constants and basic types\<close>

text \<open>
  The program reads a raw CDDA image with subchannel data from standard input and writes
  one WAV file per track. This theory embeds \<^verbatim>\<open>mdf2wav.c\<close>: the C integer
  types are words of their width, the global \<^verbatim>\<open>struct State\<close> is a record that
  is passed and returned, and the operating system (file contents, descriptor table,
  what the streams have received) is an explicit \<open>world\<close> record. Standard error is
  descriptor 2 of that table.
\<close>

type_synonym byte = "8 word"
type_synonym uint16 = "16 word"
type_synonym uint32 = "32 word"
type_synonym ull = "64 word"

definition WAV_HEADER_SIZE :: nat where "WAV_HEADER_SIZE = 44"
definition WAV_SUBCHUNK1_PCM :: uint32 where "WAV_SUBCHUNK1_PCM = 16"
definition WAV_FORMAT_PCM :: uint16 where "WAV_FORMAT_PCM = 1"

definition DATA_SIZE :: nat where "DATA_SIZE = 2352"
definition SUBCODE_SIZE :: nat where "SUBCODE_SIZE = 96"
definition BLOCK_SIZE :: nat where "BLOCK_SIZE = DATA_SIZE + SUBCODE_SIZE"
definition SUBCODE_P :: byte where "SUBCODE_P = push_bit 7 1"
definition sample_rate :: uint32 where "sample_rate = 44100"
definition bits_per_sample :: uint16 where "bits_per_sample = 16"
definition num_channels :: uint16 where "num_channels = 2"

definition INVALID_FD :: int where "INVALID_FD = - 1"
definition BITS_PER_BYTE :: uint16 where "BITS_PER_BYTE = 8"

section \<open>The operating system\<close>

text \<open>
  A regular file is its name and its bytes. A descriptor is free, or open on a regular
  file, with the name it was opened under and a file position, or open on a stream (a
  terminal or a pipe), which has an identifier and keeps no position. The descriptor
  table is indexed by descriptor number; \<open>open\<close> hands out the lowest free number.
  \<open>open_fault\<close> is the environment's say on a create that fails for a reason other than
  the name being taken (permissions, descriptor limit, ...). \<open>stream_out\<close> holds the
  bytes that each stream has received.
\<close>

datatype errno = EEXIST | Other_errno string

record ofd =
  ofd_name :: string
  ofd_pos :: nat

datatype slot = Free | To_file ofd | To_stream string

record world =
  files :: "string \<rightharpoonup> byte list"
  fdtab :: "slot list"
  open_fault :: "string \<rightharpoonup> errno"
  stream_out :: "string \<Rightarrow> byte list"

definition fd_slot :: "slot list \<Rightarrow> int \<Rightarrow> slot" where
  "fd_slot t fd = (if 0 \<le> fd \<and> nat fd < length t then t ! nat fd else Free)"

fun fd_alloc :: "slot list \<Rightarrow> nat" where
  "fd_alloc [] = 0"
| "fd_alloc (Free # t) = 0"
| "fd_alloc (To_file d # t) = Suc (fd_alloc t)"
| "fd_alloc (To_stream i # t) = Suc (fd_alloc t)"

definition fd_set :: "slot list \<Rightarrow> nat \<Rightarrow> slot \<Rightarrow> slot list" where
  "fd_set t n v =
     (if n < length t then t[n := v] else t @ replicate (n - length t) Free @ [v])"

definition strerror :: "errno \<Rightarrow> string" where
  "strerror e = (case e of EEXIST \<Rightarrow> ''File exists'' | Other_errno s \<Rightarrow> s)"

text \<open>\<^verbatim>\<open>open(name, O_CREAT | O_EXCL | O_WRONLY, 0644)\<close>: fails when the name exists.\<close>

definition sys_open :: "world \<Rightarrow> string \<Rightarrow> (errno + int) \<times> world" where
  "sys_open w name =
     (case open_fault w name of
        Some e \<Rightarrow> (Inl e, w)
      | None \<Rightarrow>
          (case files w name of
             Some c \<Rightarrow> (Inl EEXIST, w)
           | None \<Rightarrow>
               (let fd = fd_alloc (fdtab w)
                in (Inr (int fd),
                    w\<lparr>files := (files w)(name \<mapsto> []),
                      fdtab := fd_set (fdtab w) fd
                                 (To_file \<lparr>ofd_name = name, ofd_pos = 0\<rparr>)\<rparr>))))"

definition SEEK_SET :: int where "SEEK_SET = 0"
definition SEEK_CUR :: int where "SEEK_CUR = 1"
definition SEEK_END :: int where "SEEK_END = 2"

text \<open>
  \<^verbatim>\<open>lseek(fd, offset, whence)\<close>. The program ignores the result, so only the new
  world is returned; a failing call (descriptor not open, or open on a stream, or a
  negative position) changes nothing.
\<close>

definition sys_lseek :: "world \<Rightarrow> int \<Rightarrow> int \<Rightarrow> int \<Rightarrow> world" where
  "sys_lseek w fd off whence =
     (case fd_slot (fdtab w) fd of
        Free \<Rightarrow> w
      | To_stream i \<Rightarrow> w
      | To_file d \<Rightarrow>
          (let base =
                 (if whence = SEEK_SET then Some 0
                  else if whence = SEEK_CUR then Some (int (ofd_pos d))
                  else if whence = SEEK_END then
                    (case files w (ofd_name d) of
                       None \<Rightarrow> None
                     | Some c \<Rightarrow> Some (int (length c)))
                  else None)
           in case base of
                None \<Rightarrow> w
              | Some b \<Rightarrow>
                  (if b + off < 0 then w
                   else w\<lparr>fdtab := fd_set (fdtab w) (nat fd)
                                     (To_file (d\<lparr>ofd_pos := nat (b + off)\<rparr>))\<rparr>)))"

text \<open>Writing \<open>bs\<close> at position \<open>pos\<close> of a file; a gap past the end reads as zeros.\<close>

definition write_at :: "byte list \<Rightarrow> nat \<Rightarrow> byte list \<Rightarrow> byte list" where
  "write_at c pos bs =
     take pos c @ replicate (pos - length c) 0 @ bs @ drop (pos + length bs) c"

text \<open>
  \<^verbatim>\<open>write(fd, bs, n)\<close>. The program ignores the result. A write on a descriptor that
  is not open changes nothing (EBADF); a write on an open one is taken to succeed in
  full: on a regular file the bytes go to the file position, which advances; on a stream
  they are added to what the stream has received.
\<close>

definition sys_write :: "world \<Rightarrow> int \<Rightarrow> byte list \<Rightarrow> world" where
  "sys_write w fd bs =
     (case fd_slot (fdtab w) fd of
        Free \<Rightarrow> w
      | To_stream i \<Rightarrow> w\<lparr>stream_out := (stream_out w)(i := stream_out w i @ bs)\<rparr>
      | To_file d \<Rightarrow>
          (case files w (ofd_name d) of
             None \<Rightarrow> w
           | Some c \<Rightarrow>
               w\<lparr>files := (files w)(ofd_name d \<mapsto> write_at c (ofd_pos d) bs),
                 fdtab := fd_set (fdtab w) (nat fd)
                            (To_file (d\<lparr>ofd_pos := ofd_pos d + length bs\<rparr>))\<rparr>))"

definition sys_close :: "world \<Rightarrow> int \<Rightarrow> world" where
  "sys_close w fd =
     (case fd_slot (fdtab w) fd of
        Free \<Rightarrow> w
      | To_stream i \<Rightarrow> w\<lparr>fdtab := fd_set (fdtab w) (nat fd) Free\<rparr>
      | To_file d \<Rightarrow> w\<lparr>fdtab := fd_set (fdtab w) (nat fd) Free\<rparr>)"

text \<open>
  \<^verbatim>\<open>fprintf(stderr, ...)\<close>: standard error is unbuffered, so each call writes the
  formatted text to descriptor 2, whatever that descriptor is open on.
\<close>

definition STDERR_FILENO :: int where "STDERR_FILENO = 2"

definition str_bytes :: "string \<Rightarrow> byte list" where
  "str_bytes s = map of_char s"

definition fprintf_stderr :: "world \<Rightarrow> string \<Rightarrow> world" where
  "fprintf_stderr w s = sys_write w STDERR_FILENO (str_bytes s)"

section \<open>Formatting\<close>

definition digit :: "nat \<Rightarrow> char" where
  "digit d = ''0123456789'' ! d"

fun dec :: "nat \<Rightarrow> string" where
  "dec n = (if n < 10 then [digit n] else dec (n div 10) @ [digit (n mod 10)])"

declare dec.simps [simp del]

text \<open>\<^verbatim>\<open>%02u\<close>: decimal, padded with zeros on the left to at least two characters.\<close>

definition fmt_02u :: "nat \<Rightarrow> string" where
  "fmt_02u n = replicate (2 - length (dec n)) (CHR ''0'') @ dec n"

text \<open>\<^verbatim>\<open>%llu\<close>\<close>

definition fmt_llu :: "nat \<Rightarrow> string" where
  "fmt_llu n = dec n"

definition dquote :: string where "dquote = [CHR 0x22]"
definition newline :: string where "newline = [CHR 0x0A]"

section \<open>The WAV header\<close>

definition memcpy :: "byte list \<Rightarrow> nat \<Rightarrow> byte list \<Rightarrow> byte list" where
  "memcpy p off src = take off p @ src @ drop (off + length src) p"

definition write_le16 :: "byte list \<Rightarrow> nat \<Rightarrow> uint16 \<Rightarrow> byte list" where
  "write_le16 p off v =
     (p[off := ucast (v AND 0xff)])[off + 1 := ucast (drop_bit 8 v AND 0xff)]"

definition write_le32 :: "byte list \<Rightarrow> nat \<Rightarrow> uint32 \<Rightarrow> byte list" where
  "write_le32 p off v =
     (((p[off := ucast (v AND 0xff)])
         [off + 1 := ucast (drop_bit 8 v AND 0xff)])
         [off + 2 := ucast (drop_bit 16 v AND 0xff)])
         [off + 3 := ucast (drop_bit 24 v AND 0xff)]"

definition tag_RIFF :: "byte list" where "tag_RIFF = [0x52, 0x49, 0x46, 0x46]"
definition tag_WAVE :: "byte list" where "tag_WAVE = [0x57, 0x41, 0x56, 0x45]"
definition tag_fmt :: "byte list" where "tag_fmt = [0x66, 0x6D, 0x74, 0x20]"
definition tag_data :: "byte list" where "tag_data = [0x64, 0x61, 0x74, 0x61]"

text \<open>The 44 bytes that \<^verbatim>\<open>write_wav_header\<close> builds in its local buffer.\<close>

definition wav_header :: "uint32 \<Rightarrow> byte list" where
  "wav_header nsamples =
     (let subchunk1_size = WAV_SUBCHUNK1_PCM;
          audio_format = WAV_FORMAT_PCM;
          block_align = num_channels * (bits_per_sample div 8);
          byte_rate = sample_rate * ucast block_align;
          subchunk2_size = nsamples * ucast block_align;
          chunk_size = 36 + subchunk2_size;
          h = replicate WAV_HEADER_SIZE 0;
          h = memcpy h 0 tag_RIFF;
          h = write_le32 h 4 chunk_size;
          h = memcpy h 8 tag_WAVE;
          h = memcpy h 12 tag_fmt;
          h = write_le32 h 16 subchunk1_size;
          h = write_le16 h 20 audio_format;
          h = write_le16 h 22 num_channels;
          h = write_le32 h 24 sample_rate;
          h = write_le32 h 28 byte_rate;
          h = write_le16 h 32 block_align;
          h = write_le16 h 34 bits_per_sample;
          h = memcpy h 36 tag_data;
          h = write_le32 h 40 subchunk2_size
      in h)"

text \<open>
  The source calls \<^verbatim>\<open>lseek(fd, SEEK_SET, 0)\<close>: the offset argument is \<open>SEEK_SET\<close>
  and the whence argument is \<open>0\<close>.
\<close>

definition write_wav_header :: "world \<Rightarrow> int \<Rightarrow> uint32 \<Rightarrow> world" where
  "write_wav_header w fd nsamples =
     sys_write (sys_lseek w fd SEEK_SET 0) fd (take WAV_HEADER_SIZE (wav_header nsamples))"

section \<open>Track detection\<close>

text \<open>
  The loop of \<^verbatim>\<open>is_track_start\<close> over the subcode bytes, from index \<open>i\<close> on.
  \<^verbatim>\<open>buf[i] & SUBCODE_P\<close> tests bit 7 of the byte, whatever the signedness of
  \<^verbatim>\<open>char\<close>.
\<close>

function is_track_start_from :: "byte list \<Rightarrow> nat \<Rightarrow> bool" where
  "is_track_start_from b i =
     (if i < BLOCK_SIZE
      then (if (b ! i) AND SUBCODE_P = 0 then False else is_track_start_from b (Suc i))
      else True)"
  by pat_completeness auto
termination
  by (relation "measure (\<lambda>(b, i). BLOCK_SIZE - i)") auto

declare is_track_start_from.simps [simp del]

definition is_track_start :: "byte list \<Rightarrow> bool" where
  "is_track_start b = is_track_start_from b DATA_SIZE"

section \<open>The program state and the track operations\<close>

record State =
  buf :: "byte list"
  output_file_name :: string
  start_offset :: ull
  end_offset :: ull
  offset :: ull
  track_fd :: int
  track_number :: uint32
  num_samples :: uint32

text \<open>\<^verbatim>\<open>snprintf(name, 256, "track_%02u.wav", n)\<close> keeps at most 255 characters.\<close>

definition track_file_name :: "uint32 \<Rightarrow> string" where
  "track_file_name n = take 255 (''track_'' @ fmt_02u (unat n) @ ''.wav'')"

text \<open>
  \<open>start_track\<close> and \<open>is_track_start\<close> return an \<^verbatim>\<open>int\<close> that is only
  tested for zero; the model returns a \<open>bool\<close>. The descriptor field is assigned the
  result of \<^verbatim>\<open>open\<close>, which is \<open>-1\<close> when the call fails.
\<close>

definition start_track :: "State \<Rightarrow> world \<Rightarrow> bool \<times> State \<times> world" where
  "start_track st w =
     (let st = st\<lparr>num_samples := 0\<rparr>;
          st = st\<lparr>start_offset := offset st\<rparr>;
          st = st\<lparr>output_file_name := track_file_name (track_number st)\<rparr>
      in case sys_open w (output_file_name st) of
           (Inl e, w) \<Rightarrow>
             (let st = st\<lparr>track_fd := - 1\<rparr>;
                  w = (if e = EEXIST
                       then fprintf_stderr w
                              (''start_track: file '' @ dquote @ output_file_name st @ dquote
                                 @ '' already exists, won't overwrite'' @ newline)
                       else fprintf_stderr w
                              (''start_track: '' @ dquote @ output_file_name st @ dquote
                                 @ '': '' @ strerror e @ newline))
              in (False, st, w))
         | (Inr fd, w) \<Rightarrow>
             (let st = st\<lparr>track_fd := fd\<rparr>
              in (True, st, write_wav_header w (track_fd st) (num_samples st))))"

definition close_track :: "State \<Rightarrow> world \<Rightarrow> State \<times> world" where
  "close_track st w =
     (if track_fd st = INVALID_FD then (st, w)
      else
        (let st = st\<lparr>end_offset := offset st\<rparr>;
             duration_s =
               (((end_offset st - start_offset st) * word_of_nat DATA_SIZE)
                   div word_of_nat BLOCK_SIZE)
                 div ucast (sample_rate * ucast (bits_per_sample div BITS_PER_BYTE)
                              * ucast num_channels);
             w = fprintf_stderr w
                   (output_file_name st @ '': duration_s:'' @ fmt_llu (unat duration_s)
                      @ '' start_offset:'' @ fmt_llu (unat (start_offset st))
                      @ '' end_offset:'' @ fmt_llu (unat (end_offset st)) @ newline);
             w = write_wav_header w (track_fd st) (num_samples st);
             w = sys_close w (track_fd st)
         in (st, w)))"

definition update_track :: "State \<Rightarrow> world \<Rightarrow> State \<times> world" where
  "update_track st w =
     (if track_fd st \<noteq> INVALID_FD
      then
        (let w = sys_write w (track_fd st) (take DATA_SIZE (buf st));
             st = st\<lparr>num_samples :=
                       num_samples st
                         + word_of_nat DATA_SIZE
                             div ucast ((bits_per_sample div BITS_PER_BYTE) * num_channels)\<rparr>
         in (st, w))
      else (st, w))"

section \<open>The main loop\<close>

text \<open>
  The input is the list of results that the successive \<^verbatim>\<open>read(0, buf, BLOCK_SIZE)\<close>
  calls give: a failure, or the bytes delivered (at most \<open>BLOCK_SIZE\<close> of them are
  taken). Once the list is used up, \<open>read\<close> gives 0. A read stores its bytes at the
  start of the buffer and leaves the rest of the buffer as it was.
\<close>

datatype read_result = Read_failed | Read_data "byte list"

definition sys_read :: "byte list \<Rightarrow> read_result \<Rightarrow> int \<times> byte list" where
  "sys_read b r =
     (case r of
        Read_failed \<Rightarrow> (- 1, b)
      | Read_data bs \<Rightarrow>
          (let n = min (length bs) BLOCK_SIZE
           in (int n, take n bs @ drop n b)))"

datatype loop_exit = End_of_input | Open_failed

text \<open>
  One pass through the body of \<^verbatim>\<open>while (1)\<close>: \<open>Some\<close> reason when the pass
  leaves the loop by \<^verbatim>\<open>break\<close>, \<open>None\<close> when the loop goes round again.
\<close>

definition loop_body :: "State \<Rightarrow> world \<Rightarrow> read_result \<Rightarrow> loop_exit option \<times> State \<times> world" where
  "loop_body st w r =
     (case sys_read (buf st) r of
        (count, b) \<Rightarrow>
          (let st = st\<lparr>buf := b\<rparr>
           in if count \<le> 0 then (Some End_of_input, st, w)
              else
                (case (if is_track_start (buf st)
                       then (case close_track (st\<lparr>track_number := track_number st + 1\<rparr>) w of
                               (st, w) \<Rightarrow> start_track st w)
                       else (True, st, w)) of
                   (ok, st, w) \<Rightarrow>
                     (if \<not> ok then (Some Open_failed, st, w)
                      else
                        (case update_track st w of
                           (st, w) \<Rightarrow>
                             (None, st\<lparr>offset := offset st + word_of_nat BLOCK_SIZE\<rparr>, w))))))"

fun main_loop :: "State \<Rightarrow> world \<Rightarrow> read_result list \<Rightarrow> loop_exit \<times> State \<times> world" where
  "main_loop st w [] = (End_of_input, st, w)"
| "main_loop st w (r # rs) =
     (case loop_body st w r of
        (Some ex, st, w) \<Rightarrow> (ex, st, w)
      | (None, st, w) \<Rightarrow> main_loop st w rs)"

text \<open>\<^verbatim>\<open>memset(&state, 0, sizeof(state)); state.track_fd = INVALID_FD;\<close>\<close>

definition initial_state :: State where
  "initial_state =
     \<lparr>buf = replicate BLOCK_SIZE 0, output_file_name = [], start_offset = 0,
      end_offset = 0, offset = 0, track_fd = INVALID_FD, track_number = 0,
      num_samples = 0\<rparr>"

text \<open>\<open>main\<close> gives the exit status and the world it leaves behind.\<close>

definition main :: "world \<Rightarrow> read_result list \<Rightarrow> int \<times> world" where
  "main w rs =
     (case main_loop initial_state w rs of
        (ex, st, w) \<Rightarrow> (case close_track st w of (st, w) \<Rightarrow> (0, w)))"

section \<open>Notions used to state the properties\<close>

text \<open>The payload region of a sector: what \<^verbatim>\<open>update_track\<close> writes from the buffer.\<close>

definition payload :: "byte list \<Rightarrow> byte list" where
  "payload s = take DATA_SIZE s"

text \<open>Little-endian encodings, and reading a 32-bit little-endian field back.\<close>

definition le16 :: "uint16 \<Rightarrow> byte list" where
  "le16 v = [ucast v, ucast (drop_bit 8 v)]"

definition le32 :: "uint32 \<Rightarrow> byte list" where
  "le32 v = [ucast v, ucast (drop_bit 8 v), ucast (drop_bit 16 v), ucast (drop_bit 24 v)]"

definition read_le32 :: "byte list \<Rightarrow> nat \<Rightarrow> uint32" where
  "read_le32 bs off =
     ucast (bs ! off) OR push_bit 8 (ucast (bs ! (off + 1)))
       OR push_bit 16 (ucast (bs ! (off + 2))) OR push_bit 24 (ucast (bs ! (off + 3)))"

text \<open>The line that \<^verbatim>\<open>close_track\<close> prints, and the duration it computes.\<close>

definition diag_line :: "string \<Rightarrow> nat \<Rightarrow> nat \<Rightarrow> nat \<Rightarrow> string" where
  "diag_line nm d s e =
     nm @ '': duration_s:'' @ dec d @ '' start_offset:'' @ dec s @ '' end_offset:'' @ dec e
       @ newline"

definition duration_of :: "ull \<Rightarrow> ull \<Rightarrow> ull" where
  "duration_of s e = ((e - s) * 2352 div 2448) div 176400"

text \<open>The line that \<^verbatim>\<open>close_track\<close> prints in the state \<open>st\<close>.\<close>

definition close_line :: "State \<Rightarrow> string" where
  "close_line st =
     diag_line (output_file_name st) (unat (duration_of (start_offset st) (offset st)))
       (unat (start_offset st)) (unat (offset st))"

text \<open>The lines that \<^verbatim>\<open>start_track\<close> prints when the create fails.\<close>

definition exists_line :: "string \<Rightarrow> string" where
  "exists_line nm =
     ''start_track: file '' @ dquote @ nm @ dquote @ '' already exists, won't overwrite''
       @ newline"

definition error_line :: "string \<Rightarrow> errno \<Rightarrow> string" where
  "error_line nm e = ''start_track: '' @ dquote @ nm @ dquote @ '': '' @ strerror e @ newline"

text \<open>The name of the regular file that a descriptor is open on, if it is.\<close>

definition fd_file :: "world \<Rightarrow> int \<Rightarrow> string option" where
  "fd_file w fd = (case fd_slot (fdtab w) fd of To_file d \<Rightarrow> Some (ofd_name d) | _ \<Rightarrow> None)"

text \<open>What a descriptor is open on, with the file position left out.\<close>

definition fd_target :: "world \<Rightarrow> int \<Rightarrow> slot" where
  "fd_target w fd =
     (case fd_slot (fdtab w) fd of
        Free \<Rightarrow> Free
      | To_stream i \<Rightarrow> To_stream i
      | To_file d \<Rightarrow> To_file (d\<lparr>ofd_pos := 0\<rparr>))"

text \<open>
  A track file is open: the descriptor of the state is open on the file \<open>nm\<close>, whose
  contents are \<open>c\<close>, and the file position is at its end.
\<close>

definition session :: "State \<Rightarrow> world \<Rightarrow> string \<Rightarrow> byte list \<Rightarrow> bool" where
  "session st w nm c \<longleftrightarrow>
     track_fd st \<noteq> INVALID_FD \<and> output_file_name st = nm \<and>
     fd_slot (fdtab w) (track_fd st) = To_file \<lparr>ofd_name = nm, ofd_pos = length c\<rparr> \<and>
     files w nm = Some c"

text \<open>Standard error is open, and is not open on the regular file \<open>nm\<close>.\<close>

definition stderr_apart :: "world \<Rightarrow> string \<Rightarrow> bool" where
  "stderr_apart w nm \<longleftrightarrow>
     fd_slot (fdtab w) STDERR_FILENO \<noteq> Free \<and> fd_file w STDERR_FILENO \<noteq> Some nm"

text \<open>The value of a string of decimal digits.\<close>

definition digit_val :: "char \<Rightarrow> nat" where
  "digit_val c = of_char c - 48"

definition undec :: "string \<Rightarrow> nat" where
  "undec s = foldl (\<lambda>a c. 10 * a + digit_val c) 0 s"

text \<open>
  Concrete inputs: an empty directory with the three standard descriptors open on
  streams, the same directory with standard error closed, a sector whose subcode bytes
  all have the P bit set, and a sector where none has. Two more sectors that start no
  track: in \<open>tail_sector\<close> all subcode bytes but the first have the P bit set, in
  \<open>head_sector\<close> all but the second.
\<close>

definition fresh_world :: world where
  "fresh_world =
     \<lparr>files = Map.empty,
      fdtab = [To_stream ''stdin'', To_stream ''stdout'', To_stream ''stderr''],
      open_fault = Map.empty,
      stream_out = (\<lambda>i. [])\<rparr>"

definition no_stderr_world :: world where
  "no_stderr_world =
     \<lparr>files = Map.empty,
      fdtab = [To_stream ''stdin'', To_stream ''stdout''],
      open_fault = Map.empty,
      stream_out = (\<lambda>i. [])\<rparr>"

definition mark_sector :: "byte list" where
  "mark_sector = replicate DATA_SIZE 0x11 @ replicate SUBCODE_SIZE 0x80"

definition plain_sector :: "byte list" where
  "plain_sector = replicate DATA_SIZE 0x22 @ replicate SUBCODE_SIZE 0"

definition tail_sector :: "byte list" where
  "tail_sector = replicate DATA_SIZE 0x22 @ [0] @ replicate 95 0x80"

definition head_sector :: "byte list" where
  "head_sector = replicate DATA_SIZE 0x33 @ [0x80, 0] @ replicate 94 0x80"
section \<open>Facts about the constants\<close>

lemma BLOCK_SIZE_eq: "BLOCK_SIZE = 2448"
  by (simp add: BLOCK_SIZE_def DATA_SIZE_def SUBCODE_SIZE_def)

lemma block_align_eq: "num_channels * (bits_per_sample div 8) = 4"
  by (simp add: num_channels_def bits_per_sample_def)

lemma samples_per_sector:
  "(word_of_nat DATA_SIZE :: uint32)
     div ucast ((bits_per_sample div BITS_PER_BYTE) * num_channels) = 588"
  by (simp add: DATA_SIZE_def bits_per_sample_def BITS_PER_BYTE_def num_channels_def)

lemma byte_rate_eq:
  "(ucast (sample_rate * ucast (bits_per_sample div BITS_PER_BYTE) * ucast num_channels) :: ull)
     = 176400"
  by (simp add: bits_per_sample_def BITS_PER_BYTE_def num_channels_def sample_rate_def)

section \<open>Facts about the descriptor table and the system calls\<close>

lemma fd_alloc_nth: "fd_alloc t < length t \<Longrightarrow> t ! fd_alloc t = Free"
  by (induction t rule: fd_alloc.induct) auto

lemma fd_alloc_free: "fd_slot t (int (fd_alloc t)) = Free"
  by (simp add: fd_slot_def fd_alloc_nth)

lemma fd_alloc_other: "fd_slot t fd \<noteq> Free \<Longrightarrow> int (fd_alloc t) \<noteq> fd"
  using fd_alloc_free [of t] by auto

lemma fd_slot_fd_set:
  "fd_slot (fd_set t n v) fd = (if fd = int n then v else fd_slot t fd)"
  by (auto simp: fd_slot_def fd_set_def nth_append nth_list_update)

lemma fd_slot_neg: "fd < 0 \<Longrightarrow> fd_slot t fd = Free"
  by (simp add: fd_slot_def)

lemma fd_slot_nat: "fd_slot t fd \<noteq> Free \<Longrightarrow> int (nat fd) = fd"
  by (auto simp: fd_slot_def split: if_splits)

lemma write_at_end: "write_at c (length c) bs = c @ bs"
  by (simp add: write_at_def)

lemma write_at_0: "write_at c 0 bs = bs @ drop (length bs) c"
  by (simp add: write_at_def)

lemma sys_write_open:
  assumes "fd_slot (fdtab w) fd = To_file d" "files w (ofd_name d) = Some c"
  shows "files (sys_write w fd bs) = (files w)(ofd_name d \<mapsto> write_at c (ofd_pos d) bs)"
    and "fd_slot (fdtab (sys_write w fd bs)) fd' =
           (if fd' = fd then To_file (d\<lparr>ofd_pos := ofd_pos d + length bs\<rparr>)
            else fd_slot (fdtab w) fd')"
    and "stream_out (sys_write w fd bs) = stream_out w"
proof -
  have "fd_slot (fdtab w) fd \<noteq> Free" using assms(1) by simp
  from fd_slot_nat [OF this] assms
  show "files (sys_write w fd bs) = (files w)(ofd_name d \<mapsto> write_at c (ofd_pos d) bs)"
    and "fd_slot (fdtab (sys_write w fd bs)) fd' =
           (if fd' = fd then To_file (d\<lparr>ofd_pos := ofd_pos d + length bs\<rparr>)
            else fd_slot (fdtab w) fd')"
    and "stream_out (sys_write w fd bs) = stream_out w"
    by (auto simp: sys_write_def fd_slot_fd_set)
qed

lemma sys_write_other [simp]:
  "open_fault (sys_write w fd bs) = open_fault w"
  by (auto simp: sys_write_def split: option.splits slot.splits)

lemma sys_write_stream:
  "fd_slot (fdtab w) fd = To_stream i \<Longrightarrow>
   sys_write w fd bs = w\<lparr>stream_out := (stream_out w)(i := stream_out w i @ bs)\<rparr>"
  by (simp add: sys_write_def)

lemma sys_write_slot_other:
  "fd' \<noteq> fd \<Longrightarrow> fd_slot (fdtab (sys_write w fd bs)) fd' = fd_slot (fdtab w) fd'"
proof (cases "fd_slot (fdtab w) fd")
  case Free
  then show ?thesis by (simp add: sys_write_def)
next
  case (To_stream i)
  then show ?thesis by (simp add: sys_write_def)
next
  case (To_file d)
  assume ne: "fd' \<noteq> fd"
  have "fd_slot (fdtab w) fd \<noteq> Free" using To_file by simp
  from fd_slot_nat [OF this] To_file ne show ?thesis
    by (auto simp: sys_write_def fd_slot_fd_set split: option.splits)
qed

text \<open>A write leaves every descriptor free, on its file, or on its stream, as it was.\<close>

lemma sys_write_slot_kind:
  "fd_slot (fdtab (sys_write w fd bs)) fd' = Free \<longleftrightarrow> fd_slot (fdtab w) fd' = Free"
  "fd_slot (fdtab (sys_write w fd bs)) fd' = To_stream i \<longleftrightarrow> fd_slot (fdtab w) fd' = To_stream i"
proof -
  have "(fd_slot (fdtab (sys_write w fd bs)) fd' = Free \<longleftrightarrow> fd_slot (fdtab w) fd' = Free)
      \<and> (fd_slot (fdtab (sys_write w fd bs)) fd' = To_stream i
           \<longleftrightarrow> fd_slot (fdtab w) fd' = To_stream i)"
  proof (cases "fd' = fd")
    case False
    then show ?thesis by (simp add: sys_write_slot_other)
  next
    case True
    show ?thesis
    proof (cases "fd_slot (fdtab w) fd")
      case Free
      with True show ?thesis by (simp add: sys_write_def)
    next
      case (To_stream j)
      with True show ?thesis by (simp add: sys_write_def)
    next
      case (To_file d)
      have "fd_slot (fdtab w) fd \<noteq> Free" using To_file by simp
      from fd_slot_nat [OF this] To_file True show ?thesis
        by (auto simp: sys_write_def fd_slot_fd_set split: option.splits)
    qed
  qed
  then show "fd_slot (fdtab (sys_write w fd bs)) fd' = Free \<longleftrightarrow> fd_slot (fdtab w) fd' = Free"
    and "fd_slot (fdtab (sys_write w fd bs)) fd' = To_stream i
           \<longleftrightarrow> fd_slot (fdtab w) fd' = To_stream i"
    by simp_all
qed

lemma sys_lseek_start:
  assumes "fd_slot (fdtab w) fd = To_file d"
  shows "fd_slot (fdtab (sys_lseek w fd SEEK_SET 0)) fd' =
           (if fd' = fd then To_file (d\<lparr>ofd_pos := 0\<rparr>) else fd_slot (fdtab w) fd')"
proof -
  have "fd_slot (fdtab w) fd \<noteq> Free" using assms by simp
  from fd_slot_nat [OF this] assms show ?thesis
    by (auto simp: sys_lseek_def fd_slot_fd_set SEEK_SET_def)
qed

lemma sys_lseek_other [simp]:
  "files (sys_lseek w fd off wh) = files w"
  "stream_out (sys_lseek w fd off wh) = stream_out w"
  "open_fault (sys_lseek w fd off wh) = open_fault w"
  by (auto simp: sys_lseek_def Let_def split: option.splits slot.splits)

lemma sys_close_slot:
  "fd_slot (fdtab (sys_close w fd)) fd' =
     (if fd' = fd then Free else fd_slot (fdtab w) fd')"
proof (cases "fd_slot (fdtab w) fd = Free")
  case True
  then show ?thesis by (simp add: sys_close_def)
next
  case False
  from fd_slot_nat [OF False] False show ?thesis
    by (cases "fd_slot (fdtab w) fd") (simp_all add: sys_close_def fd_slot_fd_set)
qed

lemma sys_close_other [simp]:
  "files (sys_close w fd) = files w"
  "stream_out (sys_close w fd) = stream_out w"
  "open_fault (sys_close w fd) = open_fault w"
  by (auto simp: sys_close_def split: slot.splits)

lemma fprintf_stderr_open_fault [simp]:
  "open_fault (fprintf_stderr w s) = open_fault w"
  by (simp add: fprintf_stderr_def)

text \<open>When standard error is a stream, printing adds to that stream and does nothing else.\<close>

lemma fprintf_stderr_stream:
  "fd_slot (fdtab w) STDERR_FILENO = To_stream i \<Longrightarrow>
   fprintf_stderr w s = w\<lparr>stream_out := (stream_out w)(i := stream_out w i @ str_bytes s)\<rparr>"
  by (simp add: fprintf_stderr_def sys_write_stream)

lemma fprintf_stderr_slot_other:
  "fd \<noteq> STDERR_FILENO \<Longrightarrow>
   fd_slot (fdtab (fprintf_stderr w s)) fd = fd_slot (fdtab w) fd"
  by (simp add: fprintf_stderr_def sys_write_slot_other)

lemma fprintf_stderr_slot_kind:
  "fd_slot (fdtab (fprintf_stderr w s)) fd = Free \<longleftrightarrow> fd_slot (fdtab w) fd = Free"
  "fd_slot (fdtab (fprintf_stderr w s)) fd = To_stream i \<longleftrightarrow> fd_slot (fdtab w) fd = To_stream i"
  by (simp_all add: fprintf_stderr_def sys_write_slot_kind)

section \<open>Facts about the header\<close>

lemma ucast_and_ff32: "(ucast ((x::uint32) AND 0xff) :: byte) = ucast x"
proof -
  have m: "(0xff::uint32) = mask 8" by (simp add: mask_eq_exp_minus_1)
  show ?thesis
    unfolding m by (rule bit_word_eqI) (simp add: bit_simps)
qed

lemma ucast_and_ff16: "(ucast ((x::uint16) AND 0xff) :: byte) = ucast x"
proof -
  have m: "(0xff::uint16) = mask 8" by (simp add: mask_eq_exp_minus_1)
  show ?thesis
    unfolding m by (rule bit_word_eqI) (simp add: bit_simps)
qed

lemma bytes_to_word32:
  "ucast (ucast v :: byte) OR push_bit 8 (ucast (ucast (drop_bit 8 v) :: byte))
       OR push_bit 16 (ucast (ucast (drop_bit 16 v) :: byte))
       OR push_bit 24 (ucast (ucast (drop_bit 24 v) :: byte)) = (v :: uint32)"
proof (rule bit_word_eqI)
  fix n :: nat
  assume "n < LENGTH(32)"
  then have n: "n < 32" by simp
  consider "n < 8" | "8 \<le> n" "n < 16" | "16 \<le> n" "n < 24" | "24 \<le> n"
    by linarith
  then show "bit (ucast (ucast v :: byte) OR push_bit 8 (ucast (ucast (drop_bit 8 v) :: byte))
       OR push_bit 16 (ucast (ucast (drop_bit 16 v) :: byte))
       OR push_bit 24 (ucast (ucast (drop_bit 24 v) :: byte)) :: uint32) n = bit v n"
    using n by cases (auto simp: bit_simps)
qed

lemma zero_header:
  "replicate 44 (0::byte) =
     [0,0,0,0, 0,0,0,0, 0,0,0,0, 0,0,0,0, 0,0,0,0, 0,0,0,0, 0,0,0,0, 0,0,0,0,
      0,0,0,0, 0,0,0,0, 0,0,0,0]"
  by (simp add: numeral_eq_Suc)

lemmas tag_defs = tag_RIFF_def tag_WAVE_def tag_fmt_def tag_data_def

text \<open>The header, field by field, as the table of the container format lists it.\<close>

lemma wav_header_eq:
  "wav_header ns =
     tag_RIFF @ le32 (36 + ns * 4) @ tag_WAVE @ tag_fmt @ le32 16 @ le16 1 @ le16 2
       @ le32 44100 @ le32 176400 @ le16 4 @ le16 16 @ tag_data @ le32 (ns * 4)"
  unfolding wav_header_def Let_def WAV_HEADER_SIZE_def zero_header block_align_eq
  by (simp add: memcpy_def write_le16_def write_le32_def le16_def le32_def
      ucast_and_ff32 ucast_and_ff16 tag_defs WAV_SUBCHUNK1_PCM_def WAV_FORMAT_PCM_def
      num_channels_def bits_per_sample_def sample_rate_def)

lemma length_wav_header [simp]: "length (wav_header ns) = 44"
  by (simp add: wav_header_eq le16_def le32_def tag_defs)

lemma subchunk2_field: "read_le32 (wav_header ns @ bs) 40 = ns * 4"
  by (simp add: wav_header_eq read_le32_def le16_def le32_def tag_defs bytes_to_word32)

lemma chunk_field: "read_le32 (wav_header ns @ bs) 4 = 36 + ns * 4"
  by (simp add: wav_header_eq read_le32_def le16_def le32_def tag_defs bytes_to_word32)

lemma write_wav_header_open:
  assumes "fd_slot (fdtab w) fd = To_file d" "files w (ofd_name d) = Some c"
  shows "files (write_wav_header w fd ns) = (files w)(ofd_name d \<mapsto> wav_header ns @ drop 44 c)"
    and "fd_slot (fdtab (write_wav_header w fd ns)) fd' =
           (if fd' = fd then To_file (d\<lparr>ofd_pos := 44\<rparr>) else fd_slot (fdtab w) fd')"
    and "stream_out (write_wav_header w fd ns) = stream_out w"
proof -
  let ?w1 = "sys_lseek w fd SEEK_SET 0"
  have l: "fd_slot (fdtab ?w1) fd = To_file (d\<lparr>ofd_pos := 0\<rparr>)"
    using sys_lseek_start [OF assms(1), of fd] by simp
  have f: "files ?w1 (ofd_name (d\<lparr>ofd_pos := 0\<rparr>)) = Some c"
    using assms(2) by simp
  note wr = sys_write_open [OF l f]
  show "files (write_wav_header w fd ns) = (files w)(ofd_name d \<mapsto> wav_header ns @ drop 44 c)"
    using wr(1) by (simp add: write_wav_header_def WAV_HEADER_SIZE_def write_at_0)
  show "fd_slot (fdtab (write_wav_header w fd ns)) fd' =
           (if fd' = fd then To_file (d\<lparr>ofd_pos := 44\<rparr>) else fd_slot (fdtab w) fd')"
    using wr(2) [of _ fd'] sys_lseek_start [OF assms(1), of fd']
    by (simp add: write_wav_header_def WAV_HEADER_SIZE_def)
  show "stream_out (write_wav_header w fd ns) = stream_out w"
    using wr(3) by (simp add: write_wav_header_def)
qed

lemma write_wav_header_other [simp]:
  "open_fault (write_wav_header w fd ns) = open_fault w"
  by (simp add: write_wav_header_def)

lemma write_wav_header_slot_other:
  "fd' \<noteq> fd \<Longrightarrow>
   fd_slot (fdtab (write_wav_header w fd ns)) fd' = fd_slot (fdtab w) fd'"
proof -
  assume ne: "fd' \<noteq> fd"
  have "fd_slot (fdtab (sys_lseek w fd SEEK_SET 0)) fd' = fd_slot (fdtab w) fd'"
  proof (cases "fd_slot (fdtab w) fd")
    case (To_file d)
    from sys_lseek_start [OF this, of fd'] ne show ?thesis by simp
  qed (simp_all add: sys_lseek_def)
  with ne show ?thesis
    by (simp add: write_wav_header_def sys_write_slot_other)
qed

section \<open>Facts about track detection and reading\<close>

lemma is_track_start_from_iff:
  "is_track_start_from b i \<longleftrightarrow>
     (\<forall>j. i \<le> j \<and> j < BLOCK_SIZE \<longrightarrow> (b ! j) AND SUBCODE_P \<noteq> 0)"
proof (induction b i rule: is_track_start_from.induct)
  case (1 b i)
  show ?case
  proof (cases "i < BLOCK_SIZE")
    case False
    then show ?thesis by (auto simp: is_track_start_from.simps [of b i])
  next
    case True
    note lt = this
    show ?thesis
    proof (cases "(b ! i) AND SUBCODE_P = 0")
      case True
      with lt show ?thesis
        by (auto simp: is_track_start_from.simps [of b i])
    next
      case False
      have "(\<forall>j. i \<le> j \<and> j < BLOCK_SIZE \<longrightarrow> (b ! j) AND SUBCODE_P \<noteq> 0)
             \<longleftrightarrow> (\<forall>j. Suc i \<le> j \<and> j < BLOCK_SIZE \<longrightarrow> (b ! j) AND SUBCODE_P \<noteq> 0)"
        using False by (metis Suc_leI le_neq_implies_less Suc_leD)
      with lt False "1.IH" show ?thesis
        by (simp add: is_track_start_from.simps [of b i])
    qed
  qed
qed

lemma is_track_start_iff:
  "is_track_start b \<longleftrightarrow>
     (\<forall>j. DATA_SIZE \<le> j \<and> j < BLOCK_SIZE \<longrightarrow> (b ! j) AND SUBCODE_P \<noteq> 0)"
  by (simp add: is_track_start_def is_track_start_from_iff)

lemma sys_read_full:
  "length s = BLOCK_SIZE \<Longrightarrow> length b \<le> BLOCK_SIZE \<Longrightarrow>
   sys_read b (Read_data s) = (int BLOCK_SIZE, s)"
  by (simp add: sys_read_def)

lemma length_mark_sector [simp]: "length mark_sector = BLOCK_SIZE"
  by (simp add: mark_sector_def BLOCK_SIZE_def)

lemma length_plain_sector [simp]: "length plain_sector = BLOCK_SIZE"
  by (simp add: plain_sector_def BLOCK_SIZE_def)

lemma mark_sector_start [simp]: "is_track_start mark_sector"
  by (auto simp: is_track_start_iff mark_sector_def nth_append BLOCK_SIZE_def SUBCODE_P_def)

lemma plain_sector_start [simp]: "\<not> is_track_start plain_sector"
proof -
  have "plain_sector ! DATA_SIZE AND SUBCODE_P = 0"
    by (simp add: plain_sector_def nth_append SUBCODE_SIZE_def)
  then show ?thesis
    unfolding is_track_start_iff
    by (metis BLOCK_SIZE_def SUBCODE_SIZE_def le_refl less_add_same_cancel1 zero_less_numeral)
qed


section \<open>What the system calls leave alone\<close>

lemma fd_file_target:
  "fd_file w fd = (case fd_target w fd of To_file d \<Rightarrow> Some (ofd_name d) | _ \<Rightarrow> None)"
  by (simp add: fd_file_def fd_target_def split: slot.splits)

lemma fd_target_free: "fd_target w fd = Free \<longleftrightarrow> fd_slot (fdtab w) fd = Free"
  by (simp add: fd_target_def split: slot.splits)


lemma fd_target_neg [simp]: "fd_target w INVALID_FD = Free"
  by (simp add: fd_target_def INVALID_FD_def fd_slot_neg)

lemma fd_file_neg [simp]: "fd_file w INVALID_FD = None"
  by (simp add: fd_file_target)

lemma sys_write_fd_target [simp]: "fd_target (sys_write w fd bs) fd' = fd_target w fd'"
proof (cases "fd' = fd")
  case False
  then show ?thesis by (simp add: fd_target_def sys_write_slot_other)
next
  case True
  show ?thesis
  proof (cases "fd_slot (fdtab w) fd")
    case Free
    then show ?thesis by (simp add: sys_write_def)
  next
    case (To_stream i)
    then show ?thesis by (simp add: fd_target_def sys_write_def)
  next
    case (To_file d)
    show ?thesis
    proof (cases "files w (ofd_name d)")
      case None
      with To_file show ?thesis by (simp add: sys_write_def)
    next
      case (Some c)
      from sys_write_open(2) [OF To_file Some, of bs fd'] To_file True
      show ?thesis by (simp add: fd_target_def)
    qed
  qed
qed

lemma sys_lseek_fd_target [simp]: "fd_target (sys_lseek w fd off wh) fd' = fd_target w fd'"
proof (cases "fd_slot (fdtab w) fd")
  case Free
  then show ?thesis by (simp add: sys_lseek_def)
next
  case (To_stream i)
  then show ?thesis by (simp add: sys_lseek_def)
next
  case (To_file d)
  have "fd_slot (fdtab w) fd \<noteq> Free" using To_file by simp
  from fd_slot_nat [OF this] To_file show ?thesis
    by (auto simp: sys_lseek_def fd_target_def Let_def fd_slot_fd_set split: option.splits)
qed

lemma sys_close_fd_target:
  "fd_target (sys_close w fd) fd' = (if fd' = fd then Free else fd_target w fd')"
  by (simp add: fd_target_def sys_close_slot)

lemma write_wav_header_fd_target [simp]:
  "fd_target (write_wav_header w fd ns) fd' = fd_target w fd'"
  by (simp add: write_wav_header_def)

lemma fprintf_stderr_fd_target [simp]: "fd_target (fprintf_stderr w s) fd = fd_target w fd"
  by (simp add: fprintf_stderr_def)

lemma sys_write_fd_file [simp]: "fd_file (sys_write w fd bs) fd' = fd_file w fd'"
  by (simp add: fd_file_target)

lemma sys_lseek_fd_file [simp]: "fd_file (sys_lseek w fd off wh) fd' = fd_file w fd'"
  by (simp add: fd_file_target)

lemma sys_close_fd_file:
  "fd_file (sys_close w fd) fd' = (if fd' = fd then None else fd_file w fd')"
  by (simp add: fd_file_target sys_close_fd_target)

lemma write_wav_header_fd_file [simp]:
  "fd_file (write_wav_header w fd ns) fd' = fd_file w fd'"
  by (simp add: fd_file_target)

lemma fprintf_stderr_fd_file [simp]: "fd_file (fprintf_stderr w s) fd = fd_file w fd"
  by (simp add: fd_file_target)

text \<open>A write changes no file but the one that the descriptor is open on.\<close>

lemma sys_write_frame:
  "fd_file w fd \<noteq> Some nm \<Longrightarrow> files (sys_write w fd bs) nm = files w nm"
  by (auto simp: sys_write_def fd_file_def split: option.splits slot.splits)

lemma write_wav_header_frame:
  "fd_file w fd \<noteq> Some nm \<Longrightarrow> files (write_wav_header w fd ns) nm = files w nm"
  by (simp add: write_wav_header_def sys_write_frame)

lemma fprintf_stderr_frame:
  "fd_file w STDERR_FILENO \<noteq> Some nm \<Longrightarrow> files (fprintf_stderr w s) nm = files w nm"
  by (simp add: fprintf_stderr_def sys_write_frame)

lemma sys_write_dom [simp]: "dom (files (sys_write w fd bs)) = dom (files w)"
  by (auto simp: sys_write_def split: option.splits slot.splits)

lemma write_wav_header_dom [simp]: "dom (files (write_wav_header w fd ns)) = dom (files w)"
  by (simp add: write_wav_header_def)

lemma fprintf_stderr_dom [simp]: "dom (files (fprintf_stderr w s)) = dom (files w)"
  by (simp add: fprintf_stderr_def)

text \<open>A write on a descriptor that is open on a regular file reaches no stream.\<close>

lemma sys_write_file_stream_out:
  "fd_slot (fdtab w) fd = To_file d \<Longrightarrow> stream_out (sys_write w fd bs) = stream_out w"
  by (simp add: sys_write_def split: option.splits)



lemma sys_close_free: "fd_slot (fdtab w) fd = Free \<Longrightarrow> sys_close w fd = w"
  by (simp add: sys_close_def)

section \<open>The concrete worlds\<close>

lemma fresh_world_simps [simp]:
  "files fresh_world = Map.empty"
  "open_fault fresh_world = Map.empty"
  "stream_out fresh_world = (\<lambda>i. [])"
  "fd_alloc (fdtab fresh_world) = 3"
  "fd_slot (fdtab fresh_world) STDERR_FILENO = To_stream ''stderr''"
  "fd_file fresh_world STDERR_FILENO = None"
  "stderr_apart fresh_world nm"
  by (simp_all add: fresh_world_def fd_slot_def STDERR_FILENO_def fd_file_def stderr_apart_def
      numeral_3_eq_3)

lemma no_stderr_world_simps [simp]:
  "files no_stderr_world = Map.empty"
  "open_fault no_stderr_world = Map.empty"
  "stream_out no_stderr_world = (\<lambda>i. [])"
  "fd_alloc (fdtab no_stderr_world) = 2"
  "fd_slot (fdtab no_stderr_world) STDERR_FILENO = Free"
  by (simp_all add: no_stderr_world_def fd_slot_def STDERR_FILENO_def numeral_2_eq_2)

text \<open>Changing the files of a world changes nothing about its descriptors.\<close>

lemma files_update_simps [simp]:
  "fd_file (w\<lparr>files := f\<rparr>) fd = fd_file w fd"
  "fd_target (w\<lparr>files := f\<rparr>) fd = fd_target w fd"
  "stderr_apart (w\<lparr>files := f\<rparr>) nm = stderr_apart w nm"
  by (simp_all add: fd_file_def fd_target_def stderr_apart_def)

section \<open>Two sectors that start no track\<close>

lemma length_tail_sector [simp]: "length tail_sector = BLOCK_SIZE"
  by (simp add: tail_sector_def BLOCK_SIZE_def DATA_SIZE_def SUBCODE_SIZE_def)

lemma length_head_sector [simp]: "length head_sector = BLOCK_SIZE"
  by (simp add: head_sector_def BLOCK_SIZE_def DATA_SIZE_def SUBCODE_SIZE_def)

lemma tail_sector_start [simp]: "\<not> is_track_start tail_sector"
proof -
  have "tail_sector ! DATA_SIZE AND SUBCODE_P = 0"
    by (simp add: tail_sector_def nth_append)
  moreover have "DATA_SIZE \<le> DATA_SIZE \<and> DATA_SIZE < BLOCK_SIZE"
    by (simp add: BLOCK_SIZE_def SUBCODE_SIZE_def)
  ultimately show ?thesis
    unfolding is_track_start_iff by blast
qed

lemma head_sector_start [simp]: "\<not> is_track_start head_sector"
proof -
  have "head_sector ! Suc DATA_SIZE AND SUBCODE_P = 0"
    by (simp add: head_sector_def nth_append)
  moreover have "DATA_SIZE \<le> Suc DATA_SIZE \<and> Suc DATA_SIZE < BLOCK_SIZE"
    by (simp add: BLOCK_SIZE_def SUBCODE_SIZE_def)
  ultimately show ?thesis
    unfolding is_track_start_iff by blast
qed

text \<open>
  The buffer when \<open>tail_sector\<close> has been read in full and then the first 2353 bytes of
  \<open>head_sector\<close>: the payload and the first subcode byte of \<open>head_sector\<close>, and the other
  subcode bytes of \<open>tail_sector\<close>. All its subcode bytes have the P bit set.
\<close>

lemma head_on_tail:
  "take 2353 head_sector @ drop 2353 tail_sector
     = replicate DATA_SIZE 0x33 @ 0x80 # replicate 95 0x80"
  by (simp add: head_sector_def tail_sector_def DATA_SIZE_def)

lemma head_on_tail_start: "is_track_start (replicate DATA_SIZE 0x33 @ 0x80 # replicate 95 0x80)"
  by (auto simp: is_track_start_iff nth_append nth_Cons' BLOCK_SIZE_def SUBCODE_SIZE_def
      SUBCODE_P_def)

lemma head_on_tail_payload:
  "payload (replicate DATA_SIZE 0x33 @ 0x80 # replicate 95 0x80) = payload head_sector"
  by (simp add: payload_def head_sector_def)

section \<open>What the track operations do\<close>

lemma update_track_closed: "track_fd st = INVALID_FD \<Longrightarrow> update_track st w = (st, w)"
  by (simp add: update_track_def)

lemma update_track_open:
  "track_fd st \<noteq> INVALID_FD \<Longrightarrow>
   update_track st w =
     (st\<lparr>num_samples := num_samples st + 588\<rparr>, sys_write w (track_fd st) (payload (buf st)))"
  by (simp add: update_track_def samples_per_sector payload_def)

lemma close_track_closed: "track_fd st = INVALID_FD \<Longrightarrow> close_track st w = (st, w)"
  by (simp add: close_track_def)

lemma close_track_open:
  "track_fd st \<noteq> INVALID_FD \<Longrightarrow>
   close_track st w =
     (st\<lparr>end_offset := offset st\<rparr>,
      sys_close
        (write_wav_header (fprintf_stderr w (close_line st)) (track_fd st) (num_samples st))
        (track_fd st))"
  by (simp add: close_track_def Let_def byte_rate_eq close_line_def diag_line_def
      duration_of_def fmt_llu_def DATA_SIZE_def BLOCK_SIZE_eq)

lemma close_line_irrelevant [simp]:
  "close_line (st\<lparr>buf := b\<rparr>) = close_line st"
  "close_line (st\<lparr>track_number := n\<rparr>) = close_line st"
  "close_line (st\<lparr>end_offset := y\<rparr>) = close_line st"
  "close_line (st\<lparr>num_samples := z\<rparr>) = close_line st"
  "close_line (st\<lparr>track_fd := fd\<rparr>) = close_line st"
  by (simp_all add: close_line_def)

lemma close_track_fd [simp]: "track_fd (fst (close_track st w)) = track_fd st"
  by (simp add: close_track_def Let_def)

lemma start_track_fault:
  assumes "open_fault w (track_file_name (track_number st)) = Some e"
  shows "start_track st w =
     (False,
      st\<lparr>num_samples := 0, start_offset := offset st,
         output_file_name := track_file_name (track_number st), track_fd := - 1\<rparr>,
      fprintf_stderr w
        (if e = EEXIST then exists_line (track_file_name (track_number st))
         else error_line (track_file_name (track_number st)) e))"
  using assms
  by (simp add: start_track_def sys_open_def Let_def exists_line_def error_line_def)

lemma start_track_exists:
  assumes "open_fault w (track_file_name (track_number st)) = None"
    and "files w (track_file_name (track_number st)) = Some c"
  shows "start_track st w =
     (False,
      st\<lparr>num_samples := 0, start_offset := offset st,
         output_file_name := track_file_name (track_number st), track_fd := - 1\<rparr>,
      fprintf_stderr w (exists_line (track_file_name (track_number st))))"
  using assms
  by (simp add: start_track_def sys_open_def Let_def exists_line_def)

lemma start_track_ok:
  assumes "open_fault w (track_file_name (track_number st)) = None"
    and "files w (track_file_name (track_number st)) = None"
  shows "start_track st w =
     (True,
      st\<lparr>num_samples := 0, start_offset := offset st,
         output_file_name := track_file_name (track_number st),
         track_fd := int (fd_alloc (fdtab w))\<rparr>,
      write_wav_header
        (w\<lparr>files := (files w)(track_file_name (track_number st) \<mapsto> []),
           fdtab := fd_set (fdtab w) (fd_alloc (fdtab w))
                      (To_file \<lparr>ofd_name = track_file_name (track_number st), ofd_pos = 0\<rparr>)\<rparr>)
        (int (fd_alloc (fdtab w))) 0)"
  using assms
  by (simp add: start_track_def sys_open_def Let_def)

text \<open>Whatever the outcome, \<open>start_track\<close> is one of the three cases above.\<close>

lemma start_track_cases:
  obtains (fault) e where "open_fault w (track_file_name (track_number st)) = Some e"
  | (exists) c where "open_fault w (track_file_name (track_number st)) = None"
      "files w (track_file_name (track_number st)) = Some c"
  | (ok) "open_fault w (track_file_name (track_number st)) = None"
      "files w (track_file_name (track_number st)) = None"
  by (cases "open_fault w (track_file_name (track_number st))";
      cases "files w (track_file_name (track_number st))") auto

lemma start_track_failed_fd:
  "start_track st w = (False, st', w') \<Longrightarrow> track_fd st' = INVALID_FD"
  by (cases rule: start_track_cases [of w st])
     (auto simp: start_track_fault start_track_exists start_track_ok INVALID_FD_def)

text \<open>A failed \<open>start_track\<close> does nothing to the world but print one line.\<close>

lemma start_track_failed_world:
  "start_track st w = (False, st', w') \<Longrightarrow>
   \<exists>e. w' = fprintf_stderr w
          (if e = EEXIST then exists_line (output_file_name st')
           else error_line (output_file_name st') e)"
proof (cases rule: start_track_cases [of w st])
  case (fault e)
  assume "start_track st w = (False, st', w')"
  with start_track_fault [OF fault] show ?thesis by auto
next
  case (exists c)
  assume "start_track st w = (False, st', w')"
  with start_track_exists [OF exists]
  have "w' = fprintf_stderr w
          (if EEXIST = EEXIST then exists_line (output_file_name st')
           else error_line (output_file_name st') EEXIST)"
    by auto
  then show ?thesis by (rule exI)
next
  case ok
  assume "start_track st w = (False, st', w')"
  with start_track_ok [OF ok] show ?thesis by simp
qed

text \<open>After a successful \<open>start_track\<close> the new file holds the placeholder header.\<close>

lemma start_track_ok_world:
  assumes "open_fault w (track_file_name (track_number st)) = None"
    and "files w (track_file_name (track_number st)) = None"
    and "start_track st w = (ok, st', w')"
  shows "ok"
    and "st' = st\<lparr>num_samples := 0, start_offset := offset st,
                   output_file_name := track_file_name (track_number st),
                   track_fd := int (fd_alloc (fdtab w))\<rparr>"
    and "files w' = (files w)(track_file_name (track_number st) \<mapsto> wav_header 0)"
    and "fd_slot (fdtab w') fd' =
           (if fd' = int (fd_alloc (fdtab w))
            then To_file \<lparr>ofd_name = track_file_name (track_number st), ofd_pos = 44\<rparr>
            else fd_slot (fdtab w) fd')"
    and "stream_out w' = stream_out w"
    and "open_fault w' = open_fault w"
proof -
  let ?nm = "track_file_name (track_number st)"
  let ?fd = "int (fd_alloc (fdtab w))"
  let ?w1 = "w\<lparr>files := (files w)(?nm \<mapsto> []),
               fdtab := fd_set (fdtab w) (fd_alloc (fdtab w))
                          (To_file \<lparr>ofd_name = ?nm, ofd_pos = 0\<rparr>)\<rparr>"
  from assms start_track_ok [OF assms(1,2)]
  have r: "ok" "st' = st\<lparr>num_samples := 0, start_offset := offset st,
                   output_file_name := ?nm, track_fd := ?fd\<rparr>"
    "w' = write_wav_header ?w1 ?fd 0"
    by simp_all
  show "ok" by (rule r(1))
  show "st' = st\<lparr>num_samples := 0, start_offset := offset st,
                   output_file_name := ?nm, track_fd := ?fd\<rparr>" by (rule r(2))
  have l: "fd_slot (fdtab ?w1) ?fd = To_file \<lparr>ofd_name = ?nm, ofd_pos = 0\<rparr>"
    by (simp add: fd_slot_fd_set)
  have f: "files ?w1 (ofd_name \<lparr>ofd_name = ?nm, ofd_pos = 0\<rparr>) = Some []"
    by simp
  note h = write_wav_header_open [OF l f]
  show "files w' = (files w)(?nm \<mapsto> wav_header 0)"
    using h(1) [of 0] r(3) by simp
  show "fd_slot (fdtab w') fd' =
           (if fd' = ?fd then To_file \<lparr>ofd_name = ?nm, ofd_pos = 44\<rparr>
            else fd_slot (fdtab w) fd')"
    using h(2) [of 0 fd'] r(3) by (simp add: fd_slot_fd_set)
  show "stream_out w' = stream_out w" using h(3) [of 0] r(3) by simp
  show "open_fault w' = open_fault w" using r(3) by simp
qed

section \<open>What one pass of the loop does on a full sector\<close>

lemma loop_body_stop:
  "r = Read_failed \<or> r = Read_data [] \<Longrightarrow> loop_body st w r = (Some End_of_input, st, w)"
  by (auto simp: loop_body_def sys_read_def)

lemma loop_body_read_plain:
  assumes "sys_read (buf st) r = (count, s)" "0 < count" "\<not> is_track_start s"
  shows "loop_body st w r =
     (case update_track (st\<lparr>buf := s\<rparr>) w of
        (st', w') \<Rightarrow> (None, st'\<lparr>offset := offset st' + 2448\<rparr>, w'))"
  using assms by (simp add: loop_body_def BLOCK_SIZE_eq)

lemma loop_body_read_mark:
  assumes "sys_read (buf st) r = (count, s)" "0 < count" "is_track_start s"
  shows "loop_body st w r =
     (case close_track (st\<lparr>buf := s, track_number := track_number st + 1\<rparr>) w of
        (st1, w1) \<Rightarrow>
          (case start_track st1 w1 of
             (ok, st2, w2) \<Rightarrow>
               (if ok
                then (case update_track st2 w2 of
                        (st', w') \<Rightarrow> (None, st'\<lparr>offset := offset st' + 2448\<rparr>, w'))
                else (Some Open_failed, st2, w2))))"
  using assms
  by (simp add: loop_body_def BLOCK_SIZE_eq split: prod.splits)

lemma loop_body_plain:
  assumes "length (buf st) \<le> BLOCK_SIZE" "length s = BLOCK_SIZE" "\<not> is_track_start s"
  shows "loop_body st w (Read_data s) =
     (case update_track (st\<lparr>buf := s\<rparr>) w of
        (st', w') \<Rightarrow> (None, st'\<lparr>offset := offset st' + 2448\<rparr>, w'))"
  using assms
  by (intro loop_body_read_plain [where count = "int BLOCK_SIZE"])
     (simp_all add: sys_read_full BLOCK_SIZE_eq)

lemma loop_body_mark:
  assumes "length (buf st) \<le> BLOCK_SIZE" "length s = BLOCK_SIZE" "is_track_start s"
  shows "loop_body st w (Read_data s) =
     (case close_track (st\<lparr>buf := s, track_number := track_number st + 1\<rparr>) w of
        (st1, w1) \<Rightarrow>
          (case start_track st1 w1 of
             (ok, st2, w2) \<Rightarrow>
               (if ok
                then (case update_track st2 w2 of
                        (st', w') \<Rightarrow> (None, st'\<lparr>offset := offset st' + 2448\<rparr>, w'))
                else (Some Open_failed, st2, w2))))"
  using assms
  by (intro loop_body_read_mark [where count = "int BLOCK_SIZE"])
     (simp_all add: sys_read_full BLOCK_SIZE_eq)


section \<open>Facts about the whole loop\<close>

lemma main_loop_cut:
  "r = Read_failed \<or> r = Read_data [] \<Longrightarrow> main_loop st w (xs @ r # rs) = main_loop st w xs"
proof (induction xs arbitrary: st w)
  case Nil
  then show ?case by (simp add: loop_body_stop)
next
  case (Cons x xs)
  then show ?case by (simp split: prod.splits option.splits)
qed

lemma loop_body_failed_fd:
  "loop_body st w r = (Some Open_failed, st', w') \<Longrightarrow> track_fd st' = INVALID_FD"
  by (auto simp: loop_body_def Let_def split: prod.splits if_splits
      dest: start_track_failed_fd)

lemma main_loop_failed_fd:
  "main_loop st w rs = (Open_failed, st', w') \<Longrightarrow> track_fd st' = INVALID_FD"
proof (induction rs arbitrary: st w)
  case Nil
  then show ?case by simp
next
  case (Cons r rs)
  obtain ex st1 w1 where b: "loop_body st w r = (ex, st1, w1)"
    by (cases "loop_body st w r") auto
  show ?case
  proof (cases ex)
    case None
    with Cons b show ?thesis by simp
  next
    case (Some e)
    with Cons.prems b have "e = Open_failed" "st1 = st'" "w1 = w'" by simp_all
    with b Some show ?thesis by (auto dest: loop_body_failed_fd)
  qed
qed

lemma main_after_loop:
  "main_loop initial_state w rs = (ex, st, w') \<Longrightarrow> main w rs = (0, snd (close_track st w'))"
  by (simp add: main_def split: prod.splits)

lemma initial_state_simps [simp]:
  "buf initial_state = replicate BLOCK_SIZE 0"
  "output_file_name initial_state = []"
  "start_offset initial_state = 0"
  "end_offset initial_state = 0"
  "offset initial_state = 0"
  "track_fd initial_state = INVALID_FD"
  "track_number initial_state = 0"
  "num_samples initial_state = 0"
  by (simp_all add: initial_state_def)

lemma track_file_name_1 [simp]: "track_file_name 1 = ''track_01.wav''"
  by (simp add: track_file_name_def fmt_02u_def dec.simps digit_def)

lemma track_file_name_2 [simp]: "track_file_name 2 = ''track_02.wav''"
  by (simp add: track_file_name_def fmt_02u_def dec.simps digit_def)


section \<open>Runs of sectors that start no track\<close>

lemma main_loop_skip:
  assumes "track_fd st = INVALID_FD" "length (buf st) \<le> BLOCK_SIZE"
    and "\<forall>s\<in>set secs. length s = BLOCK_SIZE \<and> \<not> is_track_start s"
  shows "main_loop st w (map Read_data secs @ rs) =
     main_loop (st\<lparr>buf := last (buf st # secs),
                   offset := offset st + 2448 * word_of_nat (length secs)\<rparr>) w rs"
  using assms
proof (induction secs arbitrary: st)
  case Nil
  then show ?case by simp
next
  case (Cons s secs)
  let ?st1 = "st\<lparr>buf := s, offset := offset st + 2448\<rparr>"
  have b: "loop_body st w (Read_data s) = (None, ?st1, w)"
    using Cons.prems by (simp add: loop_body_plain update_track_closed)
  have "main_loop ?st1 w (map Read_data secs @ rs) =
     main_loop (?st1\<lparr>buf := last (buf ?st1 # secs),
                     offset := offset ?st1 + 2448 * word_of_nat (length secs)\<rparr>) w rs"
    using Cons.prems by (intro Cons.IH) simp_all
  with b show ?case by (simp add: algebra_simps)
qed

text \<open>The writes that a run of sectors makes on the descriptor \<open>fd\<close>.\<close>

lemma main_loop_fill:
  assumes "track_fd st \<noteq> INVALID_FD" "length (buf st) \<le> BLOCK_SIZE"
    and "\<forall>s\<in>set secs. length s = BLOCK_SIZE \<and> \<not> is_track_start s"
  shows "main_loop st w (map Read_data secs @ rs) =
     main_loop (st\<lparr>buf := last (buf st # secs),
                   num_samples := num_samples st + 588 * word_of_nat (length secs),
                   offset := offset st + 2448 * word_of_nat (length secs)\<rparr>)
       (foldl (\<lambda>w s. sys_write w (track_fd st) (payload s)) w secs) rs"
  using assms
proof (induction secs arbitrary: st w)
  case Nil
  then show ?case by simp
next
  case (Cons s secs)
  let ?st1 = "st\<lparr>buf := s, num_samples := num_samples st + 588, offset := offset st + 2448\<rparr>"
  let ?w1 = "sys_write w (track_fd st) (payload s)"
  have b: "loop_body st w (Read_data s) = (None, ?st1, ?w1)"
    using Cons.prems by (simp add: loop_body_plain update_track_open)
  have "main_loop ?st1 ?w1 (map Read_data secs @ rs) =
     main_loop (?st1\<lparr>buf := last (buf ?st1 # secs),
                     num_samples := num_samples ?st1 + 588 * word_of_nat (length secs),
                     offset := offset ?st1 + 2448 * word_of_nat (length secs)\<rparr>)
       (foldl (\<lambda>w s. sys_write w (track_fd ?st1) (payload s)) ?w1 secs) rs"
    using Cons.prems by (intro Cons.IH) simp_all
  with b show ?case by (simp add: algebra_simps)
qed

lemma length_payload: "length s = BLOCK_SIZE \<Longrightarrow> length (payload s) = DATA_SIZE"
  by (simp add: payload_def BLOCK_SIZE_def)

lemma write_payload_step:
  assumes l: "fd_slot (fdtab w) fd = To_file \<lparr>ofd_name = nm, ofd_pos = length c\<rparr>"
    and f: "files w nm = Some c"
  shows "fd_slot (fdtab (sys_write w fd bs)) fd' =
           (if fd' = fd then To_file \<lparr>ofd_name = nm, ofd_pos = length (c @ bs)\<rparr>
            else fd_slot (fdtab w) fd')"
    and "files (sys_write w fd bs) = (files w)(nm \<mapsto> c @ bs)"
proof -
  have f': "files w (ofd_name \<lparr>ofd_name = nm, ofd_pos = length c\<rparr>) = Some c"
    using f by simp
  show "fd_slot (fdtab (sys_write w fd bs)) fd' =
           (if fd' = fd then To_file \<lparr>ofd_name = nm, ofd_pos = length (c @ bs)\<rparr>
            else fd_slot (fdtab w) fd')"
    using sys_write_open(2) [OF l f', of bs fd'] by simp
  show "files (sys_write w fd bs) = (files w)(nm \<mapsto> c @ bs)"
    using sys_write_open(1) [OF l f', of bs] by (simp add: write_at_end)
qed

lemma fill_world:
  assumes "fd_slot (fdtab w) fd = To_file \<lparr>ofd_name = nm, ofd_pos = length c\<rparr>"
    and "files w nm = Some c"
  shows "files (foldl (\<lambda>w s. sys_write w fd (payload s)) w secs)
           = (files w)(nm \<mapsto> c @ concat (map payload secs))"
    and "fd_slot (fdtab (foldl (\<lambda>w s. sys_write w fd (payload s)) w secs)) fd' =
           (if fd' = fd
            then To_file \<lparr>ofd_name = nm, ofd_pos = length (c @ concat (map payload secs))\<rparr>
            else fd_slot (fdtab w) fd')"
    and "stream_out (foldl (\<lambda>w s. sys_write w fd (payload s)) w secs) = stream_out w"
    and "open_fault (foldl (\<lambda>w s. sys_write w fd (payload s)) w secs) = open_fault w"
  using assms
proof (induction secs arbitrary: w c)
  case Nil
  {
    case 1 then show ?case by (auto simp: fun_eq_iff)
  next
    case 2 then show ?case by simp
  next
    case 3 then show ?case by simp
  next
    case 4 then show ?case by simp
  }
next
  case (Cons s secs)
  {
    case 1
    let ?w1 = "sys_write w fd (payload s)"
    have l1: "fd_slot (fdtab ?w1) fd = To_file \<lparr>ofd_name = nm, ofd_pos = length (c @ payload s)\<rparr>"
      using write_payload_step(1) [OF 1, of "payload s" fd] by simp
    have fe: "files ?w1 = (files w)(nm \<mapsto> c @ payload s)"
      by (rule write_payload_step(2) [OF 1])
    then have f1: "files ?w1 nm = Some (c @ payload s)" by simp
    from Cons.IH(1) [OF l1 f1] fe show ?case by (simp add: fun_eq_iff)
  next
    case 2
    let ?w1 = "sys_write w fd (payload s)"
    have l1: "fd_slot (fdtab ?w1) fd = To_file \<lparr>ofd_name = nm, ofd_pos = length (c @ payload s)\<rparr>"
      using write_payload_step(1) [OF 2, of "payload s" fd] by simp
    have fe: "files ?w1 = (files w)(nm \<mapsto> c @ payload s)"
      by (rule write_payload_step(2) [OF 2])
    then have f1: "files ?w1 nm = Some (c @ payload s)" by simp
    from Cons.IH(2) [OF l1 f1] write_payload_step(1) [OF 2, of "payload s" fd']
    show ?case by simp
  next
    case 3
    let ?w1 = "sys_write w fd (payload s)"
    have l1: "fd_slot (fdtab ?w1) fd = To_file \<lparr>ofd_name = nm, ofd_pos = length (c @ payload s)\<rparr>"
      using write_payload_step(1) [OF 3, of "payload s" fd] by simp
    have fe: "files ?w1 = (files w)(nm \<mapsto> c @ payload s)"
      by (rule write_payload_step(2) [OF 3])
    then have f1: "files ?w1 nm = Some (c @ payload s)" by simp
    have "stream_out ?w1 = stream_out w"
      using sys_write_open(3) [where d = "\<lparr>ofd_name = nm, ofd_pos = length c\<rparr>" and c = c] 3
      by simp
    with Cons.IH(3) [OF l1 f1] show ?case by simp
  next
    case 4
    let ?w1 = "sys_write w fd (payload s)"
    have l1: "fd_slot (fdtab ?w1) fd = To_file \<lparr>ofd_name = nm, ofd_pos = length (c @ payload s)\<rparr>"
      using write_payload_step(1) [OF 4, of "payload s" fd] by simp
    have fe: "files ?w1 = (files w)(nm \<mapsto> c @ payload s)"
      by (rule write_payload_step(2) [OF 4])
    then have f1: "files ?w1 nm = Some (c @ payload s)" by simp
    from Cons.IH(4) [OF l1 f1] show ?case by simp
  }
qed


section \<open>The operations on an open track file\<close>

lemma session_irrelevant [simp]:
  "session (st\<lparr>buf := b\<rparr>) w nm c = session st w nm c"
  "session (st\<lparr>track_number := n\<rparr>) w nm c = session st w nm c"
  "session (st\<lparr>offset := x\<rparr>) w nm c = session st w nm c"
  "session (st\<lparr>end_offset := y\<rparr>) w nm c = session st w nm c"
  "session (st\<lparr>num_samples := z\<rparr>) w nm c = session st w nm c"
  "session (st\<lparr>start_offset := x\<rparr>) w nm c = session st w nm c"
  by (simp_all add: session_def)

text \<open>
  While standard error is not open on the track file, the descriptor of the track is
  not descriptor 2, and a line printed on standard error does not touch the track file.
\<close>

lemma session_fd_not_stderr:
  assumes "session st w nm c" "fd_file w STDERR_FILENO \<noteq> Some nm"
  shows "track_fd st \<noteq> STDERR_FILENO"
  using assms by (auto simp: session_def fd_file_def)

lemma session_fprintf:
  assumes "session st w nm c" "fd_file w STDERR_FILENO \<noteq> Some nm"
  shows "session st (fprintf_stderr w s) nm c"
  using assms session_fd_not_stderr [OF assms]
  by (simp add: session_def fprintf_stderr_slot_other fprintf_stderr_frame)

lemma close_track_session:
  assumes s: "session st w nm c" and e: "fd_file w STDERR_FILENO \<noteq> Some nm"
    and r: "close_track st w = (st', w')"
  shows "st' = st\<lparr>end_offset := offset st\<rparr>"
    and "files w' = (files (fprintf_stderr w (close_line st)))
                      (nm \<mapsto> wav_header (num_samples st) @ drop 44 c)"
    and "fd_slot (fdtab w') fd' =
           (if fd' = track_fd st then Free
            else fd_slot (fdtab (fprintf_stderr w (close_line st))) fd')"
    and "stream_out w' = stream_out (fprintf_stderr w (close_line st))"
    and "open_fault w' = open_fault w"
    and "files w' nm = Some (wav_header (num_samples st) @ drop 44 c)"
    and "fd_target w' fd' = (if fd' = track_fd st then Free else fd_target w fd')"
proof -
  let ?w0 = "fprintf_stderr w (close_line st)"
  from session_fprintf [OF s e] have s0: "session st ?w0 nm c" .
  from s0 have fd: "track_fd st \<noteq> INVALID_FD" and nm: "output_file_name st = nm"
    and l0: "fd_slot (fdtab ?w0) (track_fd st) = To_file \<lparr>ofd_name = nm, ofd_pos = length c\<rparr>"
    and f: "files ?w0 nm = Some c"
    by (simp_all add: session_def)
  from r close_track_open [OF fd, of w]
  have st': "st' = st\<lparr>end_offset := offset st\<rparr>"
    and w': "w' = sys_close (write_wav_header ?w0 (track_fd st) (num_samples st)) (track_fd st)"
    by simp_all
  have f0: "files ?w0 (ofd_name \<lparr>ofd_name = nm, ofd_pos = length c\<rparr>) = Some c"
    using f by simp
  note h = write_wav_header_open [OF l0 f0]
  show "st' = st\<lparr>end_offset := offset st\<rparr>" by (rule st')
  show fs: "files w' = (files ?w0)(nm \<mapsto> wav_header (num_samples st) @ drop 44 c)"
    using h(1) [of "num_samples st"] by (simp add: w')
  show "fd_slot (fdtab w') fd' =
           (if fd' = track_fd st then Free else fd_slot (fdtab ?w0) fd')"
    using h(2) [of "num_samples st" fd'] by (simp add: w' sys_close_slot)
  show "stream_out w' = stream_out ?w0"
    using h(3) [of "num_samples st"] by (simp add: w')
  show "open_fault w' = open_fault w" by (simp add: w')
  show "files w' nm = Some (wav_header (num_samples st) @ drop 44 c)"
    using fs by simp
  show "fd_target w' fd' = (if fd' = track_fd st then Free else fd_target w fd')"
    by (simp add: w' sys_close_fd_target)
qed

text \<open>The same when standard error is open on a stream.\<close>

lemma close_track_session_stream:
  assumes s: "session st w nm c" and e: "fd_slot (fdtab w) STDERR_FILENO = To_stream i"
    and r: "close_track st w = (st', w')"
  shows "st' = st\<lparr>end_offset := offset st\<rparr>"
    and "files w' = (files w)(nm \<mapsto> wav_header (num_samples st) @ drop 44 c)"
    and "fd_slot (fdtab w') fd' =
           (if fd' = track_fd st then Free else fd_slot (fdtab w) fd')"
    and "stream_out w' = (stream_out w)(i := stream_out w i @ str_bytes (close_line st))"
    and "open_fault w' = open_fault w"
proof -
  have a: "fd_file w STDERR_FILENO \<noteq> Some nm" using e by (simp add: fd_file_def)
  note c = close_track_session [OF s a r]
  note p = fprintf_stderr_stream [OF e, of "close_line st"]
  show "st' = st\<lparr>end_offset := offset st\<rparr>" by (rule c(1))
  show "files w' = (files w)(nm \<mapsto> wav_header (num_samples st) @ drop 44 c)"
    using c(2) by (simp add: p)
  show "fd_slot (fdtab w') fd' =
           (if fd' = track_fd st then Free else fd_slot (fdtab w) fd')"
    using c(3) [of fd'] by (simp add: p)
  show "stream_out w' = (stream_out w)(i := stream_out w i @ str_bytes (close_line st))"
    using c(4) by (simp add: p)
  show "open_fault w' = open_fault w" by (rule c(5))
qed

lemma update_track_session:
  assumes s: "session st w nm c" and r: "update_track st w = (st', w')"
  shows "st' = st\<lparr>num_samples := num_samples st + 588\<rparr>"
    and "session st' w' nm (c @ payload (buf st))"
    and "files w' = (files w)(nm \<mapsto> c @ payload (buf st))"
    and "stream_out w' = stream_out w"
    and "open_fault w' = open_fault w"
    and "fd' \<noteq> track_fd st \<Longrightarrow> fd_slot (fdtab w') fd' = fd_slot (fdtab w) fd'"
proof -
  from s have fd: "track_fd st \<noteq> INVALID_FD" and nm: "output_file_name st = nm"
    and l: "fd_slot (fdtab w) (track_fd st) = To_file \<lparr>ofd_name = nm, ofd_pos = length c\<rparr>"
    and f: "files w nm = Some c"
    by (simp_all add: session_def)
  from r update_track_open [OF fd, of w]
  have st': "st' = st\<lparr>num_samples := num_samples st + 588\<rparr>"
    and w': "w' = sys_write w (track_fd st) (payload (buf st))"
    by simp_all
  note h = write_payload_step [OF l f]
  show "st' = st\<lparr>num_samples := num_samples st + 588\<rparr>" by (rule st')
  show "files w' = (files w)(nm \<mapsto> c @ payload (buf st))"
    using h(2) [of "payload (buf st)"] by (simp add: w')
  then show "session st' w' nm (c @ payload (buf st))"
    using h(1) [of "payload (buf st)" "track_fd st"] fd nm
    by (simp add: session_def st' w')
  show "stream_out w' = stream_out w"
    using sys_write_file_stream_out [OF l] by (simp add: w')
  show "open_fault w' = open_fault w" by (simp add: w')
  show "fd_slot (fdtab w') fd' = fd_slot (fdtab w) fd'" if "fd' \<noteq> track_fd st"
    using that by (simp add: w' sys_write_slot_other)
qed

lemma start_track_session:
  assumes "open_fault w (track_file_name (track_number st)) = None"
    and "files w (track_file_name (track_number st)) = None"
    and "start_track st w = (ok, st', w')"
  shows "session st' w' (track_file_name (track_number st)) (wav_header 0)"
  using start_track_ok_world(2,3) [OF assms]
    start_track_ok_world(4) [OF assms, of "int (fd_alloc (fdtab w))"]
  by (simp add: session_def INVALID_FD_def)

section \<open>A sector that starts a track\<close>

text \<open>
  The pass over a sector that starts a track, after \<open>close_track\<close> has left the state
  \<open>st1\<close> and the world \<open>w1\<close>: when the name of the new track is free, the file is created
  with the placeholder header and the payload of this very sector, on the lowest free
  descriptor; no other descriptor changes.
\<close>

lemma mark_opens:
  assumes rd: "sys_read (buf st) r = (count, s)" "0 < count" "is_track_start s"
    and cl: "close_track (st\<lparr>buf := s, track_number := track_number st + 1\<rparr>) w = (st1, w1)"
    and free: "open_fault w1 (track_file_name (track_number st + 1)) = None"
      "files w1 (track_file_name (track_number st + 1)) = None"
  obtains st' w' where "loop_body st w r = (None, st', w')"
    and "st' = st1\<lparr>num_samples := 588, start_offset := offset st,
                    output_file_name := track_file_name (track_number st + 1),
                    track_fd := int (fd_alloc (fdtab w1)), offset := offset st + 2448\<rparr>"
    and "session st' w' (track_file_name (track_number st + 1)) (wav_header 0 @ payload s)"
    and "files w' = (files w1)(track_file_name (track_number st + 1)
                                 \<mapsto> wav_header 0 @ payload s)"
    and "stream_out w' = stream_out w1"
    and "open_fault w' = open_fault w1"
    and "\<And>fd'. fd' \<noteq> int (fd_alloc (fdtab w1)) \<Longrightarrow>
           fd_slot (fdtab w') fd' = fd_slot (fdtab w1) fd'"
proof -
  let ?nm = "track_file_name (track_number st + 1)"
  let ?st0 = "st\<lparr>buf := s, track_number := track_number st + 1\<rparr>"
  have st1: "st1 = ?st0 \<or> st1 = ?st0\<lparr>end_offset := offset st\<rparr>"
    using cl by (cases "track_fd st = INVALID_FD")
      (auto simp: close_track_closed close_track_open)
  then have tn: "track_number st1 = track_number st + 1" and b1: "buf st1 = s"
    and o1: "offset st1 = offset st"
    by auto
  obtain ok st2 w2 where stt: "start_track st1 w1 = (ok, st2, w2)"
    by (cases "start_track st1 w1") auto
  have f1: "open_fault w1 (track_file_name (track_number st1)) = None"
    and f2: "files w1 (track_file_name (track_number st1)) = None"
    using free tn by simp_all
  note h = start_track_ok_world [OF f1 f2 stt]
  have s2: "session st2 w2 ?nm (wav_header 0)"
    using start_track_session [OF f1 f2 stt] tn by simp
  obtain st3 w3 where upd: "update_track st2 w2 = (st3, w3)"
    by (cases "update_track st2 w2") auto
  note u = update_track_session [OF s2 upd]
  have b2: "buf st2 = s" using h(2) b1 by simp
  have fd2: "track_fd st2 = int (fd_alloc (fdtab w1))" using h(2) by simp
  have body: "loop_body st w r = (None, st3\<lparr>offset := offset st3 + 2448\<rparr>, w3)"
    using loop_body_read_mark [OF rd, of w] cl stt upd h(1) by simp
  show ?thesis
  proof (rule that [OF body])
    show "st3\<lparr>offset := offset st3 + 2448\<rparr> =
        st1\<lparr>num_samples := 588, start_offset := offset st, output_file_name := ?nm,
            track_fd := int (fd_alloc (fdtab w1)), offset := offset st + 2448\<rparr>"
      using u(1) h(2) tn o1 by simp
    show "session (st3\<lparr>offset := offset st3 + 2448\<rparr>) w3 ?nm (wav_header 0 @ payload s)"
      using u(2) b2 by simp
    show "files w3 = (files w1)(?nm \<mapsto> wav_header 0 @ payload s)"
      using u(3) h(3) b2 tn by simp
    show "stream_out w3 = stream_out w1" using u(4) h(5) by simp
    show "open_fault w3 = open_fault w1" using u(5) h(6) by simp
    show "fd_slot (fdtab w3) fd' = fd_slot (fdtab w1) fd'"
      if "fd' \<noteq> int (fd_alloc (fdtab w1))" for fd'
      using that u(6) [of fd'] h(4) [of fd'] fd2 by simp
  qed
qed

section \<open>What the descriptors are open on, along a run\<close>

lemma close_track_fd_target:
  assumes "close_track st w = (st', w')"
  shows "fd_target w' fd' = (if fd' = track_fd st then Free else fd_target w fd')"
    and "track_fd st' = track_fd st"
  using assms
  by (cases "track_fd st = INVALID_FD";
      auto simp: close_track_closed close_track_open sys_close_fd_target)+

lemma update_track_fd_target:
  assumes "update_track st w = (st', w')"
  shows "fd_target w' fd' = fd_target w fd'" and "track_fd st' = track_fd st"
  using assms
  by (cases "track_fd st = INVALID_FD"; auto simp: update_track_closed update_track_open)+

lemma start_track_fd_target:
  assumes "start_track st w = (ok, st', w')"
  shows "fd_target w' fd' =
           (if ok \<and> fd' = track_fd st'
            then To_file \<lparr>ofd_name = track_file_name (track_number st), ofd_pos = 0\<rparr>
            else fd_target w fd')"
    and "ok \<Longrightarrow> track_fd st' = int (fd_alloc (fdtab w))
           \<and> files w (track_file_name (track_number st)) = None"
    and "\<not> ok \<Longrightarrow> track_fd st' = INVALID_FD"
proof -
  have "fd_target w' fd' =
           (if ok \<and> fd' = track_fd st'
            then To_file \<lparr>ofd_name = track_file_name (track_number st), ofd_pos = 0\<rparr>
            else fd_target w fd')
      \<and> (ok \<longrightarrow> track_fd st' = int (fd_alloc (fdtab w))
           \<and> files w (track_file_name (track_number st)) = None)
      \<and> (\<not> ok \<longrightarrow> track_fd st' = INVALID_FD)"
  proof (cases rule: start_track_cases [of w st])
    case (fault e)
    with assms start_track_fault [OF fault] show ?thesis
      by (auto simp: INVALID_FD_def)
  next
    case (exists c')
    with assms start_track_exists [OF exists] show ?thesis
      by (auto simp: INVALID_FD_def)
  next
    case ok
    note h = start_track_ok_world [OF ok assms]
    from h(1,2) h(4) [of fd'] ok(2) show ?thesis
      by (simp add: fd_target_def)
  qed
  then show "fd_target w' fd' =
           (if ok \<and> fd' = track_fd st'
            then To_file \<lparr>ofd_name = track_file_name (track_number st), ofd_pos = 0\<rparr>
            else fd_target w fd')"
    and "ok \<Longrightarrow> track_fd st' = int (fd_alloc (fdtab w))
           \<and> files w (track_file_name (track_number st)) = None"
    and "\<not> ok \<Longrightarrow> track_fd st' = INVALID_FD"
    by simp_all
qed





section \<open>Files that the run does not have open are left alone\<close>

text \<open>
  The file \<open>nm\<close> exists, and neither the descriptor of the state nor standard error is
  open on it: then no pass of the loop changes it, and the same holds afterwards.
\<close>

lemma close_track_frame:
  assumes "fd_file w (track_fd st) \<noteq> Some nm" "fd_file w STDERR_FILENO \<noteq> Some nm"
    and "close_track st w = (st', w')"
  shows "files w' nm = files w nm" and "fd_file w' (track_fd st') \<noteq> Some nm"
    and "fd_file w' STDERR_FILENO \<noteq> Some nm"
proof -
  show "files w' nm = files w nm"
    using assms
    by (cases "track_fd st = INVALID_FD")
       (auto simp: close_track_closed close_track_open write_wav_header_frame
          fprintf_stderr_frame)
  note c = close_track_fd_target [OF assms(3)]
  show "fd_file w' (track_fd st') \<noteq> Some nm"
    using c(1) [of "track_fd st"] c(2) by (simp add: fd_file_target)
  show "fd_file w' STDERR_FILENO \<noteq> Some nm"
    using c(1) [of STDERR_FILENO] assms(2) by (simp add: fd_file_target)
qed

lemma update_track_frame:
  assumes "fd_file w (track_fd st) \<noteq> Some nm" "update_track st w = (st', w')"
  shows "files w' nm = files w nm" and "fd_file w' fd' = fd_file w fd'"
    and "track_fd st' = track_fd st"
proof -
  show "files w' nm = files w nm"
    using assms
    by (cases "track_fd st = INVALID_FD")
       (auto simp: update_track_closed update_track_open sys_write_frame)
  show "fd_file w' fd' = fd_file w fd'"
    using update_track_fd_target(1) [OF assms(2)] by (simp add: fd_file_target)
  show "track_fd st' = track_fd st"
    by (rule update_track_fd_target(2) [OF assms(2)])
qed

lemma start_track_frame:
  assumes "files w nm = Some c" "fd_file w STDERR_FILENO \<noteq> Some nm"
    and "start_track st w = (ok, st', w')"
  shows "files w' nm = Some c" and "fd_file w' (track_fd st') \<noteq> Some nm"
    and "fd_file w' STDERR_FILENO \<noteq> Some nm"
proof -
  let ?n = "track_file_name (track_number st)"
  note g = start_track_fd_target [OF assms(3)]
  have ne: "?n \<noteq> nm" if ok using g(2) [OF that] assms(1) by auto
  show "files w' nm = Some c"
  proof (cases rule: start_track_cases [of w st])
    case (fault e)
    with assms start_track_fault [OF fault] show ?thesis
      by (auto simp: fprintf_stderr_frame)
  next
    case (exists c')
    with assms start_track_exists [OF exists] show ?thesis
      by (auto simp: fprintf_stderr_frame)
  next
    case ok
    note h = start_track_ok_world [OF ok assms(3)]
    from ne [OF h(1)] h(3) assms(1) show ?thesis by simp
  qed
  show "fd_file w' (track_fd st') \<noteq> Some nm"
  proof (cases ok)
    case True
    with g(1) [of "track_fd st'"] ne show ?thesis by (simp add: fd_file_target)
  next
    case False
    with g(3) show ?thesis by simp
  qed
  show "fd_file w' STDERR_FILENO \<noteq> Some nm"
    using g(1) [of STDERR_FILENO] ne assms(2) by (auto simp: fd_file_target)
qed

lemma loop_body_frame:
  assumes f: "files w nm = Some c" and o: "fd_file w (track_fd st) \<noteq> Some nm"
    and e: "fd_file w STDERR_FILENO \<noteq> Some nm"
    and b: "loop_body st w r = (ex, st', w')"
  shows "files w' nm = Some c \<and> fd_file w' (track_fd st') \<noteq> Some nm
           \<and> fd_file w' STDERR_FILENO \<noteq> Some nm"
proof -
  obtain count s where rd: "sys_read (buf st) r = (count, s)"
    by (cases "sys_read (buf st) r") auto
  show ?thesis
  proof (cases "0 < count")
    case False
    with rd b f o e show ?thesis by (auto simp: loop_body_def)
  next
    case pos: True
    show ?thesis
    proof (cases "is_track_start s")
      case False
      obtain st1 w1 where u: "update_track (st\<lparr>buf := s\<rparr>) w = (st1, w1)"
        by (cases "update_track (st\<lparr>buf := s\<rparr>) w") auto
      have o': "fd_file w (track_fd (st\<lparr>buf := s\<rparr>)) \<noteq> Some nm" using o by simp
      note k = update_track_frame [OF o' u]
      from k(1) k(2) [of "track_fd st"] k(2) [of STDERR_FILENO] k(3) f o e b u
        loop_body_read_plain [OF rd pos False, of w]
      show ?thesis by auto
    next
      case True
      let ?st0 = "st\<lparr>buf := s, track_number := track_number st + 1\<rparr>"
      obtain st1 w1 where c1: "close_track ?st0 w = (st1, w1)"
        by (cases "close_track ?st0 w") auto
      obtain ok st2 w2 where s2: "start_track st1 w1 = (ok, st2, w2)"
        by (cases "start_track st1 w1") auto
      obtain st3 w3 where u3: "update_track st2 w2 = (st3, w3)"
        by (cases "update_track st2 w2") auto
      have o': "fd_file w (track_fd ?st0) \<noteq> Some nm" using o by simp
      note c = close_track_frame [OF o' e c1]
      have f1: "files w1 nm = Some c" using c(1) f by simp
      note g = start_track_frame [OF f1 c(3) s2]
      note k = update_track_frame [OF g(2) u3]
      from loop_body_read_mark [OF rd pos True, of w] b c1 s2 u3 g k(1)
        k(2) [of "track_fd st2"] k(2) [of STDERR_FILENO] k(3)
      show ?thesis by (cases ok) auto
    qed
  qed
qed

lemma main_loop_frame:
  assumes "files w nm = Some c" "fd_file w (track_fd st) \<noteq> Some nm"
    and "fd_file w STDERR_FILENO \<noteq> Some nm"
    and "main_loop st w rs = (ex, st', w')"
  shows "files w' nm = Some c \<and> fd_file w' (track_fd st') \<noteq> Some nm
           \<and> fd_file w' STDERR_FILENO \<noteq> Some nm"
  using assms
proof (induction rs arbitrary: st w)
  case Nil
  then show ?case by simp
next
  case (Cons r rs)
  obtain e st1 w1 where b: "loop_body st w r = (e, st1, w1)"
    by (cases "loop_body st w r") auto
  note fr = loop_body_frame [OF Cons.prems(1,2,3) b]
  show ?case
  proof (cases e)
    case None
    with Cons.prems(4) b have "main_loop st1 w1 rs = (ex, st', w')" by simp
    with Cons.IH fr show ?thesis by blast
  next
    case (Some x)
    with Cons.prems(4) b fr show ?thesis by simp
  qed
qed

text \<open>From any point of the run on, to the end of \<open>main\<close>.\<close>

lemma run_rest_frame:
  assumes "files w nm = Some c" "fd_file w (track_fd st) \<noteq> Some nm"
    and "fd_file w STDERR_FILENO \<noteq> Some nm"
    and "main_loop st w rs = (ex, st', w')"
  shows "files (snd (close_track st' w')) nm = Some c"
proof -
  from main_loop_frame [OF assms] have f: "files w' nm = Some c"
    and o: "fd_file w' (track_fd st') \<noteq> Some nm"
    and e: "fd_file w' STDERR_FILENO \<noteq> Some nm" by simp_all
  obtain st2 w2 where c2: "close_track st' w' = (st2, w2)"
    by (cases "close_track st' w'") auto
  from close_track_frame(1) [OF o e c2] f c2 show ?thesis by simp
qed


section \<open>A track start whose file name is taken\<close>

lemma mark_taken:
  assumes rd: "sys_read (buf st) r = (count, s)" "0 < count" "is_track_start s"
    and cl: "close_track (st\<lparr>buf := s, track_number := track_number st + 1\<rparr>) w = (st1, w1)"
    and taken: "files w1 (track_file_name (track_number st + 1)) = Some c"
  obtains st' msg where
    "loop_body st w r = (Some Open_failed, st', fprintf_stderr w1 msg)"
    and "track_fd st' = INVALID_FD"
    and "open_fault w1 (track_file_name (track_number st + 1)) = None \<Longrightarrow>
         msg = exists_line (track_file_name (track_number st + 1))"
proof -
  let ?st0 = "st\<lparr>buf := s, track_number := track_number st + 1\<rparr>"
  let ?nm = "track_file_name (track_number st + 1)"
  have st1: "st1 = ?st0 \<or> st1 = ?st0\<lparr>end_offset := offset st\<rparr>"
    using cl by (cases "track_fd st = INVALID_FD")
      (auto simp: close_track_closed close_track_open)
  then have tn: "track_number st1 = track_number st + 1" by auto
  let ?st' = "st1\<lparr>num_samples := 0, start_offset := offset st1,
             output_file_name := track_file_name (track_number st1), track_fd := - 1\<rparr>"
  show ?thesis
  proof (cases "open_fault w1 ?nm")
    case None
    with taken tn have f1: "open_fault w1 (track_file_name (track_number st1)) = None"
      and f2: "files w1 (track_file_name (track_number st1)) = Some c" by simp_all
    show ?thesis
      by (rule that [where st' = ?st' and msg = "exists_line ?nm"])
         (use loop_body_read_mark [OF rd, of w] cl start_track_exists [OF f1 f2] tn
           in \<open>simp_all add: INVALID_FD_def\<close>)
  next
    case (Some e)
    with tn have f1: "open_fault w1 (track_file_name (track_number st1)) = Some e" by simp
    show ?thesis
      by (rule that [where st' = ?st'
            and msg = "if e = EEXIST then exists_line ?nm else error_line ?nm e"])
         (use loop_body_read_mark [OF rd, of w] cl start_track_fault [OF f1] tn Some
           in \<open>simp_all add: INVALID_FD_def\<close>)
  qed
qed

lemma loop_body_buf_irrelevant:
  assumes "length x \<le> BLOCK_SIZE" "length y \<le> BLOCK_SIZE" "length s = BLOCK_SIZE"
  shows "loop_body (st\<lparr>buf := x\<rparr>) w (Read_data s) = loop_body (st\<lparr>buf := y\<rparr>) w (Read_data s)"
  using assms by (simp add: loop_body_def sys_read_full)

lemma dec_0 [simp]: "dec 0 = ''0''"
  by (simp add: dec.simps digit_def)

lemma duration_one_sector [simp]: "duration_of x (x + 2448) = 0"
  by (simp add: duration_of_def)


section \<open>One track, from the sector that starts it\<close>

lemma close_track_state:
  "close_track st w = (st', w') \<Longrightarrow> st' = st \<or> st' = st\<lparr>end_offset := offset st\<rparr>"
  by (cases "track_fd st = INVALID_FD") (auto simp: close_track_closed close_track_open)

text \<open>
  A full sector \<open>b\<close> that starts a track, then full sectors \<open>mid\<close> that do not, from any
  point of the run. \<open>st1\<close> and \<open>w1\<close> are what \<open>close_track\<close> leaves when \<open>b\<close> has been
  read. If the name of the new track is free, the sectors are consumed and the new file
  holds the placeholder header and the payload regions of \<open>b\<close> and of \<open>mid\<close>, in order.
\<close>

lemma track_segment:
  assumes len: "length (buf st) \<le> BLOCK_SIZE"
    and b: "length b = BLOCK_SIZE" "is_track_start b"
    and mid: "\<forall>s\<in>set mid. length s = BLOCK_SIZE \<and> \<not> is_track_start s"
    and cl: "close_track (st\<lparr>buf := b, track_number := track_number st + 1\<rparr>) w = (st1, w1)"
    and free: "open_fault w1 (track_file_name (track_number st + 1)) = None"
      "files w1 (track_file_name (track_number st + 1)) = None"
  obtains st' w' where
    "\<And>rs. main_loop st w (map Read_data (b # mid) @ rs) = main_loop st' w' rs"
    and "session st' w' (track_file_name (track_number st + 1))
           (wav_header 0 @ concat (map payload (b # mid)))"
    and "files w' = (files w1)(track_file_name (track_number st + 1)
                                 \<mapsto> wav_header 0 @ concat (map payload (b # mid)))"
    and "stream_out w' = stream_out w1"
    and "open_fault w' = open_fault w1"
    and "num_samples st' = 588 * word_of_nat (Suc (length mid))"
    and "start_offset st' = offset st"
    and "offset st' = offset st + 2448 * word_of_nat (Suc (length mid))"
    and "track_number st' = track_number st + 1"
    and "length (buf st') \<le> BLOCK_SIZE"
    and "track_fd st' = int (fd_alloc (fdtab w1))"
    and "\<And>fd'. fd' \<noteq> int (fd_alloc (fdtab w1)) \<Longrightarrow>
           fd_slot (fdtab w') fd' = fd_slot (fdtab w1) fd'"
proof -
  let ?nm = "track_file_name (track_number st + 1)"
  let ?c = "wav_header 0 @ payload b"
  have rd: "sys_read (buf st) (Read_data b) = (int BLOCK_SIZE, b)"
    using len b by (simp add: sys_read_full)
  have pos: "0 < int BLOCK_SIZE" by (simp add: BLOCK_SIZE_eq)
  from close_track_state [OF cl] have b1: "buf st1 = b"
    and tn1: "track_number st1 = track_number st + 1"
    by auto
  obtain sa wa where a: "loop_body st w (Read_data b) = (None, sa, wa)"
    and sa: "sa = st1\<lparr>num_samples := 588, start_offset := offset st,
                    output_file_name := ?nm,
                    track_fd := int (fd_alloc (fdtab w1)), offset := offset st + 2448\<rparr>"
    and sess_a: "session sa wa ?nm ?c"
    and fa: "files wa = (files w1)(?nm \<mapsto> ?c)"
    and ea: "stream_out wa = stream_out w1"
    and oa: "open_fault wa = open_fault w1"
    and sla: "\<And>fd'. fd' \<noteq> int (fd_alloc (fdtab w1)) \<Longrightarrow>
           fd_slot (fdtab wa) fd' = fd_slot (fdtab w1) fd'"
    by (rule mark_opens [OF rd pos b(2) cl free]) blast
  from sess_a have fda: "track_fd sa \<noteq> INVALID_FD"
    and la: "fd_slot (fdtab wa) (track_fd sa) = To_file \<lparr>ofd_name = ?nm, ofd_pos = length ?c\<rparr>"
    and fna: "files wa ?nm = Some ?c" and na: "output_file_name sa = ?nm"
    by (simp_all add: session_def)
  have lena: "length (buf sa) \<le> BLOCK_SIZE" using sa b1 b by simp
  let ?w' = "foldl (\<lambda>w s. sys_write w (track_fd sa) (payload s)) wa mid"
  let ?st' = "sa\<lparr>buf := last (buf sa # mid),
                 num_samples := num_samples sa + 588 * word_of_nat (length mid),
                 offset := offset sa + 2448 * word_of_nat (length mid)\<rparr>"
  note fw = fill_world [OF la fna, of mid]
  have run: "main_loop st w (map Read_data (b # mid) @ rs) = main_loop ?st' ?w' rs" for rs
    using a main_loop_fill [OF fda lena mid, of wa rs] by simp
  have lenb: "length (last (buf sa # mid)) \<le> BLOCK_SIZE"
    using lena mid by (cases mid rule: rev_cases) auto
  show ?thesis
  proof (rule that [of ?st' ?w'])
    show "main_loop st w (map Read_data (b # mid) @ rs) = main_loop ?st' ?w' rs" for rs
      by (rule run)
    show "session ?st' ?w' ?nm (wav_header 0 @ concat (map payload (b # mid)))"
      using fw(1) fw(2) [of "track_fd sa"] fda na by (simp add: session_def)
    show "files ?w' = (files w1)(?nm \<mapsto> wav_header 0 @ concat (map payload (b # mid)))"
      using fw(1) fa by simp
    show "stream_out ?w' = stream_out w1" using fw(3) ea by simp
    show "open_fault ?w' = open_fault w1" using fw(4) oa by simp
    show "num_samples ?st' = 588 * word_of_nat (Suc (length mid))"
      by (simp add: sa algebra_simps)
    show "start_offset ?st' = offset st" by (simp add: sa)
    show "offset ?st' = offset st + 2448 * word_of_nat (Suc (length mid))"
      by (simp add: sa algebra_simps)
    show "track_number ?st' = track_number st + 1" by (simp add: sa tn1)
    show "length (buf ?st') \<le> BLOCK_SIZE" using lenb by simp
    show "track_fd ?st' = int (fd_alloc (fdtab w1))" by (simp add: sa)
    show "fd_slot (fdtab ?w') fd' = fd_slot (fdtab w1) fd'"
      if "fd' \<noteq> int (fd_alloc (fdtab w1))" for fd'
      using that fw(2) [of fd'] sla [of fd'] by (simp add: sa)
  qed
qed

text \<open>
  The pass over a sector that starts a track while the file \<open>nm\<close> is open and standard
  error is not open on it: \<open>nm\<close> gets its final header, and is no longer the file that
  the descriptor of the state is open on.
\<close>

lemma mark_closes_session:
  assumes rd: "sys_read (buf st) r = (count, s)" "0 < count" "is_track_start s"
    and sess: "session st w nm c"
    and e: "fd_file w STDERR_FILENO \<noteq> Some nm"
    and body: "loop_body st w r = (ex, st', w')"
  shows "files w' nm = Some (wav_header (num_samples st) @ drop 44 c)"
    and "fd_file w' (track_fd st') \<noteq> Some nm"
    and "fd_file w' STDERR_FILENO \<noteq> Some nm"
proof -
  let ?st0 = "st\<lparr>buf := s, track_number := track_number st + 1\<rparr>"
  let ?x = "wav_header (num_samples st) @ drop 44 c"
  obtain st1 w1 where c1: "close_track ?st0 w = (st1, w1)"
    by (cases "close_track ?st0 w") auto
  obtain ok st2 w2 where s2: "start_track st1 w1 = (ok, st2, w2)"
    by (cases "start_track st1 w1") auto
  obtain st3 w3 where u3: "update_track st2 w2 = (st3, w3)"
    by (cases "update_track st2 w2") auto
  have sess0: "session ?st0 w nm c" using sess by simp
  note c = close_track_session [OF sess0 e c1]
  have f1: "files w1 nm = Some ?x" using c(6) by simp
  have e1: "fd_file w1 STDERR_FILENO \<noteq> Some nm"
    using c(7) [of STDERR_FILENO] e by (simp add: fd_file_target)
  note g = start_track_frame [OF f1 e1 s2]
  note k = update_track_frame [OF g(2) u3]
  have res: "(ex, st', w') =
      (if ok then (None, st3\<lparr>offset := offset st3 + 2448\<rparr>, w3) else (Some Open_failed, st2, w2))"
    using loop_body_read_mark [OF rd, of w] body c1 s2 u3 by simp
  show "files w' nm = Some ?x"
    using res g(1) k(1) by (cases ok) auto
  show "fd_file w' (track_fd st') \<noteq> Some nm"
    using res g(2) k(2) [of "track_fd st2"] k(3) by (cases ok) auto
  show "fd_file w' STDERR_FILENO \<noteq> Some nm"
    using res g(3) k(2) [of STDERR_FILENO] by (cases ok) auto
qed

text \<open>
  The first track of a run: sectors \<open>pre\<close> that start no track, the sector \<open>b\<close> that
  starts the first one, sectors \<open>mid\<close> that start none, and the sector \<open>b'\<close> that starts
  the next; whatever follows, the run leaves the first file with its final header and the
  payload regions of \<open>b\<close> and \<open>mid\<close>.
\<close>

lemma first_track_final:
  assumes pre: "\<forall>s\<in>set pre. length s = BLOCK_SIZE \<and> \<not> is_track_start s"
    and b: "length b = BLOCK_SIZE" "is_track_start b"
    and mid: "\<forall>s\<in>set mid. length s = BLOCK_SIZE \<and> \<not> is_track_start s"
    and b': "length b' = BLOCK_SIZE" "is_track_start b'"
    and free: "files w ''track_01.wav'' = None" "open_fault w ''track_01.wav'' = None"
    and apart: "stderr_apart w ''track_01.wav''"
  shows "files (snd (main w (map Read_data (pre @ b # mid @ [b']) @ rs))) ''track_01.wav''
     = Some (wav_header (588 * word_of_nat (Suc (length mid))) @ concat (map payload (b # mid)))"
proof -
  let ?t1 = "''track_01.wav''"
  let ?sp = "initial_state\<lparr>buf := last (buf initial_state # pre),
                offset := offset initial_state + 2448 * word_of_nat (length pre)\<rparr>"
  have skip: "main_loop initial_state w (map Read_data pre @ rs) = main_loop ?sp w rs" for rs
    using main_loop_skip [of initial_state pre w rs] pre by simp
  have lenp: "length (buf ?sp) \<le> BLOCK_SIZE"
    using pre by (cases pre rule: rev_cases) auto
  have tnp: "track_number ?sp + 1 = 1" by simp
  have clp: "close_track (?sp\<lparr>buf := b, track_number := track_number ?sp + 1\<rparr>) w
      = (?sp\<lparr>buf := b, track_number := track_number ?sp + 1\<rparr>, w)"
    by (simp add: close_track_closed)
  have fr1: "open_fault w (track_file_name (track_number ?sp + 1)) = None"
    and fr2: "files w (track_file_name (track_number ?sp + 1)) = None"
    using free by simp_all
  obtain sa wa where run_a: "\<And>rs. main_loop ?sp w (map Read_data (b # mid) @ rs) = main_loop sa wa rs"
    and sess_a: "session sa wa (track_file_name (track_number ?sp + 1))
           (wav_header 0 @ concat (map payload (b # mid)))"
    and nsa: "num_samples sa = 588 * word_of_nat (Suc (length mid))"
    and lena: "length (buf sa) \<le> BLOCK_SIZE"
    and sla: "\<And>fd'. fd' \<noteq> int (fd_alloc (fdtab w)) \<Longrightarrow>
           fd_slot (fdtab wa) fd' = fd_slot (fdtab w) fd'"
    by (rule track_segment [OF lenp b mid clp fr1 fr2]) blast
  have sess_a1: "session sa wa ?t1 (wav_header 0 @ concat (map payload (b # mid)))"
    using sess_a by simp
  from apart have op: "fd_slot (fdtab w) STDERR_FILENO \<noteq> Free"
    and ea0: "fd_file w STDERR_FILENO \<noteq> Some ?t1"
    by (simp_all add: stderr_apart_def)
  have "fd_slot (fdtab wa) STDERR_FILENO = fd_slot (fdtab w) STDERR_FILENO"
    using sla [of STDERR_FILENO] fd_alloc_other [OF op] by auto
  with ea0 have ea: "fd_file wa STDERR_FILENO \<noteq> Some ?t1"
    by (simp add: fd_file_def)
  have rd: "sys_read (buf sa) (Read_data b') = (int BLOCK_SIZE, b')"
    using lena b' by (simp add: sys_read_full)
  have pos: "0 < int BLOCK_SIZE" by (simp add: BLOCK_SIZE_eq)
  obtain ex sb wb where body: "loop_body sa wa (Read_data b') = (ex, sb, wb)"
    by (cases "loop_body sa wa (Read_data b')") auto
  note m = mark_closes_session [OF rd pos b'(2) sess_a1 ea body]
  let ?x = "wav_header (588 * word_of_nat (Suc (length mid))) @ concat (map payload (b # mid))"
  have fb: "files wb ?t1 = Some ?x" using m(1) nsa by simp
  obtain ex' sz wz where rest: "main_loop sa wa (Read_data b' # rs) = (ex', sz, wz)"
    by (cases "main_loop sa wa (Read_data b' # rs)") auto
  have fin: "files (snd (close_track sz wz)) ?t1 = Some ?x"
  proof (cases ex)
    case None
    with rest body have "main_loop sb wb rs = (ex', sz, wz)" by simp
    from run_rest_frame [OF fb m(2) m(3) this] show ?thesis .
  next
    case (Some e)
    with rest body have eq: "sz = sb" "wz = wb" by simp_all
    obtain s2 w2 where c2: "close_track sb wb = (s2, w2)"
      by (cases "close_track sb wb") auto
    from close_track_frame(1) [OF m(2) m(3) c2] fb c2 eq show ?thesis by simp
  qed
  have "main_loop initial_state w (map Read_data (pre @ b # mid @ [b']) @ rs) = (ex', sz, wz)"
    using skip [of "map Read_data (b # mid) @ Read_data b' # rs"]
      run_a [of "Read_data b' # rs"] rest by simp
  from main_after_loop [OF this] fin show ?thesis by simp
qed


section \<open>Two sectors that both start a track\<close>

lemma two_track_starts:
  assumes s1: "length s1 = BLOCK_SIZE" "is_track_start s1"
    and s2: "length s2 = BLOCK_SIZE" "is_track_start s2"
    and free: "files w ''track_01.wav'' = None" "files w ''track_02.wav'' = None"
      "open_fault w ''track_01.wav'' = None" "open_fault w ''track_02.wav'' = None"
    and apart: "stderr_apart w ''track_01.wav''" "stderr_apart w ''track_02.wav''"
  shows "files (snd (main w [Read_data s1, Read_data s2])) ''track_01.wav''
           = Some (wav_header 588 @ payload s1)"
    and "files (snd (main w [Read_data s1, Read_data s2])) ''track_02.wav''
           = Some (wav_header 588 @ payload s2)"
    and "dom (files (snd (main w [Read_data s1, Read_data s2])))
           = insert ''track_01.wav'' (insert ''track_02.wav'' (dom (files w)))"
proof -
  let ?t1 = "''track_01.wav''" and ?t2 = "''track_02.wav''"
  have len0: "length (buf initial_state) \<le> BLOCK_SIZE" by simp
  have no_mid: "\<forall>s\<in>set ([] :: byte list list). length s = BLOCK_SIZE \<and> \<not> is_track_start s"
    by simp
  from apart have op: "fd_slot (fdtab w) STDERR_FILENO \<noteq> Free"
    and e1: "fd_file w STDERR_FILENO \<noteq> Some ?t1"
    and e2: "fd_file w STDERR_FILENO \<noteq> Some ?t2"
    by (simp_all add: stderr_apart_def)
  have cl1: "close_track (initial_state\<lparr>buf := s1,
                 track_number := track_number initial_state + 1\<rparr>) w
      = (initial_state\<lparr>buf := s1, track_number := track_number initial_state + 1\<rparr>, w)"
    by (simp add: close_track_closed)
  have fr1: "open_fault w (track_file_name (track_number initial_state + 1)) = None"
    and fr2: "files w (track_file_name (track_number initial_state + 1)) = None"
    using free by simp_all
  obtain sa wa where
    run_a: "\<And>rs. main_loop initial_state w (map Read_data (s1 # []) @ rs) = main_loop sa wa rs"
    and sess_a: "session sa wa (track_file_name (track_number initial_state + 1))
           (wav_header 0 @ concat (map payload (s1 # [])))"
    and fa: "files wa = (files w)(track_file_name (track_number initial_state + 1)
                                 \<mapsto> wav_header 0 @ concat (map payload (s1 # [])))"
    and oa: "open_fault wa = open_fault w"
    and nsa: "num_samples sa = 588 * word_of_nat (Suc (length ([] :: byte list list)))"
    and tna: "track_number sa = track_number initial_state + 1"
    and lena: "length (buf sa) \<le> BLOCK_SIZE"
    and sla: "\<And>fd'. fd' \<noteq> int (fd_alloc (fdtab w)) \<Longrightarrow>
           fd_slot (fdtab wa) fd' = fd_slot (fdtab w) fd'"
    by (rule track_segment [OF len0 s1 no_mid cl1 fr1 fr2]) blast
  have sl_a: "fd_slot (fdtab wa) STDERR_FILENO = fd_slot (fdtab w) STDERR_FILENO"
    using sla [of STDERR_FILENO] fd_alloc_other [OF op] by auto
  have ea1: "fd_file wa STDERR_FILENO \<noteq> Some ?t1" and ea2: "fd_file wa STDERR_FILENO \<noteq> Some ?t2"
    using e1 e2 sl_a by (simp_all add: fd_file_def)
  obtain sb wb where cl2: "close_track (sa\<lparr>buf := s2, track_number := track_number sa + 1\<rparr>) wa
      = (sb, wb)"
    by (cases "close_track (sa\<lparr>buf := s2, track_number := track_number sa + 1\<rparr>) wa") auto
  have sess_a2: "session (sa\<lparr>buf := s2, track_number := track_number sa + 1\<rparr>) wa ?t1
      (wav_header 0 @ payload s1)"
    using sess_a by simp
  note c2 = close_track_session [OF sess_a2 ea1 cl2]
  have fb1: "files wb ?t1 = Some (wav_header 588 @ payload s1)"
    using c2(6) nsa by simp
  have fb2: "files wb ?t2 = None"
    using c2(2) fa free(2) ea2 by (simp add: fprintf_stderr_frame)
  have db: "dom (files wb) = insert ?t1 (dom (files w))"
    using c2(2) fa by simp
  have tb: "fd_target wb STDERR_FILENO = fd_target wa STDERR_FILENO"
    using c2(7) [of STDERR_FILENO] session_fd_not_stderr [OF sess_a2 ea1] by auto
  have opb: "fd_slot (fdtab wb) STDERR_FILENO \<noteq> Free"
  proof -
    have "fd_target wa STDERR_FILENO \<noteq> Free" using op sl_a by (simp add: fd_target_free)
    with tb have "fd_target wb STDERR_FILENO \<noteq> Free" by simp
    then show ?thesis by (simp add: fd_target_free)
  qed
  have eb1: "fd_file wb STDERR_FILENO \<noteq> Some ?t1" and eb2: "fd_file wb STDERR_FILENO \<noteq> Some ?t2"
    using ea1 ea2 tb by (simp_all add: fd_file_target)
  have fr3: "open_fault wb (track_file_name (track_number sa + 1)) = None"
    and fr4: "files wb (track_file_name (track_number sa + 1)) = None"
    using c2(5) oa fb2 free tna by simp_all
  obtain sc wc where
    run_c: "\<And>rs. main_loop sa wa (map Read_data (s2 # []) @ rs) = main_loop sc wc rs"
    and sess_c: "session sc wc (track_file_name (track_number sa + 1))
           (wav_header 0 @ concat (map payload (s2 # [])))"
    and fc: "files wc = (files wb)(track_file_name (track_number sa + 1)
                                 \<mapsto> wav_header 0 @ concat (map payload (s2 # [])))"
    and nsc: "num_samples sc = 588 * word_of_nat (Suc (length ([] :: byte list list)))"
    and slc: "\<And>fd'. fd' \<noteq> int (fd_alloc (fdtab wb)) \<Longrightarrow>
           fd_slot (fdtab wc) fd' = fd_slot (fdtab wb) fd'"
    by (rule track_segment [OF lena s2 no_mid cl2 fr3 fr4]) blast
  have sl_c: "fd_slot (fdtab wc) STDERR_FILENO = fd_slot (fdtab wb) STDERR_FILENO"
    using slc [of STDERR_FILENO] fd_alloc_other [OF opb] by auto
  have ec1: "fd_file wc STDERR_FILENO \<noteq> Some ?t1" and ec2: "fd_file wc STDERR_FILENO \<noteq> Some ?t2"
    using eb1 eb2 sl_c by (simp_all add: fd_file_def)
  have loop: "main_loop initial_state w [Read_data s1, Read_data s2] = (End_of_input, sc, wc)"
    using run_a [of "[Read_data s2]"] run_c [of "[]"] by simp
  obtain sd wd where d: "close_track sc wc = (sd, wd)"
    by (cases "close_track sc wc") auto
  have sess_c2: "session sc wc ?t2 (wav_header 0 @ payload s2)"
    using sess_c tna by simp
  note c4 = close_track_session [OF sess_c2 ec2 d]
  have fc1: "files wc ?t1 = Some (wav_header 588 @ payload s1)"
    using fc fb1 tna by simp
  have fd1: "files wd ?t1 = Some (wav_header 588 @ payload s1)"
    using c4(2) fc1 ec1 by (simp add: fprintf_stderr_frame)
  have fd2: "files wd ?t2 = Some (wav_header 588 @ payload s2)"
    using c4(6) nsc by simp
  have dd: "dom (files wd) = insert ?t1 (insert ?t2 (dom (files w)))"
    using c4(2) fc db tna by auto
  from main_after_loop [OF loop] d
  have m: "snd (main w [Read_data s1, Read_data s2]) = wd" by simp
  show "files (snd (main w [Read_data s1, Read_data s2])) ?t1
           = Some (wav_header 588 @ payload s1)"
    using fd1 by (simp only: m)
  show "files (snd (main w [Read_data s1, Read_data s2])) ?t2
           = Some (wav_header 588 @ payload s2)"
    using fd2 by (simp only: m)
  show "dom (files (snd (main w [Read_data s1, Read_data s2])))
           = insert ?t1 (insert ?t2 (dom (files w)))"
    using dd by (simp only: m)
qed

lemma length_concat_payload:
  "\<forall>s\<in>set xs. length s = BLOCK_SIZE \<Longrightarrow>
   length (concat (map payload xs)) = length xs * DATA_SIZE"
  by (induction xs) (simp_all add: length_payload)

lemma data_bytes_of_samples:
  "(588 * word_of_nat n :: uint32) * 4 = word_of_nat (n * DATA_SIZE)"
  by (simp add: DATA_SIZE_def algebra_simps)


section \<open>Decimal numerals and track file names\<close>

lemma digit_val_digit: "d < 10 \<Longrightarrow> digit_val (digit d) = d"
proof -
  assume "d < 10"
  then have "d = 0 \<or> d = 1 \<or> d = 2 \<or> d = 3 \<or> d = 4 \<or> d = 5 \<or> d = 6 \<or> d = 7 \<or> d = 8 \<or> d = 9"
    by arith
  then show ?thesis
    by (elim disjE) (simp_all add: digit_def digit_val_def)
qed

lemma undec_snoc: "undec (s @ [c]) = 10 * undec s + digit_val c"
  by (simp add: undec_def)

lemma undec_dec: "undec (dec n) = n"
proof (induction n rule: dec.induct)
  case (1 n)
  show ?case
  proof (cases "n < 10")
    case True
    then show ?thesis
      by (simp add: dec.simps [of n] undec_def digit_val_digit)
  next
    case False
    with "1.IH" show ?thesis
      by (simp add: dec.simps [of n] undec_snoc digit_val_digit)
  qed
qed

lemma undec_zeros: "undec (replicate k (CHR ''0'') @ s) = undec s"
proof (induction k)
  case 0
  then show ?case by simp
next
  case (Suc k)
  have "undec (CHR ''0'' # t) = undec t" for t
    by (simp add: undec_def digit_val_def)
  with Suc show ?case by simp
qed

lemma undec_fmt_02u: "undec (fmt_02u n) = n"
  by (simp add: fmt_02u_def undec_zeros undec_dec)

lemma length_dec_pos: "Suc 0 \<le> length (dec n)"
  by (subst dec.simps) simp

lemma length_dec_le: "n < 10 ^ k \<Longrightarrow> 0 < k \<Longrightarrow> length (dec n) \<le> k"
proof (induction n arbitrary: k rule: dec.induct)
  case (1 n)
  show ?case
  proof (cases "n < 10")
    case True
    with "1.prems" show ?thesis by (simp add: dec.simps [of n])
  next
    case False
    obtain k' where k: "k = Suc k'" using "1.prems"(2) by (cases k) auto
    have "k' \<noteq> 0"
    proof
      assume "k' = 0"
      with k "1.prems"(1) False show False by simp
    qed
    then have k'pos: "0 < k'" by simp
    have "n div 10 < 10 ^ k'"
      using "1.prems"(1) k by (simp add: less_mult_imp_div_less mult.commute)
    from "1.IH" [OF False this k'pos] False k show ?thesis
      by (simp add: dec.simps [of n])
  qed
qed

lemma dec_small: "n < 10 \<Longrightarrow> dec n = [digit n]"
  by (simp add: dec.simps [of n])

lemma dec_two_digits: "10 \<le> n \<Longrightarrow> n < 100 \<Longrightarrow> dec n = [digit (n div 10), digit (n mod 10)]"
  by (simp add: dec.simps [of n] dec_small)

lemma dec_three_digits: "100 \<le> n \<Longrightarrow> 3 \<le> length (dec n)"
proof -
  assume n: "100 \<le> n"
  then have a: "10 \<le> n div 10" by simp
  have "dec n = dec (n div 10) @ [digit (n mod 10)]"
    using n by (simp add: dec.simps [of n])
  moreover have "dec (n div 10) = dec (n div 10 div 10) @ [digit (n div 10 mod 10)]"
    using a by (simp add: dec.simps [of "n div 10"])
  ultimately have "length (dec n) = length (dec (n div 10 div 10)) + 2"
    by simp
  with length_dec_pos [of "n div 10 div 10"] show ?thesis by linarith
qed

lemma fmt_02u_below_100: "n < 100 \<Longrightarrow> fmt_02u n = [digit (n div 10), digit (n mod 10)]"
proof (cases "n < 10")
  case True
  then show ?thesis by (simp add: fmt_02u_def dec_small digit_def)
next
  case False
  assume "n < 100"
  with False show ?thesis by (simp add: fmt_02u_def dec_two_digits)
qed

lemma fmt_02u_from_100: "100 \<le> n \<Longrightarrow> fmt_02u n = dec n"
  using dec_three_digits [of n] by (simp add: fmt_02u_def)

lemma length_fmt_02u: "n < 2 ^ 32 \<Longrightarrow> length (fmt_02u n) \<le> 10"
proof -
  assume "n < 2 ^ 32"
  then have "n < 10 ^ 10" by simp
  from length_dec_le [OF this] show ?thesis
    by (simp add: fmt_02u_def)
qed

lemma track_file_name_eq: "track_file_name n = ''track_'' @ fmt_02u (unat n) @ ''.wav''"
proof -
  have "unat n < 2 ^ 32" using unsigned_less [of n] by simp
  from length_fmt_02u [OF this] show ?thesis
    by (simp add: track_file_name_def)
qed

lemma track_file_name_inj: "track_file_name a = track_file_name b \<Longrightarrow> a = b"
proof -
  assume "track_file_name a = track_file_name b"
  then have "fmt_02u (unat a) = fmt_02u (unat b)"
    by (simp add: track_file_name_eq)
  then have "undec (fmt_02u (unat a)) = undec (fmt_02u (unat b))" by simp
  then have "unat a = unat b" by (simp add: undec_fmt_02u)
  then show "a = b" by (rule word_unat_eq_iff [THEN iffD2])
qed

section \<open>The duration that is printed\<close>



section \<open>Which files exist, and the fields of the state, along a run\<close>

lemma close_track_dom [simp]:
  "dom (files (snd (close_track st w))) = dom (files w)"
  "open_fault (snd (close_track st w)) = open_fault w"
  by (cases "track_fd st = INVALID_FD"; simp add: close_track_closed close_track_open)+

lemma update_track_dom [simp]:
  "dom (files (snd (update_track st w))) = dom (files w)"
  "open_fault (snd (update_track st w)) = open_fault w"
  by (cases "track_fd st = INVALID_FD"; simp add: update_track_closed update_track_open)+

lemma update_track_fields:
  "update_track st w = (st', w') \<Longrightarrow>
   st' = st \<or> st' = st\<lparr>num_samples := num_samples st + 588\<rparr>"
  by (cases "track_fd st = INVALID_FD") (auto simp: update_track_closed update_track_open)

lemma start_track_outcome:
  assumes "start_track st w = (ok, st', w')"
  shows "open_fault w' = open_fault w"
    and "track_number st' = track_number st" and "offset st' = offset st" and "buf st' = buf st"
    and "ok \<Longrightarrow> track_fd st' \<noteq> INVALID_FD \<and> start_offset st' = offset st
           \<and> output_file_name st' = track_file_name (track_number st)
           \<and> dom (files w') = insert (track_file_name (track_number st)) (dom (files w))"
    and "\<not> ok \<Longrightarrow> dom (files w') = dom (files w)
           \<and> (open_fault w (track_file_name (track_number st)) \<noteq> None
              \<or> track_file_name (track_number st) \<in> dom (files w))"
proof -
  have "open_fault w' = open_fault w \<and> track_number st' = track_number st
      \<and> offset st' = offset st \<and> buf st' = buf st
      \<and> (ok \<longrightarrow> track_fd st' \<noteq> INVALID_FD \<and> start_offset st' = offset st
           \<and> output_file_name st' = track_file_name (track_number st)
           \<and> dom (files w') = insert (track_file_name (track_number st)) (dom (files w)))
      \<and> (\<not> ok \<longrightarrow> dom (files w') = dom (files w)
           \<and> (open_fault w (track_file_name (track_number st)) \<noteq> None
              \<or> track_file_name (track_number st) \<in> dom (files w)))"
  proof (cases rule: start_track_cases [of w st])
    case (fault e)
    from assms start_track_fault [OF fault]
    have r: "\<not> ok"
      "st' = st\<lparr>num_samples := 0, start_offset := offset st,
               output_file_name := track_file_name (track_number st), track_fd := - 1\<rparr>"
      "\<exists>msg. w' = fprintf_stderr w msg"
      by auto
    from r(3) obtain msg where "w' = fprintf_stderr w msg" ..
    then have "dom (files w') = dom (files w)" "open_fault w' = open_fault w" by simp_all
    with r(1,2) fault show ?thesis by simp
  next
    case (exists c)
    from assms start_track_exists [OF exists]
    have r: "\<not> ok"
      "st' = st\<lparr>num_samples := 0, start_offset := offset st,
               output_file_name := track_file_name (track_number st), track_fd := - 1\<rparr>"
      "\<exists>msg. w' = fprintf_stderr w msg"
      by auto
    from r(3) obtain msg where "w' = fprintf_stderr w msg" ..
    then have "dom (files w') = dom (files w)" "open_fault w' = open_fault w" by simp_all
    with r(1,2) exists show ?thesis by auto
  next
    case ok
    note h = start_track_ok_world [OF ok assms]
    from h(1,2,3,6) show ?thesis by (simp add: INVALID_FD_def)
  qed
  then show "open_fault w' = open_fault w"
    and "track_number st' = track_number st" and "offset st' = offset st" and "buf st' = buf st"
    and "ok \<Longrightarrow> track_fd st' \<noteq> INVALID_FD \<and> start_offset st' = offset st
           \<and> output_file_name st' = track_file_name (track_number st)
           \<and> dom (files w') = insert (track_file_name (track_number st)) (dom (files w))"
    and "\<not> ok \<Longrightarrow> dom (files w') = dom (files w)
           \<and> (open_fault w (track_file_name (track_number st)) \<noteq> None
              \<or> track_file_name (track_number st) \<in> dom (files w))"
    by simp_all
qed

text \<open>A full sector that starts no track.\<close>

lemma loop_body_plain_fields:
  assumes len: "length (buf st) \<le> BLOCK_SIZE" "length s = BLOCK_SIZE"
    and plain: "\<not> is_track_start s"
    and body: "loop_body st w (Read_data s) = (e, st1, w1)"
  shows "e = None" and "open_fault w1 = open_fault w" and "dom (files w1) = dom (files w)"
    and "track_number st1 = track_number st" and "offset st1 = offset st + 2448"
    and "buf st1 = s" and "track_fd st1 = track_fd st" and "start_offset st1 = start_offset st"
    and "output_file_name st1 = output_file_name st"
proof -
  obtain st2 w2 where u: "update_track (st\<lparr>buf := s\<rparr>) w = (st2, w2)"
    by (cases "update_track (st\<lparr>buf := s\<rparr>) w") auto
  from loop_body_plain [OF len plain, of w] body u
  have r: "e = None" "st1 = st2\<lparr>offset := offset st2 + 2448\<rparr>" "w1 = w2" by simp_all
  have w: "open_fault w2 = open_fault w" "dom (files w2) = dom (files w)"
    using update_track_dom [of "st\<lparr>buf := s\<rparr>" w] u by simp_all
  from update_track_fields [OF u] r w
  show "e = None" and "open_fault w1 = open_fault w" and "dom (files w1) = dom (files w)"
    and "track_number st1 = track_number st" and "offset st1 = offset st + 2448"
    and "buf st1 = s" and "track_fd st1 = track_fd st" and "start_offset st1 = start_offset st"
    and "output_file_name st1 = output_file_name st"
    by auto
qed

text \<open>A full sector that starts a track.\<close>

lemma loop_body_mark_fields:
  assumes len: "length (buf st) \<le> BLOCK_SIZE" "length s = BLOCK_SIZE"
    and mark: "is_track_start s"
    and body: "loop_body st w (Read_data s) = (e, st1, w1)"
  shows "e = None \<or> e = Some Open_failed"
    and "open_fault w1 = open_fault w"
    and "track_number st1 = track_number st + 1"
    and "e = None \<Longrightarrow> offset st1 = offset st + 2448 \<and> buf st1 = s
           \<and> track_fd st1 \<noteq> INVALID_FD \<and> start_offset st1 = offset st
           \<and> output_file_name st1 = track_file_name (track_number st + 1)
           \<and> dom (files w1) = insert (track_file_name (track_number st + 1)) (dom (files w))"
    and "e = Some Open_failed \<Longrightarrow> dom (files w1) = dom (files w)
           \<and> (open_fault w (track_file_name (track_number st + 1)) \<noteq> None
              \<or> track_file_name (track_number st + 1) \<in> dom (files w))"
proof -
  let ?st0 = "st\<lparr>buf := s, track_number := track_number st + 1\<rparr>"
  obtain sa wa where c: "close_track ?st0 w = (sa, wa)"
    by (cases "close_track ?st0 w") auto
  obtain ok sb wb where s: "start_track sa wa = (ok, sb, wb)"
    by (cases "start_track sa wa") auto
  obtain sc wc where u: "update_track sb wb = (sc, wc)"
    by (cases "update_track sb wb") auto
  from close_track_state [OF c] have a: "track_number sa = track_number st + 1"
    "offset sa = offset st" "buf sa = s"
    by auto
  have wa: "open_fault wa = open_fault w" "dom (files wa) = dom (files w)"
    using close_track_dom [of ?st0 w] c by simp_all
  note o = start_track_outcome [OF s]
  have wc: "open_fault wc = open_fault wb" "dom (files wc) = dom (files wb)"
    using update_track_dom [of sb wb] u by simp_all
  have res: "(e, st1, w1) =
      (if ok then (None, sc\<lparr>offset := offset sc + 2448\<rparr>, wc) else (Some Open_failed, sb, wb))"
    using loop_body_mark [OF len mark, of w] body c s u by simp
  show "e = None \<or> e = Some Open_failed" using res by (cases ok) auto
  show "open_fault w1 = open_fault w" using res o(1) wa wc by (cases ok) auto
  show "track_number st1 = track_number st + 1"
    using res o(2) a update_track_fields [OF u] by (cases ok) auto
  show "offset st1 = offset st + 2448 \<and> buf st1 = s
           \<and> track_fd st1 \<noteq> INVALID_FD \<and> start_offset st1 = offset st
           \<and> output_file_name st1 = track_file_name (track_number st + 1)
           \<and> dom (files w1) = insert (track_file_name (track_number st + 1)) (dom (files w))"
    if "e = None"
  proof -
    from that res have ok: ok by (cases ok) auto
    with res have r: "st1 = sc\<lparr>offset := offset sc + 2448\<rparr>" "w1 = wc" by simp_all
    from o(5) [OF ok] o(3,4) a update_track_fields [OF u] r wa wc show ?thesis by auto
  qed
  show "dom (files w1) = dom (files w)
           \<and> (open_fault w (track_file_name (track_number st + 1)) \<noteq> None
              \<or> track_file_name (track_number st + 1) \<in> dom (files w))"
    if "e = Some Open_failed"
  proof -
    from that res have ok: "\<not> ok" by (cases ok) auto
    with res have r: "w1 = wb" by simp
    from o(6) [OF ok] a wa r show ?thesis by auto
  qed
qed



lemma image_from_1_Suc: "f ` {1..Suc j} = insert (f 1) ((\<lambda>i. f (Suc i)) ` {1..j})"
proof -
  have "{1..Suc j} = insert 1 (Suc ` {1..j})"
    by (auto simp: image_Suc_atLeastAtMost)
  then show ?thesis by (simp add: image_image del: image_Suc_atLeastAtMost)
qed

text \<open>
  What a run over full sectors has done when the loop is left: \<open>j\<close> track files have been
  created, numbered on from the track counter at the start. When the input is used up
  every track start has created its file; when a create fails it is that of track
  \<open>j + 1\<close>, whose name is taken or whose create the environment refuses.
\<close>

lemma run_tracking:
  assumes full: "\<forall>s\<in>set secs. length s = BLOCK_SIZE" and len: "length (buf st) \<le> BLOCK_SIZE"
    and run: "main_loop st w (map Read_data secs) = (ex, st', w')"
  shows "open_fault w' = open_fault w \<and>
    (\<exists>j. j \<le> length (filter is_track_start secs)
       \<and> dom (files w') = dom (files w)
             \<union> (\<lambda>i. track_file_name (track_number st + word_of_nat i)) ` {1..j}
       \<and> (ex = End_of_input \<longrightarrow>
             j = length (filter is_track_start secs)
           \<and> track_number st' = track_number st + word_of_nat j
           \<and> offset st' = offset st + 2448 * word_of_nat (length secs)
           \<and> length (buf st') \<le> BLOCK_SIZE
           \<and> ((output_file_name st = track_file_name (track_number st)
                  \<and> track_fd st \<noteq> INVALID_FD) \<or> 0 < j \<longrightarrow>
                output_file_name st' = track_file_name (track_number st')
                  \<and> track_fd st' \<noteq> INVALID_FD))
       \<and> (ex = Open_failed \<longrightarrow>
             j < length (filter is_track_start secs)
           \<and> track_number st' = track_number st + word_of_nat (Suc j)
           \<and> (open_fault w (track_file_name (track_number st')) \<noteq> None
                \<or> track_file_name (track_number st') \<in> dom (files w'))))"
  using assms
proof (induction secs arbitrary: st w)
  case Nil
  then show ?case by (auto intro!: exI [of _ 0])
next
  case (Cons s secs)
  obtain e st1 w1 where b: "loop_body st w (Read_data s) = (e, st1, w1)"
    by (cases "loop_body st w (Read_data s)") auto
  have ls: "length s = BLOCK_SIZE" and full': "\<forall>s\<in>set secs. length s = BLOCK_SIZE"
    using Cons.prems(1) by simp_all
  show ?case
  proof (cases "is_track_start s")
    case False
    note f = loop_body_plain_fields [OF Cons.prems(2) ls False b]
    have len1: "length (buf st1) \<le> BLOCK_SIZE" using f(6) ls by simp
    have run1: "main_loop st1 w1 (map Read_data secs) = (ex, st', w')"
      using Cons.prems(3) b f(1) by simp
    from Cons.IH [OF full' len1 run1] obtain j where
      o: "open_fault w' = open_fault w1"
      and j: "j \<le> length (filter is_track_start secs)"
      and d: "dom (files w') = dom (files w1)
             \<union> (\<lambda>i. track_file_name (track_number st1 + word_of_nat i)) ` {1..j}"
      and e1: "ex = End_of_input \<longrightarrow>
             j = length (filter is_track_start secs)
           \<and> track_number st' = track_number st1 + word_of_nat j
           \<and> offset st' = offset st1 + 2448 * word_of_nat (length secs)
           \<and> length (buf st') \<le> BLOCK_SIZE
           \<and> ((output_file_name st1 = track_file_name (track_number st1)
                  \<and> track_fd st1 \<noteq> INVALID_FD) \<or> 0 < j \<longrightarrow>
                output_file_name st' = track_file_name (track_number st')
                  \<and> track_fd st' \<noteq> INVALID_FD)"
      and e2: "ex = Open_failed \<longrightarrow>
             j < length (filter is_track_start secs)
           \<and> track_number st' = track_number st1 + word_of_nat (Suc j)
           \<and> (open_fault w1 (track_file_name (track_number st')) \<noteq> None
                \<or> track_file_name (track_number st') \<in> dom (files w'))"
      by blast
    have off: "offset st1 + 2448 * word_of_nat (length secs)
        = offset st + 2448 * word_of_nat (length (s # secs))"
      using f(5) by (simp add: algebra_simps)
    have dd: "dom (files w') = dom (files w)
             \<union> (\<lambda>i. track_file_name (track_number st + word_of_nat i)) ` {1..j}"
      using d f(3,4) by simp
    have c0: "j \<le> length (filter is_track_start (s # secs))" using j False by simp
    have c1: "ex = End_of_input \<longrightarrow>
             j = length (filter is_track_start (s # secs))
           \<and> track_number st' = track_number st + word_of_nat j
           \<and> offset st' = offset st + 2448 * word_of_nat (length (s # secs))
           \<and> length (buf st') \<le> BLOCK_SIZE
           \<and> ((output_file_name st = track_file_name (track_number st)
                  \<and> track_fd st \<noteq> INVALID_FD) \<or> 0 < j \<longrightarrow>
                output_file_name st' = track_file_name (track_number st')
                  \<and> track_fd st' \<noteq> INVALID_FD)"
      using e1 f(4,7,9) False off by simp
    have c2: "ex = Open_failed \<longrightarrow>
             j < length (filter is_track_start (s # secs))
           \<and> track_number st' = track_number st + word_of_nat (Suc j)
           \<and> (open_fault w (track_file_name (track_number st')) \<noteq> None
                \<or> track_file_name (track_number st') \<in> dom (files w'))"
      using e2 f(2,4) False by auto
    have oo: "open_fault w' = open_fault w" using o f(2) by simp
    show ?thesis
      using oo c0 dd c1 c2 by (intro conjI exI [of _ j]) blast+
  next
    case True
    note f = loop_body_mark_fields [OF Cons.prems(2) ls True b]
    let ?nm = "track_file_name (track_number st + 1)"
    from f(1) show ?thesis
    proof
      assume e: "e = Some Open_failed"
      with Cons.prems(3) b have r: "ex = Open_failed" "st' = st1" "w' = w1" by simp_all
      from f(5) [OF e] f(2,3) r True show ?thesis
        by (intro conjI exI [of _ 0]) auto
    next
      assume e: "e = None"
      note g = f(4) [OF e]
      have len1: "length (buf st1) \<le> BLOCK_SIZE" using g ls by simp
      have run1: "main_loop st1 w1 (map Read_data secs) = (ex, st', w')"
        using Cons.prems(3) b e by simp
      from Cons.IH [OF full' len1 run1] obtain j where
        o: "open_fault w' = open_fault w1"
        and j: "j \<le> length (filter is_track_start secs)"
        and d: "dom (files w') = dom (files w1)
               \<union> (\<lambda>i. track_file_name (track_number st1 + word_of_nat i)) ` {1..j}"
        and e1: "ex = End_of_input \<longrightarrow>
               j = length (filter is_track_start secs)
             \<and> track_number st' = track_number st1 + word_of_nat j
             \<and> offset st' = offset st1 + 2448 * word_of_nat (length secs)
             \<and> length (buf st') \<le> BLOCK_SIZE
             \<and> ((output_file_name st1 = track_file_name (track_number st1)
                    \<and> track_fd st1 \<noteq> INVALID_FD) \<or> 0 < j \<longrightarrow>
                  output_file_name st' = track_file_name (track_number st')
                    \<and> track_fd st' \<noteq> INVALID_FD)"
        and e2: "ex = Open_failed \<longrightarrow>
               j < length (filter is_track_start secs)
             \<and> track_number st' = track_number st1 + word_of_nat (Suc j)
             \<and> (open_fault w1 (track_file_name (track_number st')) \<noteq> None
                  \<or> track_file_name (track_number st') \<in> dom (files w'))"
        by blast
      have tn: "track_number st1 + word_of_nat i = track_number st + word_of_nat (Suc i)" for i
        using f(3) by (simp add: algebra_simps)
      have inv1: "output_file_name st1 = track_file_name (track_number st1)
                    \<and> track_fd st1 \<noteq> INVALID_FD"
        using g f(3) by simp
      have dd: "dom (files w') = dom (files w)
             \<union> (\<lambda>i. track_file_name (track_number st + word_of_nat i)) ` {1..Suc j}"
      proof -
        have "(\<lambda>i. track_file_name (track_number st + word_of_nat i)) ` {1..Suc j}
            = insert ?nm ((\<lambda>i. track_file_name (track_number st + word_of_nat (Suc i))) ` {1..j})"
          using image_from_1_Suc [of "\<lambda>i. track_file_name (track_number st + word_of_nat i)" j]
          by simp
        with d g show ?thesis by (simp only: tn) auto
      qed
      have off: "offset st1 + 2448 * word_of_nat (length secs)
          = offset st + 2448 * word_of_nat (length (s # secs))"
        using g by (simp add: algebra_simps)
      have c1: "ex = End_of_input \<longrightarrow>
               Suc j = length (filter is_track_start (s # secs))
             \<and> track_number st' = track_number st + word_of_nat (Suc j)
             \<and> offset st' = offset st + 2448 * word_of_nat (length (s # secs))
             \<and> length (buf st') \<le> BLOCK_SIZE
             \<and> output_file_name st' = track_file_name (track_number st')
             \<and> track_fd st' \<noteq> INVALID_FD"
        using e1 inv1 True off tn [of j] by simp
      have c2: "ex = Open_failed \<longrightarrow>
               Suc j < length (filter is_track_start (s # secs))
             \<and> track_number st' = track_number st + word_of_nat (Suc (Suc j))
             \<and> (open_fault w (track_file_name (track_number st')) \<noteq> None
                  \<or> track_file_name (track_number st') \<in> dom (files w'))"
        using e2 True tn [of "Suc j"] f(2) by auto
      have c0: "Suc j \<le> length (filter is_track_start (s # secs))"
        using j True by simp
      have oo: "open_fault w' = open_fault w" using o f(2) by simp
      show ?thesis
        using oo c0 dd c1 c2 by (intro conjI exI [of _ "Suc j"]) blast+
    qed
  qed
qed


lemma track_number_inj:
  assumes "track_file_name (word_of_nat a) = track_file_name (word_of_nat b)"
    and "a < 2 ^ 32" "b < 2 ^ 32"
  shows "a = b"
proof -
  from track_file_name_inj [OF assms(1)]
  have "unat (word_of_nat a :: uint32) = unat (word_of_nat b :: uint32)" by simp
  with assms(2,3) show ?thesis by (simp add: unat_of_nat)
qed

text \<open>
  Where no create is refused and none of the names is taken, no create fails (as long as
  the track counter does not wrap around).
\<close>

lemma fresh_run_succeeds:
  assumes full: "\<forall>s\<in>set secs. length s = BLOCK_SIZE"
    and n: "length (filter is_track_start secs) < 2 ^ 32"
    and nofault: "open_fault w = Map.empty"
    and fresh: "\<forall>i\<in>{1..length (filter is_track_start secs)}.
                  track_file_name (word_of_nat i) \<notin> dom (files w)"
    and run: "main_loop initial_state w (map Read_data secs) = (ex, st, w')"
  shows "ex = End_of_input"
proof (rule ccontr)
  assume "ex \<noteq> End_of_input"
  then have ex: "ex = Open_failed" by (cases ex) auto
  have len: "length (buf initial_state) \<le> BLOCK_SIZE" by simp
  from run_tracking [OF full len run] obtain j where
    d0: "dom (files w') = dom (files w)
             \<union> (\<lambda>i. track_file_name (track_number initial_state + word_of_nat i)) ` {1..j}"
    and e2: "ex = Open_failed \<longrightarrow>
             j < length (filter is_track_start secs)
           \<and> track_number st = track_number initial_state + word_of_nat (Suc j)
           \<and> (open_fault w (track_file_name (track_number st)) \<noteq> None
                \<or> track_file_name (track_number st) \<in> dom (files w'))"
    by blast
  from e2 ex have j: "j < length (filter is_track_start secs)"
    and tn: "track_number st = word_of_nat (Suc j)"
    and c: "open_fault w (track_file_name (track_number st)) \<noteq> None
                \<or> track_file_name (track_number st) \<in> dom (files w')"
    by auto
  from d0 have d: "dom (files w') = dom (files w)
             \<union> (\<lambda>i. track_file_name (word_of_nat i)) ` {1..j}"
    by simp
  from c nofault have "track_file_name (word_of_nat (Suc j)) \<in> dom (files w')"
    by (simp add: tn)
  with d consider "track_file_name (word_of_nat (Suc j)) \<in> dom (files w)"
    | i where "i \<in> {1..j}" "track_file_name (word_of_nat (Suc j)) = track_file_name (word_of_nat i)"
    by auto
  then show False
  proof cases
    case 1
    moreover have "Suc j \<in> {1..length (filter is_track_start secs)}" using j by simp
    ultimately show False using fresh by blast
  next
    case (2 i)
    have "Suc j < 2 ^ 32" "i < 2 ^ 32" using j n 2(1) by simp_all
    from track_number_inj [OF 2(2) this] 2(1) show False by simp
  qed
qed

section \<open>The offsets of a track\<close>






section \<open>A run that ends on a failed create\<close>

lemma start_track_failed_name:
  "start_track st w = (False, st', w') \<Longrightarrow>
   output_file_name st' = track_file_name (track_number st')"
  by (cases rule: start_track_cases [of w st])
     (auto simp: start_track_fault start_track_exists start_track_ok)

text \<open>
  The pass that leaves the loop on a failed create ends by printing the error line for
  the file of the track it tried to start.
\<close>

lemma loop_body_open_failed:
  assumes b: "loop_body st w r = (Some Open_failed, st', w')"
  shows "\<exists>w1 e. w' = fprintf_stderr w1
           (if e = EEXIST then exists_line (output_file_name st')
            else error_line (output_file_name st') e)"
    and "output_file_name st' = track_file_name (track_number st')"
proof -
  obtain count s where rd: "sys_read (buf st) r = (count, s)"
    by (cases "sys_read (buf st) r") auto
  have pos: "0 < count"
    using b rd by (cases "0 < count") (auto simp: loop_body_def)
  have mk: "is_track_start s"
  proof (rule ccontr)
    assume "\<not> is_track_start s"
    from loop_body_read_plain [OF rd pos this, of w] b show False
      by (simp split: prod.splits)
  qed
  let ?st0 = "st\<lparr>buf := s, track_number := track_number st + 1\<rparr>"
  obtain st1 w1 where c1: "close_track ?st0 w = (st1, w1)"
    by (cases "close_track ?st0 w") auto
  obtain ok st2 w2 where s2: "start_track st1 w1 = (ok, st2, w2)"
    by (cases "start_track st1 w1") auto
  obtain st3 w3 where u3: "update_track st2 w2 = (st3, w3)"
    by (cases "update_track st2 w2") auto
  from loop_body_read_mark [OF rd pos mk, of w] b c1 s2 u3
  have r: "\<not> ok" "st' = st2" "w' = w2" by (cases ok; simp)+
  from s2 r have f: "start_track st1 w1 = (False, st', w')" by simp
  from start_track_failed_world [OF f]
  show "\<exists>w1 e. w' = fprintf_stderr w1
           (if e = EEXIST then exists_line (output_file_name st')
            else error_line (output_file_name st') e)"
    by blast
  from start_track_failed_name [OF f]
  show "output_file_name st' = track_file_name (track_number st')" .
qed

lemma main_loop_open_failed:
  assumes "main_loop st w rs = (Open_failed, st', w')"
  shows "(\<exists>w1 e. w' = fprintf_stderr w1
           (if e = EEXIST then exists_line (output_file_name st')
            else error_line (output_file_name st') e))
       \<and> output_file_name st' = track_file_name (track_number st')"
  using assms
proof (induction rs arbitrary: st w)
  case Nil
  then show ?case by simp
next
  case (Cons r rs)
  obtain e st1 w1 where b: "loop_body st w r = (e, st1, w1)"
    by (cases "loop_body st w r") auto
  show ?case
  proof (cases e)
    case None
    with Cons.prems b have "main_loop st1 w1 rs = (Open_failed, st', w')" by simp
    from Cons.IH [OF this] show ?thesis .
  next
    case (Some x)
    with Cons.prems b have "loop_body st w r = (Some Open_failed, st', w')" by simp
    from loop_body_open_failed [OF this] show ?thesis by simp
  qed
qed

text \<open>Once a create has failed, nothing that the input would give later is read.\<close>

lemma main_loop_stops:
  assumes "main_loop st w rs = (Open_failed, st', w')"
  shows "main_loop st w (rs @ rest) = (Open_failed, st', w')"
  using assms
proof (induction rs arbitrary: st w)
  case Nil
  then show ?case by simp
next
  case (Cons r rs)
  obtain e st1 w1 where b: "loop_body st w r = (e, st1, w1)"
    by (cases "loop_body st w r") auto
  show ?case
  proof (cases e)
    case None
    with Cons.prems b have "main_loop st1 w1 rs = (Open_failed, st', w')" by simp
    from Cons.IH [OF this] b None show ?thesis by simp
  next
    case (Some x)
    with Cons.prems b show ?thesis by simp
  qed
qed

text \<open>The run on one sector that starts a track, where the first name is taken.\<close>

lemma taken_name_run:
  assumes "files w ''track_01.wav'' = Some c" "open_fault w ''track_01.wav'' = None"
  obtains st where
    "main_loop initial_state w [Read_data mark_sector]
       = (Open_failed, st, fprintf_stderr w (exists_line ''track_01.wav''))"
    and "track_fd st = INVALID_FD"
proof -
  have rd1: "sys_read (buf initial_state) (Read_data mark_sector) = (int BLOCK_SIZE, mark_sector)"
    by (simp add: sys_read_full)
  have pos: "0 < int BLOCK_SIZE" by (simp add: BLOCK_SIZE_eq)
  have mk: "is_track_start mark_sector" by simp
  have cl1: "close_track (initial_state\<lparr>buf := mark_sector,
                 track_number := track_number initial_state + 1\<rparr>) w
      = (initial_state\<lparr>buf := mark_sector, track_number := track_number initial_state + 1\<rparr>, w)"
    by (simp add: close_track_closed)
  have tk: "files w (track_file_name (track_number initial_state + 1)) = Some c"
    using assms(1) by simp
  show ?thesis
  proof (rule mark_taken [OF rd1 pos mk cl1 tk])
    fix sc msg
    assume c: "loop_body initial_state w (Read_data mark_sector)
        = (Some Open_failed, sc, fprintf_stderr w msg)"
      and fd: "track_fd sc = INVALID_FD"
      and msg: "open_fault w (track_file_name (track_number initial_state + 1)) = None \<Longrightarrow>
         msg = exists_line (track_file_name (track_number initial_state + 1))"
    have m: "msg = exists_line ''track_01.wav''"
      using msg assms(2) by simp
    from c m have "main_loop initial_state w [Read_data mark_sector]
       = (Open_failed, sc, fprintf_stderr w (exists_line ''track_01.wav''))"
      by simp
    from that [OF this fd] show ?thesis .
  qed
qed

section \<open>C1: the end of the input\<close>

text \<open>
  C1 (as amended). The claim says that any read shorter than a sector ends the stream.
  The loop tests \<^verbatim>\<open>count <= 0\<close>: a read that gives no bytes, or that fails, ends
  the loop at once, with nothing classified or written for it, and whatever the input
  would have given later is never read; the run goes on to the final \<open>close_track\<close>
  exactly as if the input had stopped there.
\<close>

theorem empty_read_ends_stream:
  assumes "r = Read_failed \<or> r = Read_data []"
  shows "main_loop st w (r # rs) = (End_of_input, st, w)
       \<and> main_loop st w (xs @ r # rs) = main_loop st w xs
       \<and> main w (xs @ r # rs) = main w xs"
  using assms by (simp add: main_loop_cut main_def loop_body_stop)

theorem empty_read_ends_stream_witness:
  "main_loop initial_state fresh_world (Read_data [] # [Read_data mark_sector])
      = (End_of_input, initial_state, fresh_world)
   \<and> main_loop initial_state fresh_world
        ([Read_data plain_sector] @ Read_data [] # [Read_data mark_sector])
      = main_loop initial_state fresh_world [Read_data plain_sector]
   \<and> main fresh_world ([Read_data plain_sector] @ Read_data [] # [Read_data mark_sector])
      = main fresh_world [Read_data plain_sector]"
  by (rule empty_read_ends_stream) simp

text \<open>
  A read of one byte after a sector that started a track does not end the stream: the
  byte lands in the buffer, whose subcode bytes are still those of the sector before, so
  the buffer is taken for another track start and its payload region is written to a
  second file. Had the short read ended the stream, the run would have been the run on
  the first sector alone, which creates no second file.
\<close>

theorem short_read_counterexample:
  "files (snd (main fresh_world [Read_data mark_sector, Read_data [0]])) ''track_02.wav''
      = Some (wav_header 588 @ payload (0 # drop 1 mark_sector))
   \<and> files (snd (main fresh_world [Read_data mark_sector])) ''track_02.wav'' = None"
proof -
  let ?t1 = "''track_01.wav''" and ?t2 = "''track_02.wav''"
  \<comment> \<open>the first sector\<close>
  have rd1: "sys_read (buf initial_state) (Read_data mark_sector) = (int BLOCK_SIZE, mark_sector)"
    by (simp add: sys_read_full)
  have cl1: "close_track (initial_state\<lparr>buf := mark_sector,
                 track_number := track_number initial_state + 1\<rparr>) fresh_world
      = (initial_state\<lparr>buf := mark_sector, track_number := track_number initial_state + 1\<rparr>,
         fresh_world)"
    by (simp add: close_track_closed)
  have pos: "0 < int BLOCK_SIZE" by (simp add: BLOCK_SIZE_eq)
  have mk1: "is_track_start mark_sector" by simp
  have fr1: "open_fault fresh_world (track_file_name (track_number initial_state + 1)) = None"
    and fr2: "files fresh_world (track_file_name (track_number initial_state + 1)) = None"
    by simp_all
  obtain sa wa where a: "loop_body initial_state fresh_world (Read_data mark_sector) = (None, sa, wa)"
    and sa: "sa = initial_state\<lparr>buf := mark_sector,
                    track_number := track_number initial_state + 1,
                    num_samples := 588, start_offset := offset initial_state,
                    output_file_name := track_file_name (track_number initial_state + 1),
                    track_fd := int (fd_alloc (fdtab fresh_world)),
                    offset := offset initial_state + 2448\<rparr>"
    and sess_a: "session sa wa (track_file_name (track_number initial_state + 1))
                   (wav_header 0 @ payload mark_sector)"
    and fa: "files wa = (files fresh_world)(track_file_name (track_number initial_state + 1)
                           \<mapsto> wav_header 0 @ payload mark_sector)"
    and oa: "open_fault wa = open_fault fresh_world"
    and sla: "\<And>fd'. fd' \<noteq> int (fd_alloc (fdtab fresh_world)) \<Longrightarrow>
           fd_slot (fdtab wa) fd' = fd_slot (fdtab fresh_world) fd'"
    by (rule mark_opens [OF rd1 pos mk1 cl1 fr1 fr2]) blast
  have sess_a1: "session sa wa ?t1 (wav_header 0 @ payload mark_sector)"
    using sess_a by simp
  have fa1: "files wa = [?t1 \<mapsto> wav_header 0 @ payload mark_sector]"
    using fa by simp
  have ea: "fd_slot (fdtab wa) STDERR_FILENO = To_stream ''stderr''"
  proof -
    have "STDERR_FILENO \<noteq> int (fd_alloc (fdtab fresh_world))"
      by (simp add: STDERR_FILENO_def)
    from sla [OF this] show ?thesis by simp
  qed
  have ba: "buf sa = mark_sector" and na: "track_number sa = 1" and nsa: "num_samples sa = 588"
    by (simp_all add: sa)
  \<comment> \<open>the run on the first sector alone\<close>
  have loop1: "main_loop initial_state fresh_world [Read_data mark_sector] = (End_of_input, sa, wa)"
    using a by simp
  obtain sz wz where z: "close_track sa wa = (sz, wz)"
    by (cases "close_track sa wa") auto
  have "files wz ?t2 = None"
    using close_track_session_stream(2) [OF sess_a1 ea z] fa1 by simp
  then have one: "files (snd (main fresh_world [Read_data mark_sector])) ?t2 = None"
    using main_after_loop [OF loop1] z by simp
  \<comment> \<open>the one-byte read\<close>
  let ?b = "0 # drop 1 mark_sector"
  have rd2: "sys_read (buf sa) (Read_data [0]) = (1, ?b)"
    by (simp add: sys_read_def ba BLOCK_SIZE_eq)
  have mk: "is_track_start ?b"
    by (auto simp: is_track_start_iff mark_sector_def nth_append nth_Cons' BLOCK_SIZE_def
        DATA_SIZE_def SUBCODE_SIZE_def SUBCODE_P_def)
  obtain sb wb where cl2: "close_track (sa\<lparr>buf := ?b, track_number := track_number sa + 1\<rparr>) wa
      = (sb, wb)"
    by (cases "close_track (sa\<lparr>buf := ?b, track_number := track_number sa + 1\<rparr>) wa") auto
  have sess_a2: "session (sa\<lparr>buf := ?b, track_number := track_number sa + 1\<rparr>) wa ?t1
      (wav_header 0 @ payload mark_sector)"
    using sess_a1 by simp
  note c2 = close_track_session_stream [OF sess_a2 ea cl2]
  have fb: "files wb = [?t1 \<mapsto> wav_header 588 @ payload mark_sector]"
    using c2(2) fa1 nsa by simp
  have ob: "open_fault wb = Map.empty"
    using c2(5) oa by simp
  have eb: "fd_slot (fdtab wb) STDERR_FILENO = To_stream ''stderr''"
    using c2(3) [of STDERR_FILENO] ea by (simp add: sa STDERR_FILENO_def)
  have pos2: "0 < (1::int)" by simp
  have fr3: "open_fault wb (track_file_name (track_number sa + 1)) = None"
    and fr4: "files wb (track_file_name (track_number sa + 1)) = None"
    by (simp_all add: na fb ob)
  obtain sc wc where c: "loop_body sa wa (Read_data [0]) = (None, sc, wc)"
    and sess_c: "session sc wc (track_file_name (track_number sa + 1)) (wav_header 0 @ payload ?b)"
    and fc: "files wc = (files wb)(track_file_name (track_number sa + 1)
                           \<mapsto> wav_header 0 @ payload ?b)"
    and sc: "sc = sb\<lparr>num_samples := 588, start_offset := offset sa,
                    output_file_name := track_file_name (track_number sa + 1),
                    track_fd := int (fd_alloc (fdtab wb)), offset := offset sa + 2448\<rparr>"
    and slc: "\<And>fd'. fd' \<noteq> int (fd_alloc (fdtab wb)) \<Longrightarrow>
           fd_slot (fdtab wc) fd' = fd_slot (fdtab wb) fd'"
    by (rule mark_opens [OF rd2 pos2 mk cl2 fr3 fr4]) blast
  have ec: "fd_slot (fdtab wc) STDERR_FILENO = To_stream ''stderr''"
  proof -
    have "fd_slot (fdtab wb) STDERR_FILENO \<noteq> Free" using eb by simp
    from fd_alloc_other [OF this] slc [of STDERR_FILENO] eb show ?thesis by auto
  qed
  have loop2: "main_loop initial_state fresh_world [Read_data mark_sector, Read_data [0]]
      = (End_of_input, sc, wc)"
    using a c by simp
  obtain sd wd where d: "close_track sc wc = (sd, wd)"
    by (cases "close_track sc wc") auto
  have sess_c2: "session sc wc ?t2 (wav_header 0 @ payload ?b)"
    using sess_c na by simp
  have "files wd ?t2 = Some (wav_header 588 @ payload ?b)"
    using close_track_session_stream(2) [OF sess_c2 ec d] by (simp add: sc)
  then have two: "files (snd (main fresh_world [Read_data mark_sector, Read_data [0]])) ?t2
      = Some (wav_header 588 @ payload ?b)"
    using main_after_loop [OF loop2] d by simp
  from one two show ?thesis by simp
qed

section \<open>C2: the contents of the first track file\<close>

text \<open>
  C2 (as amended). Let the input begin with the full sectors \<open>secs\<close>, let sector \<open>k\<close> be
  the first that starts a track and sector \<open>m\<close> the next one, let the first track
  file be created (its name is free and the create succeeds), and let standard error
  (descriptor 2, on which the diagnostic lines are written) be open, and not on a file
  named \<^verbatim>\<open>track_01.wav\<close>. Then, whatever follows, when
  the run has ended \<^verbatim>\<open>track_01.wav\<close> holds its 44 header bytes followed by
  exactly the payload regions of sectors \<open>k\<close> to \<open>m - 1\<close> in stream order. Its subchunk2
  size field is 32 bits wide and holds \<open>(m - k) * 2352\<close> modulo \<open>2 ^ 32\<close>, which
  is \<open>(m - k) * 2352\<close> itself as long as that is below \<open>2 ^ 32\<close>.
\<close>

theorem first_track_file:
  assumes full: "\<forall>s\<in>set secs. length s = BLOCK_SIZE"
    and km: "k < m" "m < length secs"
    and bk: "is_track_start (secs ! k)" and bm: "is_track_start (secs ! m)"
    and nb: "\<forall>j<m. j \<noteq> k \<longrightarrow> \<not> is_track_start (secs ! j)"
    and free: "files w ''track_01.wav'' = None" "open_fault w ''track_01.wav'' = None"
    and apart: "stderr_apart w ''track_01.wav''"
  shows "\<exists>c. files (snd (main w (map Read_data secs @ rs))) ''track_01.wav'' = Some c
           \<and> take 44 c = wav_header (588 * word_of_nat (m - k))
           \<and> drop 44 c = concat (map payload (take (m - k) (drop k secs)))
           \<and> length c = 44 + (m - k) * DATA_SIZE
           \<and> unat (read_le32 c 40) = ((m - k) * DATA_SIZE) mod 2 ^ 32"
proof -
  let ?pre = "take k secs" and ?b = "secs ! k"
  let ?mid = "take (m - k - 1) (drop (Suc k) secs)" and ?b' = "secs ! m"
  let ?rest = "drop (Suc m) secs"
  from km have k: "k < length secs" by simp
  have d1: "secs = ?pre @ ?b # drop (Suc k) secs"
    using k by (simp add: id_take_nth_drop [symmetric])
  have m': "m - k - 1 < length (drop (Suc k) secs)" using km by simp
  have nth_m: "drop (Suc k) secs ! (m - k - 1) = ?b'" using km by simp
  have d2: "drop (Suc k) secs = ?mid @ ?b' # drop (Suc (m - k - 1)) (drop (Suc k) secs)"
    using id_take_nth_drop [OF m'] nth_m by simp
  have d3: "drop (Suc (m - k - 1)) (drop (Suc k) secs) = ?rest"
    using km by simp
  have dec: "secs = ?pre @ ?b # ?mid @ [?b'] @ ?rest"
    using d1 d2 d3 by simp
  have pre: "\<forall>s\<in>set ?pre. length s = BLOCK_SIZE \<and> \<not> is_track_start s"
  proof
    fix s assume "s \<in> set ?pre"
    then obtain j where "j < k" "j < length secs" "s = secs ! j"
      using k by (auto simp: in_set_conv_nth)
    with full nb km show "length s = BLOCK_SIZE \<and> \<not> is_track_start s" by auto
  qed
  have mid: "\<forall>s\<in>set ?mid. length s = BLOCK_SIZE \<and> \<not> is_track_start s"
  proof
    fix s assume "s \<in> set ?mid"
    then obtain j where j: "j < m - k - 1" "s = ?mid ! j"
      by (auto simp: in_set_conv_nth)
    then have s: "s = secs ! (Suc k + j)" using km by simp
    have "Suc k + j < m" "Suc k + j \<noteq> k" "Suc k + j < length secs" using j km by simp_all
    with full nb s show "length s = BLOCK_SIZE \<and> \<not> is_track_start s" by auto
  qed
  have lb: "length ?b = BLOCK_SIZE" and lb': "length ?b' = BLOCK_SIZE"
    using full k km by simp_all
  have lenmid: "Suc (length ?mid) = m - k" using km by simp
  have seg: "?b # ?mid = take (m - k) (drop k secs)"
  proof -
    have "drop k secs = ?b # drop (Suc k) secs" using k by (simp add: Cons_nth_drop_Suc)
    moreover have "m - k = Suc (m - k - 1)" using km by simp
    ultimately show ?thesis by simp
  qed
  let ?c = "wav_header (588 * word_of_nat (Suc (length ?mid))) @ concat (map payload (?b # ?mid))"
  have "map Read_data secs @ rs
      = map Read_data (?pre @ ?b # ?mid @ [?b']) @ (map Read_data ?rest @ rs)"
    by (subst dec) simp
  then have fin: "files (snd (main w (map Read_data secs @ rs))) ''track_01.wav'' = Some ?c"
    using first_track_final [OF pre lb bk mid lb' bm free apart, of "map Read_data ?rest @ rs"]
    by simp
  have fullseg: "\<forall>s\<in>set (?b # ?mid). length s = BLOCK_SIZE"
    using lb mid by simp
  have l2: "length (?b # ?mid) = m - k" using lenmid by simp
  have len: "length (concat (map payload (?b # ?mid))) = (m - k) * DATA_SIZE"
    using length_concat_payload [OF fullseg] unfolding l2 .
  have un: "unat (word_of_nat n :: uint32) = n mod 2 ^ 32" for n
    by (simp add: unat_of_nat)
  have "read_le32 ?c 40 = word_of_nat ((m - k) * DATA_SIZE)"
    using lenmid by (simp only: subchunk2_field data_bytes_of_samples)
  then have fld: "unat (read_le32 ?c 40) = ((m - k) * DATA_SIZE) mod 2 ^ 32"
    by (simp only: un)
  have t44: "take 44 ?c = wav_header (588 * word_of_nat (Suc (length ?mid)))"
    by simp
  have "take 44 ?c = wav_header (588 * word_of_nat (m - k))"
    using t44 unfolding lenmid .
  moreover have "drop 44 ?c = concat (map payload (take (m - k) (drop k secs)))"
    using seg by simp
  moreover have "length ?c = 44 + (m - k) * DATA_SIZE"
    using len by simp
  ultimately show ?thesis using fin fld by blast
qed

theorem first_track_file_witness:
  "\<exists>c. files (snd (main fresh_world
             (map Read_data [plain_sector, mark_sector, plain_sector, mark_sector] @ [])))
           ''track_01.wav'' = Some c
       \<and> take 44 c = wav_header (588 * word_of_nat (3 - 1))
       \<and> drop 44 c = concat (map payload
            (take (3 - 1) (drop 1 [plain_sector, mark_sector, plain_sector, mark_sector])))
       \<and> length c = 44 + (3 - 1) * DATA_SIZE
       \<and> unat (read_le32 c 40) = ((3 - 1) * DATA_SIZE) mod 2 ^ 32"
proof -
  let ?secs = "[plain_sector, mark_sector, plain_sector, mark_sector]"
  have h1: "\<forall>s\<in>set ?secs. length s = BLOCK_SIZE" by simp
  have h2: "(1::nat) < 3" by simp
  have h3: "3 < length ?secs" by simp
  have h4: "is_track_start (?secs ! 1)" by simp
  have h5: "is_track_start (?secs ! 3)" by simp
  have h6: "\<forall>j<3. j \<noteq> 1 \<longrightarrow> \<not> is_track_start (?secs ! j)"
    by (auto simp: less_Suc_eq numeral_3_eq_3)
  have h7: "files fresh_world ''track_01.wav'' = None" by simp
  have h8: "open_fault fresh_world ''track_01.wav'' = None" by simp
  have h9: "stderr_apart fresh_world ''track_01.wav''" by simp
  show ?thesis
    by (rule first_track_file [OF h1 h2 h3 h4 h5 h6 h7 h8 h9])
qed

text \<open>
  The claim fails on a stream of 1826093 sectors in which the first and the last start a
  track: the first file receives 1826092 payload regions, 4294968384 bytes, and its
  subchunk2 size field holds 1088.
\<close>

theorem first_track_file_counterexample:
  "files (snd (main fresh_world
       (map Read_data (mark_sector # replicate 1826091 plain_sector @ [mark_sector]))))
     ''track_01.wav''
     = Some (wav_header 1073742096
               @ concat (map payload (mark_sector # replicate 1826091 plain_sector)))
   \<and> unat (read_le32 (wav_header 1073742096
               @ concat (map payload (mark_sector # replicate 1826091 plain_sector))) 40) = 1088
   \<and> (1826092 - 0) * DATA_SIZE = 4294968384"
proof -
  have pre: "\<forall>s\<in>set ([] :: byte list list). length s = BLOCK_SIZE \<and> \<not> is_track_start s"
    by simp
  have mid: "\<forall>s\<in>set (replicate 1826091 plain_sector).
               length s = BLOCK_SIZE \<and> \<not> is_track_start s"
    by simp
  have ns: "(588 * word_of_nat (Suc (length (replicate 1826091 plain_sector))) :: uint32)
      = 1073742096"
    by simp
  have "files (snd (main fresh_world
       (map Read_data ([] @ mark_sector # replicate 1826091 plain_sector @ [mark_sector]) @ [])))
     ''track_01.wav''
     = Some (wav_header (588 * word_of_nat (Suc (length (replicate 1826091 plain_sector))))
               @ concat (map payload (mark_sector # replicate 1826091 plain_sector)))"
    by (rule first_track_final [OF pre _ _ mid]) simp_all
  then have "files (snd (main fresh_world
       (map Read_data (mark_sector # replicate 1826091 plain_sector @ [mark_sector]))))
     ''track_01.wav''
     = Some (wav_header 1073742096
               @ concat (map payload (mark_sector # replicate 1826091 plain_sector)))"
    unfolding ns by simp
  moreover have "unat (read_le32 (wav_header 1073742096
               @ concat (map payload (mark_sector # replicate 1826091 plain_sector))) 40) = 1088"
    by (simp only: subchunk2_field) simp
  ultimately show ?thesis by (simp add: DATA_SIZE_def)
qed


section \<open>C3: two sectors that both start a track\<close>

text \<open>
  C3 (as amended). The claim says that both files come out with no payload and with size
  fields 0 and 36. But \<open>update_track\<close> runs on every sector once a file is open, on the
  sector that started the track too. With two full sectors that both start a track, in a
  directory where neither name is taken and the creates succeed, and with standard error
  (descriptor 2) open and not on a file of either name, the run produces
  \<^verbatim>\<open>track_01.wav\<close> and \<^verbatim>\<open>track_02.wav\<close> and no other file, each
  holding the 2352 payload bytes of its own sector after the header, with subchunk2 size
  2352 and chunk size 2388.
\<close>

theorem two_starts_two_files:
  assumes "length s1 = BLOCK_SIZE" "is_track_start s1"
    and "length s2 = BLOCK_SIZE" "is_track_start s2"
    and "files w ''track_01.wav'' = None" "files w ''track_02.wav'' = None"
    and "open_fault w ''track_01.wav'' = None" "open_fault w ''track_02.wav'' = None"
    and "stderr_apart w ''track_01.wav''" "stderr_apart w ''track_02.wav''"
  shows "files (snd (main w [Read_data s1, Read_data s2])) ''track_01.wav''
           = Some (wav_header 588 @ payload s1)
       \<and> files (snd (main w [Read_data s1, Read_data s2])) ''track_02.wav''
           = Some (wav_header 588 @ payload s2)
       \<and> dom (files (snd (main w [Read_data s1, Read_data s2])))
           = insert ''track_01.wav'' (insert ''track_02.wav'' (dom (files w)))
       \<and> length (payload s1) = 2352 \<and> length (payload s2) = 2352
       \<and> read_le32 (wav_header 588 @ payload s1) 40 = 2352
       \<and> read_le32 (wav_header 588 @ payload s1) 4 = 2388
       \<and> read_le32 (wav_header 588 @ payload s2) 40 = 2352
       \<and> read_le32 (wav_header 588 @ payload s2) 4 = 2388"
proof -
  note t = two_track_starts [OF assms]
  have "length (payload s1) = 2352" "length (payload s2) = 2352"
    using assms(1,3) by (simp_all add: length_payload DATA_SIZE_def)
  moreover have "read_le32 (wav_header 588 @ payload s1) 40 = 2352"
    "read_le32 (wav_header 588 @ payload s1) 4 = 2388"
    "read_le32 (wav_header 588 @ payload s2) 40 = 2352"
    "read_le32 (wav_header 588 @ payload s2) 4 = 2388"
    by (simp_all add: subchunk2_field chunk_field)
  ultimately show ?thesis using t by (intro conjI)
qed

theorem two_starts_two_files_witness:
  "files (snd (main fresh_world [Read_data mark_sector, Read_data mark_sector])) ''track_01.wav''
           = Some (wav_header 588 @ payload mark_sector)
       \<and> files (snd (main fresh_world [Read_data mark_sector, Read_data mark_sector]))
             ''track_02.wav''
           = Some (wav_header 588 @ payload mark_sector)
       \<and> dom (files (snd (main fresh_world [Read_data mark_sector, Read_data mark_sector])))
           = insert ''track_01.wav'' (insert ''track_02.wav'' (dom (files fresh_world)))
       \<and> length (payload mark_sector) = 2352 \<and> length (payload mark_sector) = 2352
       \<and> read_le32 (wav_header 588 @ payload mark_sector) 40 = 2352
       \<and> read_le32 (wav_header 588 @ payload mark_sector) 4 = 2388
       \<and> read_le32 (wav_header 588 @ payload mark_sector) 40 = 2352
       \<and> read_le32 (wav_header 588 @ payload mark_sector) 4 = 2388"
  by (rule two_starts_two_files) simp_all

text \<open>
  The scenario of the claim in an empty directory: the first file does not hold 0 payload
  bytes but 2352, and its size fields are not 0 and 36 but 2352 and 2388.
\<close>

theorem two_starts_counterexample:
  "files (snd (main fresh_world [Read_data mark_sector, Read_data mark_sector])) ''track_01.wav''
      = Some (wav_header 588 @ payload mark_sector)
   \<and> length (payload mark_sector) = 2352
   \<and> read_le32 (wav_header 588 @ payload mark_sector) 40 = 2352
   \<and> read_le32 (wav_header 588 @ payload mark_sector) 4 = 2388"
proof -
  have "files (snd (main fresh_world [Read_data mark_sector, Read_data mark_sector]))
          ''track_01.wav''
     = Some (wav_header 588 @ payload mark_sector)"
    by (rule two_track_starts(1)) simp_all
  then show ?thesis
    by (simp add: subchunk2_field chunk_field length_payload DATA_SIZE_def)
qed

section \<open>C4: the exit status\<close>

text \<open>
  C4 (as amended). The claim says that a run in which a track file fails to open exits
  with an indication of failure. The program has a single \<^verbatim>\<open>return 0\<close>: every
  run exits with status 0, whether or not an open failed. When the loop is left because
  a create failed, the last thing the run has done is to print the error line for the
  file of the track it tried to start (the line that says the file exists, or the one
  that gives the error), the \<open>close_track\<close> after the loop does nothing, and
  whatever the input would have given after that sector is never read: the failure shows
  in that line and in the run stopping, and in nothing else.
\<close>

theorem exit_status_always_zero:
  assumes "main_loop initial_state w rs = (ex, st, w')"
  shows "fst (main w rs) = 0
       \<and> (ex = Open_failed \<longrightarrow>
            (\<exists>w1 e. w' = fprintf_stderr w1
                (if e = EEXIST then exists_line (track_file_name (track_number st))
                 else error_line (track_file_name (track_number st)) e))
          \<and> main w rs = (0, w')
          \<and> main w (rs @ rest) = (0, w'))"
proof -
  have zero: "fst (main w rs) = 0"
    by (simp add: main_def split: prod.splits)
  have fail: "(\<exists>w1 e. w' = fprintf_stderr w1
                (if e = EEXIST then exists_line (track_file_name (track_number st))
                 else error_line (track_file_name (track_number st)) e))
          \<and> main w rs = (0, w')
          \<and> main w (rs @ rest) = (0, w')"
    if ex: "ex = Open_failed"
  proof -
    from assms ex have l: "main_loop initial_state w rs = (Open_failed, st, w')" by simp
    note h = main_loop_open_failed [OF l]
    have p: "\<exists>w1 e. w' = fprintf_stderr w1
                (if e = EEXIST then exists_line (track_file_name (track_number st))
                 else error_line (track_file_name (track_number st)) e)"
      using h [THEN conjunct1] unfolding h [THEN conjunct2] .
    have c: "close_track st w' = (st, w')"
      by (rule close_track_closed [OF main_loop_failed_fd [OF l]])
    have m1: "main w rs = (0, w')"
      using main_after_loop [OF l] c by simp
    have m2: "main w (rs @ rest) = (0, w')"
      using main_after_loop [OF main_loop_stops [OF l, of rest]] c by simp
    from p m1 m2 show ?thesis by (intro conjI)
  qed
  from zero fail show ?thesis by blast
qed

theorem exit_status_witness:
  "fst (main (fresh_world\<lparr>files := [''track_01.wav'' \<mapsto> [1, 2, 3]]\<rparr>)
          [Read_data mark_sector]) = 0
   \<and> main (fresh_world\<lparr>files := [''track_01.wav'' \<mapsto> [1, 2, 3]]\<rparr>)
          [Read_data mark_sector]
       = (0, fprintf_stderr (fresh_world\<lparr>files := [''track_01.wav'' \<mapsto> [1, 2, 3]]\<rparr>)
               (exists_line ''track_01.wav''))
   \<and> main (fresh_world\<lparr>files := [''track_01.wav'' \<mapsto> [1, 2, 3]]\<rparr>)
          ([Read_data mark_sector] @ [Read_data plain_sector, Read_data mark_sector])
       = (0, fprintf_stderr (fresh_world\<lparr>files := [''track_01.wav'' \<mapsto> [1, 2, 3]]\<rparr>)
               (exists_line ''track_01.wav''))"
proof -
  let ?W = "fresh_world\<lparr>files := [''track_01.wav'' \<mapsto> [1, 2, 3]]\<rparr>"
  have f: "files ?W ''track_01.wav'' = Some [1, 2, 3]" by simp
  have o: "open_fault ?W ''track_01.wav'' = None" by simp
  obtain st where l: "main_loop initial_state ?W [Read_data mark_sector]
       = (Open_failed, st, fprintf_stderr ?W (exists_line ''track_01.wav''))"
    by (rule taken_name_run [OF f o])
  from exit_status_always_zero [OF l, of "[Read_data plain_sector, Read_data mark_sector]"]
  show ?thesis by simp
qed

text \<open>
  The claim fails where \<^verbatim>\<open>track_01.wav\<close> is already there: the open fails, the
  run reports it on standard error and stops, leaving the file as it was, and the exit
  status is still 0.
\<close>

theorem exit_status_counterexample:
  "fst (main (fresh_world\<lparr>files := [''track_01.wav'' \<mapsto> [4, 5, 6]]\<rparr>)
          [Read_data mark_sector]) = 0
   \<and> stream_out (snd (main (fresh_world\<lparr>files := [''track_01.wav'' \<mapsto> [4, 5, 6]]\<rparr>)
          [Read_data mark_sector])) ''stderr''
       = str_bytes (exists_line ''track_01.wav'')
   \<and> files (snd (main (fresh_world\<lparr>files := [''track_01.wav'' \<mapsto> [4, 5, 6]]\<rparr>)
          [Read_data mark_sector])) ''track_01.wav'' = Some [4, 5, 6]"
proof -
  let ?W = "fresh_world\<lparr>files := [''track_01.wav'' \<mapsto> [4, 5, 6]]\<rparr>"
  have f: "files ?W ''track_01.wav'' = Some [4, 5, 6]" by simp
  have o: "open_fault ?W ''track_01.wav'' = None" by simp
  have e: "fd_slot (fdtab ?W) STDERR_FILENO = To_stream ''stderr''" by simp
  obtain st where l: "main_loop initial_state ?W [Read_data mark_sector]
       = (Open_failed, st, fprintf_stderr ?W (exists_line ''track_01.wav''))"
    and fd: "track_fd st = INVALID_FD"
    by (rule taken_name_run [OF f o])
  have "main ?W [Read_data mark_sector]
      = (0, fprintf_stderr ?W (exists_line ''track_01.wav''))"
    using main_after_loop [OF l] by (simp add: close_track_closed [OF fd])
  then show ?thesis
    by (simp add: fprintf_stderr_stream [OF e])
qed

section \<open>C5: an existing file is never overwritten\<close>




section \<open>C6: the diagnostic line\<close>




section \<open>C7: nothing is written before the first track start\<close>

text \<open>
  C7 (as amended). For a stream delivered in full sectors none of which starts a track,
  the run leaves the world exactly as it found it: no file is created and nothing is
  written. More generally, while full sectors before the first track start are processed
  the world does not change (only the buffer and the offset counter of the state do),
  and the outcome of the run does not depend on what those sectors contain. The claim
  as it stands, for every input stream, fails when a sector arrives in more than one
  read: the buffer then mixes the bytes of two sectors and can pass for a track start
  though neither sector is one.
\<close>

theorem nothing_written_before_first_track:
  assumes "\<forall>s\<in>set pre. length s = BLOCK_SIZE \<and> \<not> is_track_start s"
    and "\<forall>s\<in>set pre'. length s = BLOCK_SIZE \<and> \<not> is_track_start s"
    and "length pre' = length pre" and "length b = BLOCK_SIZE"
  shows "main w (map Read_data pre) = (0, w)
       \<and> main_loop initial_state w (map Read_data pre @ rs) =
           main_loop (initial_state\<lparr>buf := last (buf initial_state # pre),
                        offset := 2448 * word_of_nat (length pre)\<rparr>) w rs
       \<and> main w (map Read_data pre @ Read_data b # rs')
           = main w (map Read_data pre' @ Read_data b # rs')"
proof -
  define x where "x = last (buf initial_state # pre)"
  define y where "y = last (buf initial_state # pre')"
  let ?st = "initial_state\<lparr>offset := 2448 * word_of_nat (length pre)\<rparr>"
  have skip: "main_loop initial_state w (map Read_data p @ rs) =
           main_loop (initial_state\<lparr>buf := last (buf initial_state # p),
                        offset := 2448 * word_of_nat (length p)\<rparr>) w rs"
    if "\<forall>s\<in>set p. length s = BLOCK_SIZE \<and> \<not> is_track_start s" for p rs
    using main_loop_skip [of initial_state p w rs] that by simp
  have len: "length (last (buf initial_state # p)) \<le> BLOCK_SIZE"
    if "\<forall>s\<in>set p. length s = BLOCK_SIZE \<and> \<not> is_track_start s" for p
    using that by (cases p rule: rev_cases) auto
  have upd: "initial_state\<lparr>buf := z, offset := 2448 * word_of_nat (length pre)\<rparr> = ?st\<lparr>buf := z\<rparr>"
    for z by simp
  have one: "main w (map Read_data pre) = (0, w)"
    using skip [OF assms(1), of "[]"] by (simp add: main_def close_track_closed)
  have sx: "main_loop initial_state w (map Read_data pre @ rs) = main_loop (?st\<lparr>buf := x\<rparr>) w rs"
    for rs
    unfolding x_def upd [symmetric] by (rule skip [OF assms(1)])
  have sy: "main_loop initial_state w (map Read_data pre' @ rs) = main_loop (?st\<lparr>buf := y\<rparr>) w rs"
    for rs
    unfolding y_def upd [symmetric] using skip [OF assms(2), of rs] assms(3) by simp
  have lb: "loop_body (?st\<lparr>buf := x\<rparr>) w (Read_data b) = loop_body (?st\<lparr>buf := y\<rparr>) w (Read_data b)"
    unfolding x_def y_def
    by (rule loop_body_buf_irrelevant [OF len [OF assms(1)] len [OF assms(2)] assms(4)])
  have "main_loop (?st\<lparr>buf := x\<rparr>) w (Read_data b # rs')
      = main_loop (?st\<lparr>buf := y\<rparr>) w (Read_data b # rs')"
    by (simp only: main_loop.simps lb)
  then have "main_loop initial_state w (map Read_data pre @ Read_data b # rs')
      = main_loop initial_state w (map Read_data pre' @ Read_data b # rs')"
    by (simp only: sx sy)
  then have three: "main w (map Read_data pre @ Read_data b # rs')
           = main w (map Read_data pre' @ Read_data b # rs')"
    by (simp only: main_def)
  from one skip [OF assms(1), of rs] three show ?thesis by blast
qed

theorem nothing_written_before_first_track_witness:
  "main fresh_world (map Read_data [plain_sector, plain_sector]) = (0, fresh_world)
   \<and> main_loop initial_state fresh_world
        (map Read_data [plain_sector, plain_sector] @ [Read_data mark_sector]) =
       main_loop (initial_state\<lparr>buf := last (buf initial_state # [plain_sector, plain_sector]),
                    offset := 2448 * word_of_nat (length [plain_sector, plain_sector])\<rparr>)
         fresh_world [Read_data mark_sector]
   \<and> main fresh_world (map Read_data [plain_sector, plain_sector] @ Read_data mark_sector # [])
       = main fresh_world
           (map Read_data [replicate BLOCK_SIZE 0, plain_sector] @ Read_data mark_sector # [])"
proof -
  have z: "\<not> is_track_start (replicate BLOCK_SIZE 0)"
    by (auto simp: is_track_start_iff BLOCK_SIZE_def DATA_SIZE_def SUBCODE_SIZE_def
        intro!: exI [of _ 2352])
  have h1: "\<forall>s\<in>set [plain_sector, plain_sector]. length s = BLOCK_SIZE \<and> \<not> is_track_start s"
    by simp
  have h2: "\<forall>s\<in>set [replicate BLOCK_SIZE 0, plain_sector].
              length s = BLOCK_SIZE \<and> \<not> is_track_start s"
    using z by simp
  have h3: "length [replicate BLOCK_SIZE 0, plain_sector] = length [plain_sector, plain_sector]"
    by simp
  have h4: "length mark_sector = BLOCK_SIZE" by simp
  show ?thesis
    by (rule nothing_written_before_first_track [OF h1 h2 h3 h4])
qed

text \<open>
  Two sectors that start no track, the second one delivered in two reads, of 2353 and of
  95 bytes. After the first of these reads the buffer holds the first subcode byte of
  the second sector and the other 95 subcode bytes of the first one, and all of them have
  the P bit set: \<^verbatim>\<open>track_01.wav\<close> is created and receives the payload of the
  second sector.
\<close>

theorem split_sector_counterexample:
  "\<not> is_track_start tail_sector \<and> \<not> is_track_start head_sector
   \<and> take 2353 head_sector @ drop 2353 head_sector = head_sector
   \<and> files (snd (main fresh_world
         [Read_data tail_sector, Read_data (take 2353 head_sector),
          Read_data (drop 2353 head_sector)])) ''track_01.wav''
       = Some (wav_header 588 @ payload head_sector)"
proof -
  let ?t1 = "''track_01.wav''"
  let ?B2 = "replicate DATA_SIZE 0x33 @ 0x80 # replicate 95 0x80 :: byte list"
  let ?s1 = "initial_state\<lparr>buf := tail_sector, offset := offset initial_state + 2448\<rparr>"
  let ?r2 = "Read_data (take 2353 head_sector)" and ?r3 = "Read_data (drop 2353 head_sector)"
  \<comment> \<open>the first sector, in full\<close>
  have step1: "loop_body initial_state fresh_world (Read_data tail_sector)
      = (None, ?s1, fresh_world)"
    by (simp add: loop_body_plain update_track_closed)
  \<comment> \<open>the first 2353 bytes of the second sector\<close>
  have rd2: "sys_read (buf ?s1) ?r2 = (2353, ?B2)"
    using head_on_tail by (simp add: sys_read_def BLOCK_SIZE_def DATA_SIZE_def SUBCODE_SIZE_def)
  have pos2: "0 < (2353 :: int)" by simp
  have cl: "close_track (?s1\<lparr>buf := ?B2, track_number := track_number ?s1 + 1\<rparr>) fresh_world
      = (?s1\<lparr>buf := ?B2, track_number := track_number ?s1 + 1\<rparr>, fresh_world)"
    by (simp add: close_track_closed)
  have fr1: "open_fault fresh_world (track_file_name (track_number ?s1 + 1)) = None"
    and fr2: "files fresh_world (track_file_name (track_number ?s1 + 1)) = None"
    by simp_all
  obtain sa wa where a: "loop_body ?s1 fresh_world ?r2 = (None, sa, wa)"
    and sa: "sa = ?s1\<lparr>buf := ?B2, track_number := track_number ?s1 + 1,
                    num_samples := 588, start_offset := offset ?s1,
                    output_file_name := track_file_name (track_number ?s1 + 1),
                    track_fd := int (fd_alloc (fdtab fresh_world)),
                    offset := offset ?s1 + 2448\<rparr>"
    and sess_a: "session sa wa (track_file_name (track_number ?s1 + 1))
                   (wav_header 0 @ payload ?B2)"
    and sla: "\<And>fd'. fd' \<noteq> int (fd_alloc (fdtab fresh_world)) \<Longrightarrow>
           fd_slot (fdtab wa) fd' = fd_slot (fdtab fresh_world) fd'"
    by (rule mark_opens [OF rd2 pos2 head_on_tail_start cl fr1 fr2]) blast
  have sess_a1: "session sa wa ?t1 (wav_header 0 @ payload head_sector)"
    using sess_a by (simp add: head_on_tail_payload)
  have ea: "fd_file wa STDERR_FILENO \<noteq> Some ?t1"
  proof -
    have "STDERR_FILENO \<noteq> int (fd_alloc (fdtab fresh_world))"
      by (simp add: STDERR_FILENO_def)
    from sla [OF this] show ?thesis by (simp add: fd_file_def)
  qed
  have ba: "buf sa = ?B2" and nsa: "num_samples sa = 588"
    by (simp_all add: sa)
  \<comment> \<open>the other 95 bytes of the second sector\<close>
  obtain count s where rd3: "sys_read (buf sa) ?r3 = (count, s)"
    by (cases "sys_read (buf sa) ?r3") auto
  have cs: "count = 95" "s = (0 # replicate 94 0x80) @ drop 95 ?B2"
    using rd3
    by (simp_all add: sys_read_def ba head_sector_def BLOCK_SIZE_def DATA_SIZE_def
        SUBCODE_SIZE_def)
  have pos3: "0 < count" using cs by simp
  have mk3: "is_track_start s"
    unfolding cs
    by (auto simp: is_track_start_iff nth_append nth_Cons' BLOCK_SIZE_def DATA_SIZE_def
        SUBCODE_SIZE_def SUBCODE_P_def)
  obtain ex sb wb where body3: "loop_body sa wa ?r3 = (ex, sb, wb)"
    by (cases "loop_body sa wa ?r3") auto
  note m = mark_closes_session [OF rd3 pos3 mk3 sess_a1 ea body3]
  have fb: "files wb ?t1 = Some (wav_header 588 @ payload head_sector)"
    using m(1) nsa by simp
  have "\<exists>ex'. main_loop initial_state fresh_world [Read_data tail_sector, ?r2, ?r3]
      = (ex', sb, wb)"
    using step1 a body3 by (cases ex) simp_all
  then obtain ex' where
    loop: "main_loop initial_state fresh_world [Read_data tail_sector, ?r2, ?r3] = (ex', sb, wb)"
    ..
  obtain sz wz where z: "close_track sb wb = (sz, wz)"
    by (cases "close_track sb wb") auto
  have "files wz ?t1 = Some (wav_header 588 @ payload head_sector)"
    using close_track_frame(1) [OF m(2) m(3) z] fb by simp
  with main_after_loop [OF loop] z
  have "files (snd (main fresh_world [Read_data tail_sector, ?r2, ?r3])) ?t1
       = Some (wav_header 588 @ payload head_sector)"
    by simp
  then show ?thesis by simp
qed

section \<open>C8: track numbers and file names\<close>

text \<open>
  C8 (as amended). Over a run on full sectors, the files created are exactly those of
  the tracks \<open>1, \<dots>, j\<close>, with no gap: \<open>j\<close> is the number of sectors that start a
  track when no create fails, and the track counter then stands at \<open>j\<close>; when a create
  fails it is the create of track \<open>j + 1\<close>, whose name is taken or refused. The counter
  is 32 bits wide. The file of track \<open>n\<close> is named \<^verbatim>\<open>track_\<close>, then \<open>n\<close> in decimal
  padded with zeros to at least two digits, then \<^verbatim>\<open>.wav\<close>: exactly two digits up
  to track 99, and three or more from track 100 on. Different track numbers give different
  names.
\<close>

theorem track_numbering:
  assumes "\<forall>s\<in>set secs. length s = BLOCK_SIZE"
    and "main_loop initial_state w (map Read_data secs) = (ex, st, w')"
  shows "(\<exists>j. j \<le> length (filter is_track_start secs)
           \<and> dom (files (snd (main w (map Read_data secs))))
                = dom (files w) \<union> (\<lambda>i. track_file_name (word_of_nat i)) ` {1..j}
           \<and> (ex = End_of_input \<longrightarrow>
                 j = length (filter is_track_start secs) \<and> track_number st = word_of_nat j
               \<and> (0 < j \<longrightarrow> output_file_name st = track_file_name (word_of_nat j)))
           \<and> (ex = Open_failed \<longrightarrow>
                 j < length (filter is_track_start secs)
               \<and> track_number st = word_of_nat (Suc j)
               \<and> (open_fault w (track_file_name (word_of_nat (Suc j))) \<noteq> None
                    \<or> track_file_name (word_of_nat (Suc j))
                        \<in> dom (files w) \<union> (\<lambda>i. track_file_name (word_of_nat i)) ` {1..j})))
       \<and> (\<forall>n. track_file_name n = ''track_'' @ fmt_02u (unat n) @ ''.wav'')
       \<and> (\<forall>i<100. fmt_02u i = [digit (i div 10), digit (i mod 10)])
       \<and> (\<forall>i\<ge>100. fmt_02u i = dec i \<and> 3 \<le> length (dec i))
       \<and> (\<forall>a b. track_file_name a = track_file_name b \<longrightarrow> a = b)"
proof -
  have len: "length (buf initial_state) \<le> BLOCK_SIZE" by simp
  from run_tracking [OF assms(1) len assms(2)] obtain j where
    j: "j \<le> length (filter is_track_start secs)"
    and d0: "dom (files w') = dom (files w)
             \<union> (\<lambda>i. track_file_name (track_number initial_state + word_of_nat i)) ` {1..j}"
    and e1: "ex = End_of_input \<longrightarrow>
             j = length (filter is_track_start secs)
           \<and> track_number st = track_number initial_state + word_of_nat j
           \<and> offset st = offset initial_state + 2448 * word_of_nat (length secs)
           \<and> length (buf st) \<le> BLOCK_SIZE
           \<and> ((output_file_name initial_state = track_file_name (track_number initial_state)
                  \<and> track_fd initial_state \<noteq> INVALID_FD) \<or> 0 < j \<longrightarrow>
                output_file_name st = track_file_name (track_number st)
                  \<and> track_fd st \<noteq> INVALID_FD)"
    and e2: "ex = Open_failed \<longrightarrow>
             j < length (filter is_track_start secs)
           \<and> track_number st = track_number initial_state + word_of_nat (Suc j)
           \<and> (open_fault w (track_file_name (track_number st)) \<noteq> None
                \<or> track_file_name (track_number st) \<in> dom (files w'))"
    by blast
  have d: "dom (files w') = dom (files w) \<union> (\<lambda>i. track_file_name (word_of_nat i)) ` {1..j}"
    using d0 by simp
  have fin: "dom (files (snd (main w (map Read_data secs)))) = dom (files w')"
    using main_after_loop [OF assms(2)] by simp
  have c1: "ex = End_of_input \<longrightarrow>
                 j = length (filter is_track_start secs) \<and> track_number st = word_of_nat j
               \<and> (0 < j \<longrightarrow> output_file_name st = track_file_name (word_of_nat j))"
    using e1 by auto
  have c2: "ex = Open_failed \<longrightarrow>
                 j < length (filter is_track_start secs)
               \<and> track_number st = word_of_nat (Suc j)
               \<and> (open_fault w (track_file_name (word_of_nat (Suc j))) \<noteq> None
                    \<or> track_file_name (word_of_nat (Suc j))
                        \<in> dom (files w) \<union> (\<lambda>i. track_file_name (word_of_nat i)) ` {1..j})"
    using e2 d by auto
  have run: "\<exists>j. j \<le> length (filter is_track_start secs)
           \<and> dom (files (snd (main w (map Read_data secs))))
                = dom (files w) \<union> (\<lambda>i. track_file_name (word_of_nat i)) ` {1..j}
           \<and> (ex = End_of_input \<longrightarrow>
                 j = length (filter is_track_start secs) \<and> track_number st = word_of_nat j
               \<and> (0 < j \<longrightarrow> output_file_name st = track_file_name (word_of_nat j)))
           \<and> (ex = Open_failed \<longrightarrow>
                 j < length (filter is_track_start secs)
               \<and> track_number st = word_of_nat (Suc j)
               \<and> (open_fault w (track_file_name (word_of_nat (Suc j))) \<noteq> None
                    \<or> track_file_name (word_of_nat (Suc j))
                        \<in> dom (files w) \<union> (\<lambda>i. track_file_name (word_of_nat i)) ` {1..j}))"
    using j d fin c1 c2 by (intro exI [of _ j]) simp
  have names: "\<forall>n. track_file_name n = ''track_'' @ fmt_02u (unat n) @ ''.wav''"
    using track_file_name_eq by blast
  have two: "\<forall>i<100. fmt_02u i = [digit (i div 10), digit (i mod 10)]"
    using fmt_02u_below_100 by blast
  have three: "\<forall>i\<ge>100. fmt_02u i = dec i \<and> 3 \<le> length (dec i)"
    using fmt_02u_from_100 dec_three_digits by blast
  have inj: "\<forall>a b. track_file_name a = track_file_name b \<longrightarrow> a = b"
    using track_file_name_inj by blast
  from run names two three inj show ?thesis by (intro conjI)
qed

theorem track_numbering_witness:
  "dom (files (snd (main fresh_world
       (map Read_data [mark_sector, plain_sector, mark_sector]))))
     = {''track_01.wav'', ''track_02.wav''}
   \<and> fmt_02u 7 = ''07'' \<and> fmt_02u 123 = ''123''
   \<and> track_file_name 7 = ''track_07.wav''"
proof -
  let ?secs = "[mark_sector, plain_sector, mark_sector]"
  obtain ex st w' where r: "main_loop initial_state fresh_world (map Read_data ?secs) = (ex, st, w')"
    by (cases "main_loop initial_state fresh_world (map Read_data ?secs)") auto
  have h: "\<forall>s\<in>set ?secs. length s = BLOCK_SIZE" by simp
  have ex: "ex = End_of_input"
    by (rule fresh_run_succeeds [OF h _ _ _ r]) (simp_all add: fresh_world_def)
  note T = track_numbering [OF h r]
  from T [THEN conjunct1] obtain j where
    d: "dom (files (snd (main fresh_world (map Read_data ?secs))))
          = dom (files fresh_world) \<union> (\<lambda>i. track_file_name (word_of_nat i)) ` {1..j}"
    and e1: "ex = End_of_input \<longrightarrow>
                 j = length (filter is_track_start ?secs) \<and> track_number st = word_of_nat j
               \<and> (0 < j \<longrightarrow> output_file_name st = track_file_name (word_of_nat j))"
    by blast
  from e1 ex have j: "j = 2" by simp
  have r12: "{Suc 0..2} = {Suc 0, 2}" by auto
  have one: "dom (files (snd (main fresh_world (map Read_data ?secs))))
     = {''track_01.wav'', ''track_02.wav''}"
    using d by (simp add: j r12 fresh_world_def)
  have names: "track_file_name 7 = ''track_'' @ fmt_02u (unat (7 :: uint32)) @ ''.wav''"
    using T [THEN conjunct2, THEN conjunct1] by blast
  have "(7::nat) < 100" by simp
  with T [THEN conjunct2, THEN conjunct2, THEN conjunct1]
  have two: "fmt_02u 7 = [digit (7 div 10), digit (7 mod 10)]" by blast
  have "(100::nat) \<le> 123" by simp
  with T [THEN conjunct2, THEN conjunct2, THEN conjunct2, THEN conjunct1]
  have three: "fmt_02u 123 = dec 123" by blast
  from one two three names show ?thesis
    by (simp add: digit_def dec.simps)
qed

text \<open>
  A hundred sectors that each start a track, in an empty directory: the hundredth file is
  \<^verbatim>\<open>track_100.wav\<close>, whose number has three digits.
\<close>

theorem track_numbering_counterexample:
  "''track_100.wav''
     \<in> dom (files (snd (main fresh_world (map Read_data (replicate 100 mark_sector)))))"
proof -
  let ?secs = "replicate 100 mark_sector"
  obtain ex st w' where r: "main_loop initial_state fresh_world (map Read_data ?secs) = (ex, st, w')"
    by (cases "main_loop initial_state fresh_world (map Read_data ?secs)") auto
  have full: "\<forall>s\<in>set ?secs. length s = BLOCK_SIZE" by simp
  have cnt: "length (filter is_track_start ?secs) = 100" by simp
  have ex: "ex = End_of_input"
    by (rule fresh_run_succeeds [OF full _ _ _ r]) (simp_all add: fresh_world_def)
  have len: "length (buf initial_state) \<le> BLOCK_SIZE" by simp
  from run_tracking [OF full len r] obtain j where
    d0: "dom (files w') = dom (files fresh_world)
             \<union> (\<lambda>i. track_file_name (track_number initial_state + word_of_nat i)) ` {1..j}"
    and e1: "ex = End_of_input \<longrightarrow>
             j = length (filter is_track_start ?secs)
           \<and> track_number st = track_number initial_state + word_of_nat j
           \<and> offset st = offset initial_state + 2448 * word_of_nat (length ?secs)
           \<and> length (buf st) \<le> BLOCK_SIZE
           \<and> ((output_file_name initial_state = track_file_name (track_number initial_state)
                  \<and> track_fd initial_state \<noteq> INVALID_FD) \<or> 0 < j \<longrightarrow>
                output_file_name st = track_file_name (track_number st)
                  \<and> track_fd st \<noteq> INVALID_FD)"
    by blast
  from e1 ex cnt have j: "j = 100" by simp
  have nm: "track_file_name (word_of_nat 100) = ''track_100.wav''"
    by (simp add: track_file_name_def fmt_02u_def dec.simps digit_def)
  have "(100::nat) \<in> {1..100}" by simp
  then have "track_file_name (word_of_nat 100)
      \<in> (\<lambda>i. track_file_name (word_of_nat i)) ` {1..100}"
    by (rule imageI)
  with d0 j nm have "''track_100.wav'' \<in> dom (files w')" by simp
  with main_after_loop [OF r] show ?thesis by simp
qed


section \<open>C9: finalizing rewrites the header and nothing else\<close>




section \<open>C10: the descriptor after a failed open\<close>

text \<open>
  C10 (as amended). \<open>close_track\<close> never resets the stored descriptor. But a failed
  \<open>start_track\<close> stores the result of \<^verbatim>\<open>open\<close>, which is \<open>-1\<close>, the invalid
  sentinel itself. So whenever the loop is left because a track file failed to open, the
  descriptor is the sentinel and the \<open>close_track\<close> after the loop returns at once: no
  second diagnostic line, no write and no close on a closed descriptor. The run ends in
  the world in which the loop ended.
\<close>

theorem failed_open_stores_sentinel:
  assumes "main_loop initial_state w rs = (Open_failed, st', w')"
  shows "track_fd (fst (close_track st w0)) = track_fd st
       \<and> track_fd st' = INVALID_FD
       \<and> close_track st' w' = (st', w')
       \<and> main w rs = (0, w')"
proof -
  have fd: "track_fd st' = INVALID_FD"
    by (rule main_loop_failed_fd [OF assms])
  then have "close_track st' w' = (st', w')"
    by (rule close_track_closed)
  with fd main_after_loop [OF assms] show ?thesis by simp
qed

text \<open>
  Two sectors that both start a track, in a directory where \<^verbatim>\<open>track_02.wav\<close>
  exists: the first track is finalized when the second sector is seen, the open of the
  second track fails, and the run ends. Standard error has received exactly one
  diagnostic line for the first track, followed by the error line.
\<close>

theorem failed_open_counterexample:
  "stream_out (snd (main (fresh_world\<lparr>files := [''track_02.wav'' \<mapsto> [1, 2, 3]]\<rparr>)
                     [Read_data mark_sector, Read_data mark_sector])) ''stderr''
     = str_bytes (''track_01.wav: duration_s:0 start_offset:0 end_offset:2448'' @ newline
                    @ exists_line ''track_02.wav'')"
proof -
  let ?t1 = "''track_01.wav''" and ?t2 = "''track_02.wav''"
  let ?W = "fresh_world\<lparr>files := [?t2 \<mapsto> [1, 2, 3]]\<rparr>"
  have fw: "files ?W = [?t2 \<mapsto> [1, 2, 3]]" "open_fault ?W = Map.empty"
    "stream_out ?W = (\<lambda>i. [])" "fd_alloc (fdtab ?W) = 3"
    "fd_slot (fdtab ?W) STDERR_FILENO = To_stream ''stderr''"
    by simp_all
  have rd1: "sys_read (buf initial_state) (Read_data mark_sector) = (int BLOCK_SIZE, mark_sector)"
    by (simp add: sys_read_full)
  have pos: "0 < int BLOCK_SIZE" by (simp add: BLOCK_SIZE_eq)
  have mk: "is_track_start mark_sector" by simp
  have cl1: "close_track (initial_state\<lparr>buf := mark_sector,
                 track_number := track_number initial_state + 1\<rparr>) ?W
      = (initial_state\<lparr>buf := mark_sector, track_number := track_number initial_state + 1\<rparr>, ?W)"
    by (simp add: close_track_closed)
  have fr1: "open_fault ?W (track_file_name (track_number initial_state + 1)) = None"
    and fr2: "files ?W (track_file_name (track_number initial_state + 1)) = None"
    by simp_all
  obtain sa wa where a: "loop_body initial_state ?W (Read_data mark_sector) = (None, sa, wa)"
    and sa: "sa = initial_state\<lparr>buf := mark_sector,
                    track_number := track_number initial_state + 1,
                    num_samples := 588, start_offset := offset initial_state,
                    output_file_name := track_file_name (track_number initial_state + 1),
                    track_fd := int (fd_alloc (fdtab ?W)),
                    offset := offset initial_state + 2448\<rparr>"
    and sess_a: "session sa wa (track_file_name (track_number initial_state + 1))
                   (wav_header 0 @ payload mark_sector)"
    and fa: "files wa = (files ?W)(track_file_name (track_number initial_state + 1)
                           \<mapsto> wav_header 0 @ payload mark_sector)"
    and ea: "stream_out wa = stream_out ?W"
    and oa: "open_fault wa = open_fault ?W"
    and sla: "\<And>fd'. fd' \<noteq> int (fd_alloc (fdtab ?W)) \<Longrightarrow>
           fd_slot (fdtab wa) fd' = fd_slot (fdtab ?W) fd'"
    by (rule mark_opens [OF rd1 pos mk cl1 fr1 fr2]) blast
  have ba: "buf sa = mark_sector" and na: "track_number sa = 1"
    by (simp_all add: sa)
  have line: "close_line sa
      = ''track_01.wav: duration_s:0 start_offset:0 end_offset:2448'' @ newline"
    using duration_one_sector [of 0]
    by (simp add: close_line_def sa diag_line_def dec.simps digit_def)
  have sea: "fd_slot (fdtab wa) STDERR_FILENO = To_stream ''stderr''"
  proof -
    have "STDERR_FILENO \<noteq> int (fd_alloc (fdtab ?W))"
      by (simp add: STDERR_FILENO_def)
    from sla [OF this] show ?thesis by simp
  qed
  have rd2: "sys_read (buf sa) (Read_data mark_sector) = (int BLOCK_SIZE, mark_sector)"
    by (simp add: sys_read_full ba)
  obtain sb wb where cl2:
    "close_track (sa\<lparr>buf := mark_sector, track_number := track_number sa + 1\<rparr>) wa = (sb, wb)"
    by (cases "close_track (sa\<lparr>buf := mark_sector, track_number := track_number sa + 1\<rparr>) wa")
      auto
  have sess_a2: "session (sa\<lparr>buf := mark_sector, track_number := track_number sa + 1\<rparr>) wa ?t1
      (wav_header 0 @ payload mark_sector)"
    using sess_a by simp
  note c2 = close_track_session_stream [OF sess_a2 sea cl2]
  have fb: "files wb (track_file_name (track_number sa + 1)) = Some [1, 2, 3]"
    using c2(2) fa by (simp add: na)
  have ob: "open_fault wb (track_file_name (track_number sa + 1)) = None"
    using c2(5) oa by simp
  have eb: "stream_out wb ''stderr'' = str_bytes (close_line sa)"
    using c2(4) ea by simp
  have seb: "fd_slot (fdtab wb) STDERR_FILENO = To_stream ''stderr''"
    using c2(3) [of STDERR_FILENO] sea by (simp add: sa STDERR_FILENO_def)
  have "main ?W [Read_data mark_sector, Read_data mark_sector]
      = (0, fprintf_stderr wb (exists_line ?t2))"
  proof (rule mark_taken [OF rd2 pos mk cl2 fb])
    fix sc msg
    assume c: "loop_body sa wa (Read_data mark_sector)
        = (Some Open_failed, sc, fprintf_stderr wb msg)"
      and fdc: "track_fd sc = INVALID_FD"
      and msg: "open_fault wb (track_file_name (track_number sa + 1)) = None \<Longrightarrow>
         msg = exists_line (track_file_name (track_number sa + 1))"
    have m: "msg = exists_line ?t2" using msg [OF ob] na by simp
    have loop: "main_loop initial_state ?W [Read_data mark_sector, Read_data mark_sector]
        = (Open_failed, sc, fprintf_stderr wb msg)"
      using a c by simp
    show ?thesis
      using main_after_loop [OF loop] by (simp add: close_track_closed [OF fdc] m)
  qed
  then show ?thesis
    by (simp add: fprintf_stderr_stream [OF seb] eb line str_bytes_def)
qed

theorem failed_open_stores_sentinel_witness:
  "main (fresh_world\<lparr>files := [''track_01.wav'' \<mapsto> [1, 2, 3]]\<rparr>) [Read_data mark_sector]
     = (0, fprintf_stderr (fresh_world\<lparr>files := [''track_01.wav'' \<mapsto> [1, 2, 3]]\<rparr>)
             (exists_line ''track_01.wav''))
   \<and> track_fd (fst (close_track (initial_state\<lparr>track_fd := 3\<rparr>) fresh_world)) = 3"
proof -
  let ?W = "fresh_world\<lparr>files := [''track_01.wav'' \<mapsto> [1, 2, 3]]\<rparr>"
  have f: "files ?W ''track_01.wav'' = Some [1, 2, 3]" by simp
  have o: "open_fault ?W ''track_01.wav'' = None" by simp
  obtain sc where loop: "main_loop initial_state ?W [Read_data mark_sector]
      = (Open_failed, sc, fprintf_stderr ?W (exists_line ''track_01.wav''))"
    by (rule taken_name_run [OF f o])
  from failed_open_stores_sentinel [OF loop, of "initial_state\<lparr>track_fd := 3\<rparr>" fresh_world]
  show ?thesis by simp
qed

end
